(* ===== verification/Py_Prelude.thy ===== *)
theory Py_Prelude
  imports Complex_Main "HOL-Library.Word" "HOL-Library.Char_ord" "HOL-Library.List_Lexorder"
begin

text \<open>
  What every component of the service uses of the Python language and of its standard
  library: fallible computations (a raised exception is the left half of a sum), the
  dynamically typed values that the validators inspect with \<open>isinstance\<close>, string
  methods (\<open>strip\<close>, \<open>upper\<close>, \<open>lower\<close>, \<open>replace\<close>, \<open>split\<close>, \<open>join\<close>),
  \<open>int\<close> parsing and printing, and \<open>float\<close>.

  Strings are lists of characters, one per code point, over ASCII: \<open>upper\<close> and \<open>lower\<close>
  map the ASCII letters and \<open>is_space\<close> is Python's \<open>str.isspace\<close> on ASCII.
\<close>

named_theorems res_simps \<open>rules that take a fallible computation apart\<close>
named_theorems py_str \<open>facts about the string methods\<close>

section \<open>Fallible computations\<close>

text \<open>\<open>bindE m f\<close> runs \<open>f\<close> on the result of \<open>m\<close>; an exception of \<open>m\<close> skips \<open>f\<close>.\<close>

fun bindE :: "'e + 'a \<Rightarrow> ('a \<Rightarrow> 'e + 'b) \<Rightarrow> 'e + 'b" where
  "bindE (Inl e) f = Inl e"
| "bindE (Inr x) f = f x"

text \<open>A comprehension whose body may raise: the first exception stops it.\<close>

fun mapE :: "('a \<Rightarrow> 'e + 'b) \<Rightarrow> 'a list \<Rightarrow> 'e + 'b list" where
  "mapE f [] = Inr []"
| "mapE f (x # xs) = bindE (f x) (\<lambda>y. bindE (mapE f xs) (\<lambda>ys. Inr (y # ys)))"

lemma bindE_Inr_iff [res_simps]: "bindE m f = Inr y \<longleftrightarrow> (\<exists>x. m = Inr x \<and> f x = Inr y)"
  by (cases m) auto

lemma bindE_Inl_iff [res_simps]:
  "bindE m f = Inl e \<longleftrightarrow> m = Inl e \<or> (\<exists>x. m = Inr x \<and> f x = Inl e)"
  by (cases m) auto

lemma bindE_assoc: "bindE (bindE m f) g = bindE m (\<lambda>x. bindE (f x) g)"
  by (cases m) auto

lemma bindE_cong [fundef_cong]:
  "m = m' \<Longrightarrow> (\<And>x. m' = Inr x \<Longrightarrow> f x = f' x) \<Longrightarrow> bindE m f = bindE m' f'"
  by (cases m') auto

lemma mapE_Inr_iff [res_simps]: "mapE f xs = Inr ys \<longleftrightarrow> list_all2 (\<lambda>x y. f x = Inr y) xs ys"
proof (induction xs arbitrary: ys)
  case Nil
  then show ?case by auto
next
  case (Cons x xs)
  then show ?case by (cases ys) (auto simp: res_simps)
qed

lemma mapE_Inl: "mapE f xs = Inl e \<Longrightarrow> \<exists>x \<in> set xs. f x = Inl e"
  by (induction xs) (auto simp: res_simps)

lemma mapE_all: "(\<And>x. x \<in> set xs \<Longrightarrow> f x = Inr (g x)) \<Longrightarrow> mapE f xs = Inr (map g xs)"
  by (induction xs) auto

lemma mapE_error: "x \<in> set xs \<Longrightarrow> f x = Inl e \<Longrightarrow> \<exists>e'. mapE f xs = Inl e'"
proof (induction xs)
  case Nil
  then show ?case by simp
next
  case (Cons a xs)
  then show ?case by (cases "f a"; cases "mapE f xs") auto
qed

section \<open>String methods\<close>

definition is_space :: "char \<Rightarrow> bool" where
  "is_space c \<longleftrightarrow> (let n = (of_char c :: nat) in
     (9 \<le> n \<and> n \<le> 13) \<or> (28 \<le> n \<and> n \<le> 32))"

definition upper_char :: "char \<Rightarrow> char" where
  "upper_char c = (let n = (of_char c :: nat) in
     if 97 \<le> n \<and> n \<le> 122 then char_of (n - 32) else c)"

definition lower_char :: "char \<Rightarrow> char" where
  "lower_char c = (let n = (of_char c :: nat) in
     if 65 \<le> n \<and> n \<le> 90 then char_of (n + 32) else c)"

definition upper :: "string \<Rightarrow> string" where
  "upper s = map upper_char s"

definition lower :: "string \<Rightarrow> string" where
  "lower s = map lower_char s"

text \<open>\<open>s.strip()\<close> and \<open>s.strip(chars)\<close>, \<open>s.rstrip(chars)\<close>.\<close>

definition strip_of :: "(char \<Rightarrow> bool) \<Rightarrow> string \<Rightarrow> string" where
  "strip_of p s = rev (dropWhile p (rev (dropWhile p s)))"

definition strip :: "string \<Rightarrow> string" where
  "strip s = strip_of is_space s"

definition rstrip_of :: "(char \<Rightarrow> bool) \<Rightarrow> string \<Rightarrow> string" where
  "rstrip_of p s = rev (dropWhile p (rev s))"

definition is_upper_letter :: "char \<Rightarrow> bool" where
  "is_upper_letter c \<longleftrightarrow> (let n = (of_char c :: nat) in 65 \<le> n \<and> n \<le> 90)"

definition is_lower_letter :: "char \<Rightarrow> bool" where
  "is_lower_letter c \<longleftrightarrow> (let n = (of_char c :: nat) in 97 \<le> n \<and> n \<le> 122)"

definition is_digit :: "char \<Rightarrow> bool" where
  "is_digit c \<longleftrightarrow> (let n = (of_char c :: nat) in 48 \<le> n \<and> n \<le> 57)"

text \<open>\<open>s.isalpha()\<close> on ASCII: at least one character, letters only.\<close>

definition isalpha :: "string \<Rightarrow> bool" where
  "isalpha s \<longleftrightarrow> s \<noteq> [] \<and> list_all (\<lambda>c. is_upper_letter c \<or> is_lower_letter c) s"

text \<open>
  \<open>s.replace(old, new)\<close> for a non-empty \<open>old\<close>: the leftmost occurrences that do not
  overlap, read from the left. \<open>starts_with old s\<close> is \<open>s.startswith(old)\<close>.
\<close>

definition starts_with :: "string \<Rightarrow> string \<Rightarrow> bool" where
  "starts_with p s \<longleftrightarrow> take (length p) s = p"

function py_replace :: "string \<Rightarrow> string \<Rightarrow> string \<Rightarrow> string" where
  "py_replace old new [] = []"
| "py_replace old new (c # cs) =
     (if old \<noteq> [] \<and> starts_with old (c # cs)
      then new @ py_replace old new (drop (length old) (c # cs))
      else c # py_replace old new cs)"
  by pat_completeness auto
termination
  by (relation "measure (\<lambda>(old, new, s). length s)") auto

text \<open>\<open>s.split(sep)\<close> for a one-character separator; \<open>sep.join(parts)\<close>.\<close>

fun split_on :: "char \<Rightarrow> string \<Rightarrow> string list" where
  "split_on sep [] = [[]]"
| "split_on sep (c # cs) =
     (if c = sep then [] # split_on sep cs
      else (case split_on sep cs of [] \<Rightarrow> [[c]] | p # ps \<Rightarrow> (c # p) # ps))"

fun join_with :: "string \<Rightarrow> string list \<Rightarrow> string" where
  "join_with sep [] = []"
| "join_with sep [p] = p"
| "join_with sep (p # q # ps) = p @ sep @ join_with sep (q # ps)"

subsection \<open>Facts about the string methods\<close>

lemma is_space_code: "is_space c \<longleftrightarrow>
    (9 \<le> (of_char c :: nat) \<and> (of_char c :: nat) \<le> 13) \<or> (28 \<le> (of_char c :: nat) \<and> (of_char c :: nat) \<le> 32)"
  by (simp add: is_space_def Let_def)

lemma of_char_upper: "(of_char (upper_char c) :: nat) =
    (if 97 \<le> (of_char c :: nat) \<and> (of_char c :: nat) \<le> 122 then of_char c - 32 else of_char c)"
  by (auto simp: upper_char_def Let_def)

lemma is_space_upper_char [py_str]: "is_space (upper_char c) = is_space c"
  by (auto simp: is_space_code of_char_upper)

lemma upper_char_idem [py_str]: "upper_char (upper_char c) = upper_char c"
  by (auto simp: upper_char_def Let_def)

lemma length_upper [simp]: "length (upper s) = length s"
  by (simp add: upper_def)

lemma upper_Nil_iff [simp]: "upper s = [] \<longleftrightarrow> s = []"
  by (simp add: upper_def)

lemma upper_idem [py_str]: "upper (upper s) = upper s"
  by (simp add: upper_def upper_char_idem)

lemma upper_append: "upper (s @ t) = upper s @ upper t"
  by (simp add: upper_def)

lemma upper_id: "list_all (\<lambda>c. \<not> is_lower_letter c) s \<Longrightarrow> upper s = s"
  by (induction s) (auto simp: upper_def upper_char_def is_lower_letter_def Let_def)

text \<open>A character that normalisation (\<open>strip\<close>, then \<open>upper\<close>) leaves alone.\<close>

definition is_plain :: "char \<Rightarrow> bool" where
  "is_plain c \<longleftrightarrow> \<not> is_space c \<and> \<not> is_lower_letter c"

lemma is_digit_plain: "is_digit c \<Longrightarrow> is_plain c"
  by (auto simp: is_digit_def is_plain_def is_space_def is_lower_letter_def Let_def)

lemma is_upper_letter_plain: "is_upper_letter c \<Longrightarrow> is_plain c"
  by (auto simp: is_upper_letter_def is_plain_def is_space_def is_lower_letter_def Let_def)

lemma is_digit_zero [simp]: "is_digit (CHR ''0'')"
  by code_simp

lemma lower_char_idem [py_str]: "lower_char (lower_char c) = lower_char c"
  by (auto simp: lower_char_def Let_def)

lemma lower_idem [py_str]: "lower (lower s) = lower s"
  by (simp add: lower_def lower_char_idem)

lemma of_char_lower: "(of_char (lower_char c) :: nat) =
    (if 65 \<le> (of_char c :: nat) \<and> (of_char c :: nat) \<le> 90 then of_char c + 32 else of_char c)"
  by (auto simp: lower_char_def Let_def)

lemma is_space_lower_char [py_str]: "is_space (lower_char c) = is_space c"
  by (auto simp: is_space_code of_char_lower)

lemma length_lower [simp]: "length (lower s) = length s"
  by (simp add: lower_def)

lemma lower_Nil_iff [simp]: "lower s = [] \<longleftrightarrow> s = []"
  by (simp add: lower_def)

lemma dropWhile_idem: "dropWhile p (dropWhile p s) = dropWhile p s"
  by (induction s) auto

lemma dropWhile_snoc:
  "\<not> p a \<Longrightarrow> dropWhile p (xs @ [a]) = dropWhile p xs @ [a]"
  by (induction xs) auto

lemma dropWhile_rev_dropWhile:
  "dropWhile p (rev (dropWhile p (rev (dropWhile p s)))) = rev (dropWhile p (rev (dropWhile p s)))"
proof (cases "dropWhile p s")
  case Nil
  then show ?thesis by (simp only: Nil rev.simps dropWhile.simps)
next
  case (Cons a xs)
  have "\<not> p a" using Cons by (metis hd_dropWhile list.distinct(1) list.sel(1))
  then show ?thesis using Cons by (simp add: dropWhile_snoc)
qed

lemma strip_of_idem [py_str]: "strip_of p (strip_of p s) = strip_of p s"
  unfolding strip_of_def by (simp only: dropWhile_rev_dropWhile rev_rev_ident dropWhile_idem)

lemma strip_idem [py_str]: "strip (strip s) = strip s"
  by (simp add: strip_def strip_of_idem)

lemma set_strip_of: "set (strip_of p s) \<subseteq> set s"
  by (auto simp: strip_of_def dest!: set_dropWhileD)

lemma set_strip: "set (strip s) \<subseteq> set s"
  by (simp add: strip_def set_strip_of)

lemma strip_of_map: "(\<And>c. p (f c) = p c) \<Longrightarrow> strip_of p (map f s) = map f (strip_of p s)"
  unfolding strip_of_def by (simp add: dropWhile_map comp_def rev_map)

lemma strip_upper [py_str]: "strip (upper s) = upper (strip s)"
  by (simp add: strip_def upper_def strip_of_map is_space_upper_char)

lemma strip_lower [py_str]: "strip (lower s) = lower (strip s)"
  by (simp add: strip_def lower_def strip_of_map is_space_lower_char)

lemma dropWhile_id: "s = [] \<or> \<not> p (hd s) \<Longrightarrow> dropWhile p s = s"
  by (cases s) auto

lemma strip_of_id:
  "(s = [] \<or> (\<not> p (hd s) \<and> \<not> p (last s))) \<Longrightarrow> strip_of p s = s"
  by (auto simp: strip_of_def dropWhile_id hd_rev)

lemma strip_of_none: "list_all (\<lambda>c. \<not> p c) s \<Longrightarrow> strip_of p s = s"
  by (rule strip_of_id) (cases s; auto simp: list_all_iff)

lemma strip_none: "list_all (\<lambda>c. \<not> is_space c) s \<Longrightarrow> strip s = s"
  by (simp add: strip_def strip_of_none)

lemma plain_normalized: "list_all is_plain s \<Longrightarrow> upper (strip s) = s"
  by (subst strip_none; (subst upper_id)?) (auto simp: list_all_iff is_plain_def)

lemma strip_of_ends:
  assumes "strip_of p s \<noteq> []"
  shows "\<not> p (hd (strip_of p s))" "\<not> p (last (strip_of p s))"
proof -
  have ne: "dropWhile p (rev (dropWhile p s)) \<noteq> []" using assms by (simp add: strip_of_def)
  show "\<not> p (last (strip_of p s))"
    using ne hd_dropWhile [OF ne] by (simp add: strip_of_def last_rev)
  have "dropWhile p (strip_of p s) = strip_of p s"
    by (simp only: strip_of_def dropWhile_rev_dropWhile)
  then show "\<not> p (hd (strip_of p s))" using assms by (metis hd_dropWhile)
qed

lemma strip_ends:
  assumes "strip s \<noteq> []"
  shows "\<not> is_space (hd (strip s))" "\<not> is_space (last (strip s))"
  using assms strip_of_ends [of is_space s] by (simp_all add: strip_def)

lemma length_strip_of: "length (strip_of p s) \<le> length s"
proof -
  have "length (strip_of p s) \<le> length (dropWhile p s)"
    by (simp add: strip_of_def) (metis length_dropWhile_le length_rev)
  also have "\<dots> \<le> length s" by (rule length_dropWhile_le)
  finally show ?thesis .
qed

lemma py_replace_absent: "hd old \<notin> set s \<Longrightarrow> old \<noteq> [] \<Longrightarrow> py_replace old new s = s"
proof (induction s)
  case Nil
  then show ?case by simp
next
  case (Cons c cs)
  then have "\<not> starts_with old (c # cs)"
    by (cases old) (auto simp: starts_with_def)
  with Cons show ?case by simp
qed

lemma py_replace_char: "py_replace [a] new s = concat (map (\<lambda>c. if c = a then new else [c]) s)"
  by (induction s) (auto simp: starts_with_def)

lemma py_replace_delete_char: "py_replace [a] [] s = filter (\<lambda>c. c \<noteq> a) s"
  by (induction s) (auto simp: starts_with_def)

lemma split_on_nonempty [simp]: "split_on sep s \<noteq> []"
  by (induction s) (auto split: list.splits)

lemma split_on_no_sep: "p \<in> set (split_on sep s) \<Longrightarrow> sep \<notin> set p"
  by (induction s arbitrary: p) (auto split: if_splits list.splits)

lemma split_on_chars: "p \<in> set (split_on sep s) \<Longrightarrow> set p \<subseteq> set s"
proof (induction s arbitrary: p)
  case Nil
  then show ?case by simp
next
  case (Cons c cs)
  then show ?case by (cases "split_on sep cs") (fastforce split: if_splits)+
qed

lemma join_split: "join_with [sep] (split_on sep s) = s"
proof (induction s)
  case Nil
  then show ?case by simp
next
  case (Cons c cs)
  then show ?case
    by (cases "split_on sep cs" rule: list.exhaust; cases "tl (split_on sep cs)") auto
qed

lemma split_on_append:
  "sep \<notin> set p \<Longrightarrow> split_on sep (p @ sep # s) = p # split_on sep s"
  by (induction p) auto

lemma split_on_single: "sep \<notin> set p \<Longrightarrow> split_on sep p = [p]"
  by (induction p) auto

lemma split_join:
  "ps \<noteq> [] \<Longrightarrow> list_all (\<lambda>p. sep \<notin> set p) ps \<Longrightarrow> split_on sep (join_with [sep] ps) = ps"
  by (induction "[sep]" ps rule: join_with.induct) (auto simp: split_on_append split_on_single)

lemma join_with_inj:
  assumes "list_all (\<lambda>p. sep \<notin> set p) ps" "list_all (\<lambda>p. sep \<notin> set p) qs"
    and "ps \<noteq> []" "qs \<noteq> []" "join_with [sep] ps = join_with [sep] qs"
  shows "ps = qs"
  using assms split_join by metis

lemma join_with_snoc: "ps \<noteq> [] \<Longrightarrow> join_with sep (ps @ [p]) = join_with sep ps @ sep @ p"
  by (induction sep ps rule: join_with.induct) auto

section \<open>Integers as text\<close>

definition digit_char :: "nat \<Rightarrow> char" where
  "digit_char d = (if d < 10 then char_of (48 + d) else char_of (87 + d))"

text \<open>The value of a digit character in bases up to 16.\<close>

definition digit_val :: "char \<Rightarrow> nat option" where
  "digit_val c = (let n = (of_char c :: nat) in
     if 48 \<le> n \<and> n \<le> 57 then Some (n - 48)
     else if 97 \<le> n \<and> n \<le> 102 then Some (n - 87)
     else if 65 \<le> n \<and> n \<le> 70 then Some (n - 55)
     else None)"

text \<open>The \<open>k\<close> lowest digits of \<open>n\<close> in base \<open>b\<close>, most significant first.\<close>

fun low_digits :: "nat \<Rightarrow> nat \<Rightarrow> nat \<Rightarrow> string" where
  "low_digits b 0 n = []"
| "low_digits b (Suc k) n = low_digits b k (n div b) @ [digit_char (n mod b)]"

text \<open>\<open>str(n)\<close> of a natural number.\<close>

fun show_nat :: "nat \<Rightarrow> string" where
  "show_nat n = (if n < 10 then [digit_char n] else show_nat (n div 10) @ [digit_char (n mod 10)])"

declare show_nat.simps [simp del]

definition show_int :: "int \<Rightarrow> string" where
  "show_int i = (if i < 0 then CHR ''-'' # show_nat (nat (- i)) else show_nat (nat i))"

text \<open>\<open>f"{i:07d}"\<close>: zero padding between the sign and the digits, to a width of \<open>w\<close>.\<close>

definition zero_pad :: "nat \<Rightarrow> string \<Rightarrow> string" where
  "zero_pad w s = replicate (w - length s) (CHR ''0'') @ s"

definition fmt_int :: "nat \<Rightarrow> int \<Rightarrow> string" where
  "fmt_int w i = (if i < 0 then CHR ''-'' # zero_pad (w - 1) (show_nat (nat (- i)))
                  else zero_pad w (show_nat (nat i)))"

text \<open>
  \<open>int(s)\<close> and \<open>int(s, 16)\<close> on an ASCII string: white space on both ends, one sign, in
  base 16 an optional \<open>0x\<close> with one underscore after it, then digits with single
  underscores between them. \<open>None\<close> is \<open>ValueError\<close>.
\<close>

definition is_c_space :: "char \<Rightarrow> bool" where
  "is_c_space c \<longleftrightarrow> (let n = (of_char c :: nat) in (9 \<le> n \<and> n \<le> 13) \<or> n = 32)"

fun digits_value :: "nat \<Rightarrow> nat \<Rightarrow> string \<Rightarrow> nat option" where
  "digits_value b acc [] = Some acc"
| "digits_value b acc (c # cs) =
     (case digit_val c of
        None \<Rightarrow> None
      | Some d \<Rightarrow> if d < b then digits_value b (acc * b + d) cs else None)"

fun drop_underscores :: "string \<Rightarrow> string option" where
  "drop_underscores [] = None"
| "drop_underscores [c] = (if c = CHR ''_'' then None else Some [c])"
| "drop_underscores (c # d # cs) =
     (if c = CHR ''_'' then None
      else if d = CHR ''_'' then map_option (\<lambda>r. c # r) (drop_underscores cs)
      else map_option (\<lambda>r. c # r) (drop_underscores (d # cs)))"

definition drop_prefix16 :: "nat \<Rightarrow> string \<Rightarrow> string" where
  "drop_prefix16 b s =
     (if b = 16 \<and> (starts_with ''0x'' s \<or> starts_with ''0X'' s)
      then (if starts_with ''_'' (drop 2 s) then drop 3 s else drop 2 s) else s)"

definition parse_int :: "nat \<Rightarrow> string \<Rightarrow> int option" where
  "parse_int b s =
     (let t = strip_of is_c_space s;
          neg = starts_with ''-'' t;
          u = (if neg \<or> starts_with ''+'' t then drop 1 t else t)
      in case drop_underscores (drop_prefix16 b u) of
           None \<Rightarrow> None
         | Some ds \<Rightarrow> (case digits_value b 0 ds of
               None \<Rightarrow> None
             | Some n \<Rightarrow> Some (if neg then - int n else int n)))"

lemma digit_val_digit_char: "d < 16 \<Longrightarrow> digit_val (digit_char d) = Some d"
  by (auto simp: digit_val_def digit_char_def Let_def)

lemma of_char_digit_char: "d < 16 \<Longrightarrow>
    (of_char (digit_char d) :: nat) = (if d < 10 then 48 + d else 87 + d)"
  by (auto simp: digit_char_def)

lemma low_digits_length [simp]: "length (low_digits b k n) = k"
  by (induction k arbitrary: n) auto

lemma low_digits_chars: "0 < b \<Longrightarrow> c \<in> set (low_digits b k n) \<Longrightarrow> \<exists>d < b. c = digit_char d"
  by (induction k arbitrary: n) (auto intro: mod_less_divisor)

lemma digits_value_append:
  "digits_value b a (s @ t) = (case digits_value b a s of None \<Rightarrow> None | Some v \<Rightarrow> digits_value b v t)"
  by (induction s arbitrary: a) (auto split: option.splits)

lemma digits_value_low_digits:
  "2 \<le> b \<Longrightarrow> b \<le> 16 \<Longrightarrow> digits_value b a (low_digits b k n) = Some (a * b ^ k + n mod b ^ k)"
proof (induction k arbitrary: n)
  case 0
  then show ?case by simp
next
  case (Suc k)
  have lt: "n mod b < b" using Suc.prems by simp
  have lt16: "n mod b < 16" using lt Suc.prems by linarith
  have mod: "n mod (b * b ^ k) = b * (n div b mod b ^ k) + n mod b"
    by (simp add: mod_mult2_eq)
  have "digits_value b a (low_digits b (Suc k) n)
      = Some ((a * b ^ k + n div b mod b ^ k) * b + n mod b)"
    using Suc lt by (simp add: digits_value_append digit_val_digit_char [OF lt16])
  then show ?case by (simp add: mod algebra_simps)
qed

lemma drop_underscores_id:
  "s \<noteq> [] \<Longrightarrow> CHR ''_'' \<notin> set s \<Longrightarrow> drop_underscores s = Some s"
  by (induction s rule: drop_underscores.induct) auto

lemma digit_char_0: "digit_char 0 = CHR ''0''"
  by code_simp

lemma zero_pad_snoc: "zero_pad (Suc k) (s @ [c]) = zero_pad k s @ [c]"
  by (simp add: zero_pad_def)

lemma zero_pad_show_nat: "0 < k \<Longrightarrow> n < 10 ^ k \<Longrightarrow> zero_pad k (show_nat n) = low_digits 10 k n"
proof (induction k arbitrary: n)
  case 0
  then show ?case by simp
next
  case (Suc k)
  show ?case
  proof (cases "n < 10")
    case True
    have z: "low_digits 10 j 0 = replicate j (CHR ''0'')" for j
      by (induction j) (simp_all add: digit_char_0 replicate_append_same)
    show ?thesis using True by (simp add: show_nat.simps [of n] zero_pad_def z)
  next
    case False
    with Suc.prems have "0 < k" "n div 10 < 10 ^ k" by (cases k; auto)+
    then show ?thesis
      using Suc.IH False by (simp add: show_nat.simps [of n] zero_pad_snoc)
  qed
qed

lemma show_nat_digits: "list_all is_digit (show_nat n)"
proof (induction n rule: show_nat.induct)
  case (1 n)
  have "is_digit (digit_char d)" if "d < 10" for d
    using that by (simp add: is_digit_def digit_char_def)
  then show ?case using 1 by (simp add: show_nat.simps [of n])
qed

lemma show_nat_nonempty [simp]: "show_nat n \<noteq> []"
  by (simp add: show_nat.simps [of n])

lemma show_nat_length: "10 ^ k \<le> n \<Longrightarrow> k < length (show_nat n)"
proof (induction k arbitrary: n)
  case 0
  then show ?case by simp
next
  case (Suc k)
  have "10 * 1 \<le> 10 * (10 :: nat) ^ k" by (intro mult_le_mono2) simp
  then have "\<not> n < 10" using Suc.prems by (simp only: power_Suc)
  moreover have "10 ^ k \<le> n div 10" using Suc.prems by auto
  ultimately show ?case using Suc.IH by (simp add: show_nat.simps [of n])
qed

lemma show_nat_length_le: "0 < k \<Longrightarrow> n < 10 ^ k \<Longrightarrow> length (show_nat n) \<le> k"
proof (induction k arbitrary: n)
  case 0
  then show ?case by simp
next
  case (Suc k)
  show ?case
  proof (cases "n < 10")
    case True
    then show ?thesis by (simp add: show_nat.simps [of n])
  next
    case False
    with Suc.prems have "0 < k" "n div 10 < 10 ^ k" by (cases k; auto)+
    then show ?thesis using Suc.IH False by (simp add: show_nat.simps [of n])
  qed
qed

section \<open>Floating point\<close>

text \<open>
  A Python \<open>float\<close>: not a number, the two infinities, or a finite value (every finite
  double is a rational; the two zeros compare equal and are one value here).
  \<open>float_of_int\<close> is \<open>float(i)\<close>: rounding half to even at 53 significant bits, \<open>None\<close>
  where it raises \<open>OverflowError\<close>.
\<close>

datatype pyfloat = NaN | PosInf | NegInf | Fin rat

fun float_lt0 :: "pyfloat \<Rightarrow> bool" where
  "float_lt0 NaN = False"
| "float_lt0 PosInf = False"
| "float_lt0 NegInf = True"
| "float_lt0 (Fin r) = (r < 0)"

fun float_le0 :: "pyfloat \<Rightarrow> bool" where
  "float_le0 NaN = False"
| "float_le0 PosInf = False"
| "float_le0 NegInf = True"
| "float_le0 (Fin r) = (r \<le> 0)"

fun bit_length :: "nat \<Rightarrow> nat" where
  "bit_length n = (if n = 0 then 0 else Suc (bit_length (n div 2)))"

declare bit_length.simps [simp del]

definition round_half_even :: "nat \<Rightarrow> nat \<Rightarrow> nat" where
  "round_half_even n m =
     (let q = n div m; r = n mod m
      in if m < 2 * r \<or> (2 * r = m \<and> odd q) then q + 1 else q)"

definition float_of_nat :: "nat \<Rightarrow> nat" where
  "float_of_nat n =
     (let e = bit_length n - 53 in round_half_even n (2 ^ e) * 2 ^ e)"

definition float_of_int :: "int \<Rightarrow> pyfloat option" where
  "float_of_int i =
     (let m = float_of_nat (nat \<bar>i\<bar>)
      in if 2 ^ 1024 \<le> m then None
         else Some (Fin (if i < 0 then - of_nat m else of_nat m)))"

lemma bit_length_bound: "n < 2 ^ k \<Longrightarrow> bit_length n \<le> k"
proof (induction k arbitrary: n)
  case 0
  then show ?case by (simp add: bit_length.simps)
next
  case (Suc k)
  then have "n div 2 < 2 ^ k" by auto
  with Suc.IH have "bit_length (n div 2) \<le> k" by blast
  then show ?case by (subst bit_length.simps) simp
qed

lemma round_half_even_1 [simp]: "round_half_even n 1 = n" "round_half_even n (Suc 0) = n"
  by (simp_all add: round_half_even_def)

lemma float_of_nat_exact: "n < 2 ^ 53 \<Longrightarrow> float_of_nat n = n"
  using bit_length_bound [of n 53] by (simp add: float_of_nat_def)

lemma float_of_int_exact: "\<bar>i\<bar> < 2 ^ 53 \<Longrightarrow> float_of_int i = Some (Fin (of_int i))"
proof -
  assume a: "\<bar>i\<bar> < 2 ^ 53"
  then have n: "nat \<bar>i\<bar> < 2 ^ 53" by (simp add: nat_less_iff)
  have "nat \<bar>i\<bar> < 2 ^ 1024" using n by (rule less_le_trans) simp
  then have ge: "\<not> (2 ^ 1024 \<le> nat \<bar>i\<bar>)" by linarith
  have "of_nat (nat \<bar>i\<bar>) = (of_int \<bar>i\<bar> :: rat)" by simp
  then show ?thesis using ge unfolding float_of_int_def Let_def float_of_nat_exact [OF n] by auto
qed

end
