(* ===== verification/Py_Value.thy ===== *)
theory Py_Value
  imports Py_Prelude "HOL-Library.AList"
begin

text \<open>
  The values of the standard library and of the language that the service inspects at run
  time: \<open>uuid.UUID\<close> with its text forms, the dynamically typed values a validator
  receives (\<open>value: object\<close>), truth testing, \<open>int(value)\<close> and dictionaries with
  string keys in insertion order.
\<close>

section \<open>UUIDs\<close>

text \<open>
  A \<open>UUID\<close> is its 128-bit integer. \<open>parse_uuid\<close> is the constructor on text, as the
  standard library has it: the URN prefixes and the hyphens are deleted, braces are
  stripped, exactly 32 characters must remain and \<open>int(hex, 16)\<close> must read them;
  \<open>None\<close> is \<open>ValueError\<close>. \<open>show_uuid\<close> is \<open>str\<close> of a UUID.
\<close>

type_synonym uuid = "128 word"

definition show_uuid :: "uuid \<Rightarrow> string" where
  "show_uuid u = (let h = low_digits 16 32 (unat u) in
     take 8 h @ ''-'' @ take 4 (drop 8 h) @ ''-'' @ take 4 (drop 12 h) @ ''-''
       @ take 4 (drop 16 h) @ ''-'' @ drop 20 h)"

definition is_brace :: "char \<Rightarrow> bool" where
  "is_brace c \<longleftrightarrow> c = CHR ''{'' \<or> c = CHR ''}''"

definition parse_uuid :: "string \<Rightarrow> uuid option" where
  "parse_uuid s =
     (let h = py_replace ''uuid:'' [] (py_replace ''urn:'' [] s);
          h' = py_replace ''-'' [] (strip_of is_brace h)
      in if length h' \<noteq> 32 then None
         else (case parse_int 16 h' of
                 None \<Rightarrow> None
               | Some i \<Rightarrow> if 0 \<le> i \<and> i < 2 ^ 128 then Some (word_of_int i) else None))"

definition is_hex_char :: "char \<Rightarrow> bool" where
  "is_hex_char c \<longleftrightarrow> (let n = (of_char c :: nat) in (48 \<le> n \<and> n \<le> 57) \<or> (97 \<le> n \<and> n \<le> 102))"

lemma is_hex_char_digit: "d < 16 \<Longrightarrow> is_hex_char (digit_char d)"
  by (auto simp: is_hex_char_def of_char_digit_char Let_def)

lemma low_digits_hex: "list_all is_hex_char (low_digits 16 k n)"
  using low_digits_chars [of 16] is_hex_char_digit by (fastforce simp: list_all_iff)

lemma hex_char_not:
  assumes "is_hex_char c"
  shows "c \<noteq> CHR ''u''" "c \<noteq> CHR ''-''" "c \<noteq> CHR ''_''" "c \<noteq> CHR ''x''" "c \<noteq> CHR ''X''"
    "c \<noteq> CHR ''+''" "\<not> is_brace c" "\<not> is_c_space c" "\<not> is_space c" "\<not> is_lower_letter c \<or> \<not> is_upper_letter c"
  using assms
  by (auto simp: is_hex_char_def is_brace_def is_c_space_def is_space_def is_lower_letter_def
      is_upper_letter_def Let_def)

lemma list_all_takeI: "list_all P xs \<Longrightarrow> list_all P (take n xs)"
  by (auto simp: list_all_iff dest: in_set_takeD)

lemma list_all_dropI: "list_all P xs \<Longrightarrow> list_all P (drop n xs)"
  by (auto simp: list_all_iff dest: in_set_dropD)

lemma show_uuid_chars: "list_all (\<lambda>c. is_hex_char c \<or> c = CHR ''-'') (show_uuid u)"
  using low_digits_hex [of 32 "unat u"]
  by (auto simp: show_uuid_def Let_def list_all_iff dest: in_set_takeD in_set_dropD)

lemma show_uuid_length [simp]: "length (show_uuid u) = 36"
  by (simp add: show_uuid_def Let_def)

lemma take_drop_blocks:
  "length h = 32 \<Longrightarrow>
   take 8 h @ take 4 (drop 8 h) @ take 4 (drop 12 h) @ take 4 (drop 16 h) @ drop 20 h = h"
proof -
  have "drop 16 h = take 4 (drop 16 h) @ drop 20 h"
    using append_take_drop_id [of 4 "drop 16 h"] by simp
  moreover have "drop 12 h = take 4 (drop 12 h) @ drop 16 h"
    using append_take_drop_id [of 4 "drop 12 h"] by simp
  moreover have "drop 8 h = take 4 (drop 8 h) @ drop 12 h"
    using append_take_drop_id [of 4 "drop 8 h"] by simp
  ultimately show ?thesis using append_take_drop_id [of 8 h] by metis
qed

lemma filter_id: "list_all P xs \<Longrightarrow> filter P xs = xs"
  by (induction xs) auto

lemma show_uuid_no_hyphens:
  "filter (\<lambda>c. c \<noteq> CHR ''-'') (show_uuid u) = low_digits 16 32 (unat u)"
proof -
  let ?h = "low_digits 16 32 (unat u)"
  have "list_all (\<lambda>c. c \<noteq> CHR ''-'') ?h"
    using low_digits_hex [of 32 "unat u"] hex_char_not(2) by (auto simp: list_all_iff)
  then have "filter (\<lambda>c. c \<noteq> CHR ''-'') (show_uuid u)
     = take 8 ?h @ take 4 (drop 8 ?h) @ take 4 (drop 12 ?h) @ take 4 (drop 16 ?h) @ drop 20 ?h"
    by (simp add: show_uuid_def Let_def filter_id list_all_takeI list_all_dropI)
  then show ?thesis by (simp add: take_drop_blocks)
qed

lemma parse_int_hex:
  assumes "s \<noteq> []" "list_all is_hex_char s" "digits_value 16 0 s = Some n"
  shows "parse_int 16 s = Some (int n)"
proof -
  have strip: "strip_of is_c_space s = s"
    by (rule strip_of_none) (use assms(2) hex_char_not(8) in \<open>auto simp: list_all_iff\<close>)
  obtain c cs where s: "s = c # cs" using assms(1) by (cases s) auto
  have c: "is_hex_char c" using assms(2) s by simp
  have sign: "\<not> starts_with ''-'' s" "\<not> starts_with ''+'' s"
    using hex_char_not(2,6) [OF c] by (simp_all add: s starts_with_def)
  have "\<not> starts_with ''0x'' s \<and> \<not> starts_with ''0X'' s"
    using assms(2) hex_char_not(4,5) by (cases cs) (auto simp: s starts_with_def)
  then have prefix: "drop_prefix16 16 s = s" by (simp add: drop_prefix16_def)
  have "CHR ''_'' \<notin> set s" using assms(2) hex_char_not(3) by (auto simp: list_all_iff)
  then have "drop_underscores s = Some s" using assms(1) by (simp add: drop_underscores_id)
  then show ?thesis
    using sign prefix assms(3) by (simp add: parse_int_def strip Let_def)
qed

theorem parse_show_uuid: "parse_uuid (show_uuid u) = Some u"
proof -
  let ?s = "show_uuid u" and ?h = "low_digits 16 32 (unat u)"
  have nu: "CHR ''u'' \<notin> set ?s"
    using show_uuid_chars [of u] hex_char_not(1) by (auto simp: list_all_iff)
  have r: "py_replace ''uuid:'' [] (py_replace ''urn:'' [] ?s) = ?s"
    using nu by (simp add: py_replace_absent)
  have b: "strip_of is_brace ?s = ?s"
    by (rule strip_of_none)
      (use show_uuid_chars [of u] hex_char_not(7) in \<open>auto simp: list_all_iff is_brace_def\<close>)
  have h: "py_replace ''-'' [] ?s = ?h"
    by (simp add: py_replace_delete_char show_uuid_no_hyphens)
  have "unat u < 2 ^ LENGTH(128)" by (rule unsigned_less)
  then have lt: "unat u < 2 ^ 128" by simp
  have "digits_value 16 0 ?h = Some (unat u)"
    using lt digits_value_low_digits [of 16 0 32 "unat u"] by (simp del: low_digits.simps)
  then have p: "parse_int 16 ?h = Some (int (unat u))"
    by (intro parse_int_hex low_digits_hex) (auto simp flip: length_greater_0_conv simp del: low_digits.simps)
  have lti: "int (unat u) < 2 ^ 128" using lt by (metis of_nat_less_iff of_nat_numeral of_nat_power)
  show ?thesis unfolding parse_uuid_def Let_def r b h
    using p lti by (simp del: low_digits.simps)
qed

lemma show_uuid_inj: "show_uuid u = show_uuid v \<longleftrightarrow> u = v"
  using parse_show_uuid by (metis option.inject)

lemma strip_show_uuid [simp]: "strip (show_uuid u) = show_uuid u"
  by (rule strip_none)
    (use show_uuid_chars [of u] hex_char_not(9) in \<open>auto simp: list_all_iff is_space_def\<close>)

section \<open>Dynamically typed values\<close>

text \<open>
  What an argument annotated \<open>object\<close> can be at run time. \<open>PList\<close> is a list or a tuple,
  \<open>PDict\<close> a dictionary in insertion order and \<open>PObject\<close> an instance of any other class,
  known by the name of its class.
\<close>

datatype pyval =
    PNone
  | PBool bool
  | PInt int
  | PFloat pyfloat
  | PStr string
  | PUuid uuid
  | PList "pyval list"
  | PDict "(pyval \<times> pyval) list"
  | PObject string

text \<open>Truth testing: \<open>None\<close>, \<open>False\<close>, zero and empty containers are false.\<close>

fun truthy :: "pyval \<Rightarrow> bool" where
  "truthy PNone = False"
| "truthy (PBool b) = b"
| "truthy (PInt i) = (i \<noteq> 0)"
| "truthy (PFloat f) = (f \<noteq> Fin 0)"
| "truthy (PStr s) = (s \<noteq> [])"
| "truthy (PUuid u) = True"
| "truthy (PList xs) = (xs \<noteq> [])"
| "truthy (PDict kvs) = (kvs \<noteq> [])"
| "truthy (PObject c) = True"

text \<open>\<open>int(value)\<close>; the left half names the class of the exception it raises.\<close>

definition trunc_rat :: "rat \<Rightarrow> int" where
  "trunc_rat r = (if r < 0 then - \<lfloor>- r\<rfloor> else \<lfloor>r\<rfloor>)"

fun py_int :: "pyval \<Rightarrow> string + int" where
  "py_int (PBool b) = Inr (if b then 1 else 0)"
| "py_int (PInt i) = Inr i"
| "py_int (PFloat NaN) = Inl ''ValueError''"
| "py_int (PFloat PosInf) = Inl ''OverflowError''"
| "py_int (PFloat NegInf) = Inl ''OverflowError''"
| "py_int (PFloat (Fin r)) = Inr (trunc_rat r)"
| "py_int (PStr s) = (case parse_int 10 s of None \<Rightarrow> Inl ''ValueError'' | Some i \<Rightarrow> Inr i)"
| "py_int (PUuid u) = Inr (uint u)"
| "py_int PNone = Inl ''TypeError''"
| "py_int (PList xs) = Inl ''TypeError''"
| "py_int (PDict kvs) = Inl ''TypeError''"
| "py_int (PObject c) = Inl ''TypeError''"

section \<open>Dictionaries with string keys\<close>

text \<open>
  A \<open>dict\<close> in insertion order: reading is \<open>map_of\<close>, \<open>d[k] = v\<close> replaces the value in
  place or appends the key (\<open>AList.update\<close>).
\<close>

type_synonym 'v dict = "(string \<times> 'v) list"

definition dict_get :: "string \<Rightarrow> 'v \<Rightarrow> 'v dict \<Rightarrow> 'v" where
  "dict_get k d m = (case map_of m k of None \<Rightarrow> d | Some v \<Rightarrow> v)"

abbreviation dict_set :: "string \<Rightarrow> 'v \<Rightarrow> 'v dict \<Rightarrow> 'v dict" where
  "dict_set \<equiv> AList.update"

lemma map_of_dict_set [simp]: "map_of (dict_set k v m) = (map_of m)(k \<mapsto> v)"
  by (rule update_conv')

lemma dict_get_set: "dict_get k d (dict_set k' v m) = (if k = k' then v else dict_get k d m)"
  by (simp add: dict_get_def)

lemma distinct_keys_dict_set: "distinct (map fst m) \<Longrightarrow> distinct (map fst (dict_set k v m))"
  by (rule distinct_update)

section \<open>JSON\<close>

text \<open>
  What \<open>json.loads\<close> raises: \<open>JSONDecodeError\<close>, another \<open>ValueError\<close> (an integer of too
  many digits, bytes that are no text), or an exception of another class. The parser itself
  is an argument wherever it is used.
\<close>

datatype json_error = JSONDecodeError | JsonValueError | OtherJsonError string

end
