(* ===== verification/App_Errors.thy ===== *)
theory App_Errors
  imports Py_Value
begin

text \<open>
  The error hierarchy: the shared base classes (\<open>modules/shared/domain/errors.py\<close>) and
  the classes each module derives from them. A class is a constructor; its class attributes
  \<open>status_code\<close>, \<open>title\<close> and \<open>error_type\<close> are resolved the way attribute lookup
  does, the class's own value first and the base class's otherwise. The text of a message
  (\<open>detail\<close>) is not part of an exception value here; the \<open>extensions\<close> are.
\<close>

section \<open>Shared base classes\<close>

record error_attrs =
  attr_status :: int
  attr_title :: string
  attr_type :: string

datatype base_error =
    ApplicationError
  | InvariantViolationError
  | InvalidStateTransitionError
  | EntityNotFoundError
  | ConflictError
  | UnauthorizedError
  | ForbiddenError

fun base_attrs :: "base_error \<Rightarrow> error_attrs" where
  "base_attrs ApplicationError =
     \<lparr>attr_status = 500, attr_title = ''Internal Server Error'', attr_type = ''internal-server-error''\<rparr>"
| "base_attrs InvariantViolationError =
     \<lparr>attr_status = 422, attr_title = ''Invariant Violation'', attr_type = ''invariant-violation''\<rparr>"
| "base_attrs InvalidStateTransitionError =
     \<lparr>attr_status = 409, attr_title = ''Invalid State Transition'', attr_type = ''invalid-state-transition''\<rparr>"
| "base_attrs EntityNotFoundError =
     \<lparr>attr_status = 404, attr_title = ''Resource Not Found'', attr_type = ''resource-not-found''\<rparr>"
| "base_attrs ConflictError =
     \<lparr>attr_status = 409, attr_title = ''Conflict'', attr_type = ''conflict''\<rparr>"
| "base_attrs UnauthorizedError =
     \<lparr>attr_status = 401, attr_title = ''Unauthorized'', attr_type = ''unauthorized''\<rparr>"
| "base_attrs ForbiddenError =
     \<lparr>attr_status = 403, attr_title = ''Forbidden'', attr_type = ''forbidden''\<rparr>"

text \<open>A subclass that overrides \<open>error_type\<close> and \<open>title\<close>, or \<open>error_type\<close> only.\<close>

definition with_type_title :: "string \<Rightarrow> string \<Rightarrow> error_attrs \<Rightarrow> error_attrs" where
  "with_type_title ty ti b = b\<lparr>attr_type := ty, attr_title := ti\<rparr>"

definition with_type :: "string \<Rightarrow> error_attrs \<Rightarrow> error_attrs" where
  "with_type ty b = b\<lparr>attr_type := ty\<rparr>"

section \<open>Shipment\<close>

datatype shipment_error =
    InvalidShipmentIdError
  | InvalidWaybillNumberError
  | InvalidCargoManifestError
  | InvalidShipmentRouteError
  | ShipmentNotFoundError
  | RouteNotModifiableError
  | ManifestNotFinalizableError

fun shipment_attrs :: "shipment_error \<Rightarrow> error_attrs" where
  "shipment_attrs InvalidShipmentIdError =
     with_type_title ''invalid-shipment-id'' ''Invalid Shipment Identifier''
       (base_attrs InvariantViolationError)"
| "shipment_attrs InvalidWaybillNumberError =
     with_type_title ''invalid-waybill-number'' ''Invalid Waybill Number''
       (base_attrs InvariantViolationError)"
| "shipment_attrs InvalidCargoManifestError =
     with_type_title ''invalid-cargo-manifest'' ''Invalid Cargo Manifest''
       (base_attrs InvariantViolationError)"
| "shipment_attrs InvalidShipmentRouteError =
     with_type_title ''invalid-shipment-route'' ''Invalid Shipment Route''
       (base_attrs InvariantViolationError)"
| "shipment_attrs ShipmentNotFoundError =
     with_type_title ''shipment-not-found'' ''Shipment Not Found'' (base_attrs EntityNotFoundError)"
| "shipment_attrs RouteNotModifiableError =
     with_type_title ''route-not-modifiable'' ''Route Not Modifiable''
       (base_attrs InvalidStateTransitionError)"
| "shipment_attrs ManifestNotFinalizableError =
     with_type_title ''manifest-not-finalizable'' ''Manifest Not Finalizable''
       (base_attrs InvalidStateTransitionError)"

section \<open>Customs Clearance\<close>

datatype customs_error =
    InvalidCaseIdError
  | InvalidShipmentReferenceError
  | InvalidMoneyError
  | CurrencyMismatchError
  | ClearanceCaseNotFoundError
  | InvalidDocumentReferenceError
  | DocumentsNotAttachableError
  | DocumentAlreadyAttachedError
  | DocumentNotFoundError
  | DocumentNotVerifiableError
  | DocumentAlreadyVerifiedError
  | InvalidInspectorError

fun customs_attrs :: "customs_error \<Rightarrow> error_attrs" where
  "customs_attrs InvalidCaseIdError =
     with_type_title ''invalid-case-id'' ''Invalid Case Identifier''
       (base_attrs InvariantViolationError)"
| "customs_attrs InvalidShipmentReferenceError =
     with_type_title ''invalid-shipment-reference'' ''Invalid Shipment Reference''
       (base_attrs InvariantViolationError)"
| "customs_attrs InvalidMoneyError =
     with_type_title ''invalid-money'' ''Invalid Monetary Amount''
       (base_attrs InvariantViolationError)"
| "customs_attrs CurrencyMismatchError =
     with_type_title ''currency-mismatch'' ''Currency Mismatch''
       (base_attrs InvariantViolationError)"
| "customs_attrs ClearanceCaseNotFoundError =
     with_type_title ''clearance-case-not-found'' ''Clearance Case Not Found''
       (base_attrs EntityNotFoundError)"
| "customs_attrs InvalidDocumentReferenceError =
     with_type_title ''invalid-document-reference'' ''Invalid Document Reference''
       (base_attrs InvariantViolationError)"
| "customs_attrs DocumentsNotAttachableError =
     with_type_title ''documents-not-attachable'' ''Documents Not Attachable''
       (base_attrs InvalidStateTransitionError)"
| "customs_attrs DocumentAlreadyAttachedError =
     with_type_title ''document-already-attached'' ''Document Already Attached''
       (base_attrs ConflictError)"
| "customs_attrs DocumentNotFoundError =
     with_type_title ''document-not-found'' ''Document Not Found'' (base_attrs EntityNotFoundError)"
| "customs_attrs DocumentNotVerifiableError =
     with_type_title ''document-not-verifiable'' ''Document Not Verifiable''
       (base_attrs InvalidStateTransitionError)"
| "customs_attrs DocumentAlreadyVerifiedError =
     with_type_title ''document-already-verified'' ''Document Already Verified''
       (base_attrs ConflictError)"
| "customs_attrs InvalidInspectorError =
     with_type_title ''invalid-inspector'' ''Invalid Inspector'' (base_attrs InvariantViolationError)"

section \<open>Files\<close>

datatype files_error =
    InvalidFileIdError
  | InvalidStorageLocationError
  | InvalidFileReferenceError
  | InvalidStoredFileError
  | InvalidUploadPayloadError
  | UnknownStorageDiskError
  | StoredFileNotFoundError
  | FileAlreadyStoredError
  | FileTooLargeError
  | StorageBackendUnavailableError

fun files_attrs :: "files_error \<Rightarrow> error_attrs" where
  "files_attrs InvalidFileIdError = with_type ''invalid-file-id'' (base_attrs InvariantViolationError)"
| "files_attrs InvalidStorageLocationError =
     with_type ''invalid-storage-location'' (base_attrs InvariantViolationError)"
| "files_attrs InvalidFileReferenceError =
     with_type ''invalid-file-reference'' (base_attrs InvariantViolationError)"
| "files_attrs InvalidStoredFileError =
     with_type ''invalid-stored-file'' (base_attrs InvariantViolationError)"
| "files_attrs InvalidUploadPayloadError =
     with_type ''invalid-upload-payload'' (base_attrs InvariantViolationError)"
| "files_attrs UnknownStorageDiskError =
     with_type ''unknown-storage-disk'' (base_attrs InvariantViolationError)"
| "files_attrs StoredFileNotFoundError =
     with_type ''stored-file-not-found'' (base_attrs EntityNotFoundError)"
| "files_attrs FileAlreadyStoredError = with_type ''file-already-stored'' (base_attrs ConflictError)"
| "files_attrs FileTooLargeError =
     (with_type_title ''file-too-large'' ''Payload Too Large'' (base_attrs ApplicationError))
       \<lparr>attr_status := 413\<rparr>"
| "files_attrs StorageBackendUnavailableError =
     (with_type_title ''storage-backend-unavailable'' ''Storage Backend Unavailable''
       (base_attrs ApplicationError))\<lparr>attr_status := 503\<rparr>"

section \<open>Message bus\<close>

datatype bus_error =
    MessageBusError
  | UnknownMessageDestinationError
  | UnknownModuleError
  | MessagePublicationError
  | MessageHandlingError

definition message_bus_attrs :: error_attrs where
  "message_bus_attrs =
     (with_type_title ''message-bus-error'' ''Message Bus Error'' (base_attrs ApplicationError))
       \<lparr>attr_status := 500\<rparr>"

fun bus_attrs :: "bus_error \<Rightarrow> error_attrs" where
  "bus_attrs MessageBusError = message_bus_attrs"
| "bus_attrs UnknownMessageDestinationError =
     with_type_title ''unknown-message-destination'' ''Unknown Message Destination''
       message_bus_attrs"
| "bus_attrs UnknownModuleError =
     with_type_title ''unknown-module'' ''Unknown Module'' message_bus_attrs"
| "bus_attrs MessagePublicationError =
     with_type_title ''message-publication-failed'' ''Message Publication Failed''
       message_bus_attrs"
| "bus_attrs MessageHandlingError =
     with_type_title ''message-handling-failed'' ''Message Handling Failed'' message_bus_attrs"

section \<open>Exceptions\<close>

datatype err_class =
    Base base_error
  | Shipment shipment_error
  | Customs customs_error
  | Files files_error
  | Bus bus_error

fun attrs_of :: "err_class \<Rightarrow> error_attrs" where
  "attrs_of (Base b) = base_attrs b"
| "attrs_of (Shipment e) = shipment_attrs e"
| "attrs_of (Customs e) = customs_attrs e"
| "attrs_of (Files e) = files_attrs e"
| "attrs_of (Bus e) = bus_attrs e"

text \<open>
  A raised exception: an application error with its extensions, the aggregate of handler
  failures the inbox dispatcher raises, a request that failed validation (its \<open>errors()\<close>),
  an HTTP exception of the framework (status and detail), an integrity error of the database
  (the text of the driver's error), or any other exception by the name of its class.
\<close>

datatype exc =
    AppError err_class "pyval dict"
  | HandlingError "exc list"
  | RequestInvalid "pyval dict list"
  | HttpError int "string option"
  | IntegrityError string
  | PyError string

abbreviation shipment_exc :: "shipment_error \<Rightarrow> exc" where
  "shipment_exc e \<equiv> AppError (Shipment e) []"

abbreviation customs_exc :: "customs_error \<Rightarrow> exc" where
  "customs_exc e \<equiv> AppError (Customs e) []"

abbreviation files_exc :: "files_error \<Rightarrow> exc" where
  "files_exc e \<equiv> AppError (Files e) []"

abbreviation bus_exc :: "bus_error \<Rightarrow> exc" where
  "bus_exc e \<equiv> AppError (Bus e) []"

type_synonym 'a res = "exc + 'a"

text \<open>The class of an application error, \<open>None\<close> for every other exception.\<close>

fun app_class :: "exc \<Rightarrow> err_class option" where
  "app_class (AppError c ext) = Some c"
| "app_class (HandlingError fs) = Some (Bus MessageHandlingError)"
| "app_class _ = None"

fun extensions_of :: "exc \<Rightarrow> pyval dict" where
  "extensions_of (AppError c ext) = ext"
| "extensions_of _ = []"

text \<open>Every class, to evaluate statements about all of them.\<close>

definition all_classes :: "err_class list" where
  "all_classes =
     map Base [ApplicationError, InvariantViolationError, InvalidStateTransitionError,
       EntityNotFoundError, ConflictError, UnauthorizedError, ForbiddenError]
   @ map Shipment [InvalidShipmentIdError, InvalidWaybillNumberError, InvalidCargoManifestError,
       InvalidShipmentRouteError, ShipmentNotFoundError, RouteNotModifiableError,
       ManifestNotFinalizableError]
   @ map Customs [InvalidCaseIdError, InvalidShipmentReferenceError, InvalidMoneyError,
       CurrencyMismatchError, ClearanceCaseNotFoundError, InvalidDocumentReferenceError,
       DocumentsNotAttachableError, DocumentAlreadyAttachedError, DocumentNotFoundError,
       DocumentNotVerifiableError, DocumentAlreadyVerifiedError, InvalidInspectorError]
   @ map Files [InvalidFileIdError, InvalidStorageLocationError, InvalidFileReferenceError,
       InvalidStoredFileError, InvalidUploadPayloadError, UnknownStorageDiskError,
       StoredFileNotFoundError, FileAlreadyStoredError, FileTooLargeError,
       StorageBackendUnavailableError]
   @ map Bus [MessageBusError, UnknownMessageDestinationError, UnknownModuleError,
       MessagePublicationError, MessageHandlingError]"

lemma all_classes_complete: "c \<in> set all_classes"
proof (cases c)
  case (Base b)
  then show ?thesis by (cases b) (simp_all add: all_classes_def)
next
  case (Shipment e)
  then show ?thesis by (cases e) (simp_all add: all_classes_def)
next
  case (Customs e)
  then show ?thesis by (cases e) (simp_all add: all_classes_def)
next
  case (Files e)
  then show ?thesis by (cases e) (simp_all add: all_classes_def)
next
  case (Bus e)
  then show ?thesis by (cases e) (simp_all add: all_classes_def)
qed

lemma attr_types_distinct: "distinct (map (attr_type \<circ> attrs_of) all_classes)"
  by code_simp

lemma attr_type_inj: "attr_type (attrs_of c) = attr_type (attrs_of d) \<longleftrightarrow> c = d"
proof
  assume "attr_type (attrs_of c) = attr_type (attrs_of d)"
  moreover have "inj_on (attr_type \<circ> attrs_of) (set all_classes)"
    using attr_types_distinct by (simp add: distinct_map)
  ultimately show "c = d"
    using all_classes_complete by (auto simp: inj_on_def)
qed simp

lemma shipment_status: "attr_status (shipment_attrs e) \<in> {404, 409, 422}"
  by (cases e) (simp_all add: with_type_title_def)

lemma customs_status: "attr_status (customs_attrs e) \<in> {404, 409, 422}"
  by (cases e) (simp_all add: with_type_title_def)

lemma files_status: "attr_status (files_attrs e) \<in> {404, 409, 413, 422, 503}"
  by (cases e) (simp_all add: with_type_title_def with_type_def)

lemma bus_status: "attr_status (bus_attrs e) = 500"
  by (cases e) (simp_all add: with_type_title_def message_bus_attrs_def)

end
