(* ===== verification/Http_Problem.thy ===== *)
theory Http_Problem
  imports App_Errors
begin

text \<open>
  The HTTP side of an error: the RFC 9457 problem document
  (\<open>modules/shared/http/exceptions/problem_details.py\<close>), the global exception handlers
  (\<open>handlers.py\<close>) with the dispatch that \<open>register_exception_handlers\<close> sets up, and
  the hypermedia link of \<open>modules/shared/http/hateoas.py\<close>.
\<close>

section \<open>Problem documents\<close>

definition PROBLEM_CONTENT_TYPE :: string where
  "PROBLEM_CONTENT_TYPE = ''application/problem+json''"

definition PROBLEM_TYPE_BASE_URI :: string where
  "PROBLEM_TYPE_BASE_URI = ''https://trade-logistics.local/problems''"

record problem_details =
  pd_type :: string
  pd_title :: string
  pd_status :: int
  pd_detail :: "string option"
  pd_instance :: "string option"
  pd_extra :: "pyval dict"

definition build_problem_type_uri :: "string \<Rightarrow> string" where
  "build_problem_type_uri error_type = PROBLEM_TYPE_BASE_URI @ ''/'' @ error_type"

text \<open>
  The extensions are spread as keyword arguments beside the five members, so an extension
  under the name of a member is a duplicate keyword: \<open>TypeError\<close>.
\<close>

definition member_names :: "string list" where
  "member_names = [''type'', ''title'', ''status'', ''detail'', ''instance'']"

definition build_problem_details ::
  "int \<Rightarrow> string \<Rightarrow> string option \<Rightarrow> string option \<Rightarrow> string option \<Rightarrow> pyval dict \<Rightarrow> problem_details res" where
  "build_problem_details status title detail error_type inst extensions =
     (if list_ex (\<lambda>(k, v). k \<in> set member_names) extensions then Inl (PyError ''TypeError'')
      else Inr \<lparr>pd_type = (case error_type of
                     Some t \<Rightarrow> if t = [] then ''about:blank'' else build_problem_type_uri t
                   | None \<Rightarrow> ''about:blank''),
                pd_title = title, pd_status = status, pd_detail = detail, pd_instance = inst,
                pd_extra = extensions\<rparr>)"

text \<open>\<open>model_dump(exclude_none=True)\<close>.\<close>

definition dump_opt :: "string \<Rightarrow> string option \<Rightarrow> pyval dict" where
  "dump_opt k v = (case v of None \<Rightarrow> [] | Some s \<Rightarrow> [(k, PStr s)])"

definition dump_exclude_none :: "problem_details \<Rightarrow> pyval dict" where
  "dump_exclude_none p =
     [(''type'', PStr (pd_type p)), (''title'', PStr (pd_title p)), (''status'', PInt (pd_status p))]
     @ dump_opt ''detail'' (pd_detail p) @ dump_opt ''instance'' (pd_instance p)
     @ filter (\<lambda>(k, v). v \<noteq> PNone) (pd_extra p)"

section \<open>Exception handlers\<close>

record http_response =
  status_code :: int
  media_type :: string
  content :: "pyval dict"

definition problem_response :: "problem_details \<Rightarrow> int \<Rightarrow> http_response" where
  "problem_response problem status =
     \<lparr>status_code = status, media_type = PROBLEM_CONTENT_TYPE, content = dump_exclude_none problem\<rparr>"

text \<open>
  Each handler takes the request's path (\<open>request.url.path\<close>) and the exception;
  \<open>detail\<close> is the exception's message.
\<close>

definition application_error_handler ::
  "string \<Rightarrow> err_class \<Rightarrow> string \<Rightarrow> pyval dict \<Rightarrow> http_response res" where
  "application_error_handler path c detail extensions =
     (let a = attrs_of c in
      bindE (build_problem_details (attr_status a) (attr_title a) (Some detail)
               (Some (attr_type a)) (Some path) extensions)
        (\<lambda>problem. Inr (problem_response problem (attr_status a))))"

definition validation_entry :: "pyval dict \<Rightarrow> pyval" where
  "validation_entry error =
     PDict [(PStr ''location'', dict_get ''loc'' (PList []) error),
            (PStr ''message'', dict_get ''msg'' (PStr []) error),
            (PStr ''type'', dict_get ''type'' (PStr []) error)]"

definition validation_error_handler :: "string \<Rightarrow> pyval dict list \<Rightarrow> http_response res" where
  "validation_error_handler path errors =
     bindE (build_problem_details 422 ''Request Validation Failed''
              (Some ''The request payload did not satisfy the expected contract.'')
              (Some ''request-validation-failed'') (Some path)
              [(''errors'', PList (map validation_entry errors))])
       (\<lambda>problem. Inr (problem_response problem 422))"

text \<open>
  \<open>phrase\<close> is \<open>HTTPStatus(code).phrase\<close>, \<open>None\<close> where the enumeration has no such
  code (\<open>ValueError\<close>): the table differs between versions of the standard library.
\<close>

definition http_exception_handler ::
  "(int \<Rightarrow> string option) \<Rightarrow> string \<Rightarrow> int \<Rightarrow> string option \<Rightarrow> http_response res" where
  "http_exception_handler phrase path status detail =
     (let title = (case phrase status of Some t \<Rightarrow> t | None \<Rightarrow> ''HTTP Error'') in
      bindE (build_problem_details status title
               (case detail of Some d \<Rightarrow> if d = [] then None else Some d | None \<Rightarrow> None)
               (Some (py_replace '' '' ''-'' (lower title))) (Some path) [])
        (\<lambda>problem. Inr (problem_response problem status)))"

definition unhandled_exception_handler :: "string \<Rightarrow> http_response res" where
  "unhandled_exception_handler path =
     bindE (build_problem_details 500 ''Internal Server Error''
              (Some ''An unexpected error occurred while processing the request.'')
              (Some ''internal-server-error'') (Some path) [])
       (\<lambda>problem. Inr (problem_response problem 500))"

text \<open>
  \<open>register_exception_handlers\<close>: the framework picks the handler of the nearest class in
  the exception's method resolution order, so an application error of any class goes to the
  first, and what no other entry matches goes to the last.
\<close>

fun handle_exception ::
  "(int \<Rightarrow> string option) \<Rightarrow> string \<Rightarrow> string \<Rightarrow> exc \<Rightarrow> http_response res" where
  "handle_exception phrase path detail (AppError c ext) = application_error_handler path c detail ext"
| "handle_exception phrase path detail (HandlingError fs) =
     application_error_handler path (Bus MessageHandlingError) detail []"
| "handle_exception phrase path detail (RequestInvalid errors) = validation_error_handler path errors"
| "handle_exception phrase path detail (HttpError status d) = http_exception_handler phrase path status d"
| "handle_exception phrase path detail (IntegrityError m) = unhandled_exception_handler path"
| "handle_exception phrase path detail (PyError n) = unhandled_exception_handler path"

text \<open>The status a client sees for an exception.\<close>

fun exc_status :: "exc \<Rightarrow> int" where
  "exc_status (AppError c ext) = attr_status (attrs_of c)"
| "exc_status (HandlingError fs) = 500"
| "exc_status (RequestInvalid errors) = 422"
| "exc_status (HttpError status d) = status"
| "exc_status (IntegrityError m) = 500"
| "exc_status (PyError n) = 500"

text \<open>No extension of an exception is called like a member of the document.\<close>

definition plain_extensions :: "exc \<Rightarrow> bool" where
  "plain_extensions e \<longleftrightarrow> list_all (\<lambda>(k, v). k \<notin> set member_names) (extensions_of e)"

lemma build_problem_details_Inr:
  "list_all (\<lambda>(k, v). k \<notin> set member_names) ext \<Longrightarrow>
   \<exists>p. build_problem_details st ti d ty i ext = Inr p \<and> pd_status p = st"
  by (auto simp: build_problem_details_def list_all_iff list_ex_iff)

lemma dump_status: "map_of (dump_exclude_none p) ''status'' = Some (PInt (pd_status p))"
  by (simp add: dump_exclude_none_def)

lemma handle_exception_response:
  assumes "plain_extensions e"
  shows "\<exists>r. handle_exception phrase path detail e = Inr r \<and> status_code r = exc_status e
    \<and> media_type r = PROBLEM_CONTENT_TYPE \<and> map_of (content r) ''status'' = Some (PInt (exc_status e))"
  using assms
  by (cases e)
    (auto simp: plain_extensions_def application_error_handler_def validation_error_handler_def
      http_exception_handler_def unhandled_exception_handler_def Let_def problem_response_def
      build_problem_details_def list_ex_iff list_all_iff dump_status with_type_title_def message_bus_attrs_def member_names_def)

text \<open>An exception that no registered handler but the last one matches.\<close>

fun unexpected :: "exc \<Rightarrow> bool" where
  "unexpected (IntegrityError m) = True"
| "unexpected (PyError n) = True"
| "unexpected _ = False"

lemma unhandled_uniform:
  "unexpected e \<Longrightarrow> handle_exception phrase path detail e = unhandled_exception_handler path"
  by (cases e) simp_all

section \<open>Hypermedia links\<close>

record link =
  rel :: string
  href :: string
  verb :: string

definition Link :: "string \<Rightarrow> string \<Rightarrow> string \<Rightarrow> link" where
  "Link r h m = \<lparr>rel = r, href = h, verb = m\<rparr>"

section \<open>Served paths\<close>

text \<open>
  The routers hand the application their methods and path templates. A template matches a
  path segment by segment; a parameter \<open>{name}\<close> takes one non-empty segment.
\<close>

type_synonym route_table = "(string \<times> string) list"

definition is_param :: "string \<Rightarrow> bool" where
  "is_param seg \<longleftrightarrow> seg \<noteq> [] \<and> hd seg = CHR ''{'' \<and> last seg = CHR ''}''"

fun segments_match :: "string list \<Rightarrow> string list \<Rightarrow> bool" where
  "segments_match [] [] = True"
| "segments_match (t # ts) (p # ps) =
     ((if is_param t then p \<noteq> [] else t = p) \<and> segments_match ts ps)"
| "segments_match _ _ = False"

definition path_matches :: "string \<Rightarrow> string \<Rightarrow> bool" where
  "path_matches template path = segments_match (split_on (CHR ''/'') template) (split_on (CHR ''/'') path)"

definition served :: "route_table \<Rightarrow> link \<Rightarrow> bool" where
  "served routes l = list_ex (\<lambda>(m, template). m = verb l \<and> path_matches template (href l)) routes"

text \<open>Paths made of segments without a slash, as the controllers build them.\<close>

definition path_of :: "string list \<Rightarrow> string" where
  "path_of segs = join_with ''/'' ([] # segs)"

lemma split_path_of:
  "list_all (\<lambda>p. CHR ''/'' \<notin> set p) segs \<Longrightarrow> split_on (CHR ''/'') (path_of segs) = [] # segs"
  using split_join [of "[] # segs" "CHR ''/''"] by (simp add: path_of_def)

lemma show_uuid_segment: "CHR ''/'' \<notin> set (show_uuid u)" "show_uuid u \<noteq> []"
proof -
  have "\<not> (is_hex_char (CHR ''/'') \<or> CHR ''/'' = CHR ''-'')" by code_simp
  then show "CHR ''/'' \<notin> set (show_uuid u)" using show_uuid_chars [of u] by (auto simp: list_all_iff)
  show "show_uuid u \<noteq> []" using show_uuid_length [of u] by (metis list.size(3) zero_neq_numeral)
qed

section \<open>Properties\<close>

text \<open>
  C32. Every exception an endpoint lets through becomes one problem document: its media type
  is \<open>application/problem+json\<close>, the status of the response is the one its class declares
  and the \<open>status\<close> member of the body repeats it, for every exception whose extensions do
  not reuse the name of a standard member.
\<close>

theorem problem_response_status:
  assumes "plain_extensions e"
  shows "\<exists>r. handle_exception phrase path detail e = Inr r \<and> status_code r = exc_status e
    \<and> media_type r = PROBLEM_CONTENT_TYPE \<and> map_of (content r) ''status'' = Some (PInt (exc_status e))"
  using assms by (rule handle_exception_response)

lemma problem_response_status_witness:
  "\<exists>r. handle_exception (\<lambda>_. None) ''/files'' ''Too large''
      (AppError (Files FileTooLargeError) [(''limit'', PInt 5)]) = Inr r \<and> status_code r = 413"
proof -
  have "plain_extensions (AppError (Files FileTooLargeError) [(''limit'', PInt 5)])"
    by code_simp
  from problem_response_status [OF this] show ?thesis by (auto simp: with_type_title_def)
qed

text \<open>
  An unexpected exception leaks nothing: the response to any two of them on the same
  path is the same 500 document, whatever their class, text or arguments.
\<close>

theorem unexpected_errors_uniform:
  assumes "unexpected e" "unexpected e'"
  shows "handle_exception phrase path detail e = handle_exception phrase' path detail' e'
    \<and> exc_status e = 500"
  using assms by (cases e) (simp_all add: unhandled_uniform)

lemma unexpected_errors_uniform_witness:
  "handle_exception (\<lambda>_. None) ''/x'' ''secret'' (PyError ''KeyError'')
   = handle_exception (\<lambda>_. Some ''OK'') ''/x'' [] (IntegrityError ''uq_outbox'')"
  using unexpected_errors_uniform [of "PyError ''KeyError''" "IntegrityError ''uq_outbox''"] by simp

text \<open>The problem type of an error names its class: no two classes share one.\<close>

theorem problem_types_unique:
  "build_problem_type_uri (attr_type (attrs_of c)) = build_problem_type_uri (attr_type (attrs_of d)) \<longleftrightarrow> c = d"
  by (simp add: build_problem_type_uri_def attr_type_inj)

end
