(* ===== verification/Persistence.thy ===== *)
theory Persistence
  imports App_Errors
begin

text \<open>
  Transactions and repositories. \<open>request_scope\<close> is the session dependency of the HTTP
  API (\<open>modules/shared/database/session.py\<close>). The repository ports of the domain are the
  locale \<open>repository\<close>; what the repositories rely on of the session (\<open>add\<close> and
  \<open>flush\<close>, \<open>select ... where\<close> on the primary key) is the locale \<open>row_store\<close>, and
  \<open>mapped_store\<close> adds the imperative mapping of an aggregate to its row. \<open>table_save\<close>
  and \<open>table_load\<close> are a table as a list of rows under declared constraints, on which the
  locales are interpreted.
\<close>

section \<open>The request scope\<close>

text \<open>
  The handler runs on the session; its state is the database as the transaction sees it.
  Normal return commits, an exception rolls back and is raised again. \<open>commit\<close> is the
  commit itself: \<open>None\<close> when the database accepts it, the exception when it does not, in
  which case the same clause rolls back.
\<close>

definition request_scope ::
  "('db \<Rightarrow> exc option) \<Rightarrow> ('db \<Rightarrow> ('a \<times> 'db) res) \<Rightarrow> 'db \<Rightarrow> 'a res \<times> 'db" where
  "request_scope commit body db =
     (case body db of
        Inl e \<Rightarrow> (Inl e, db)
      | Inr (a, db') \<Rightarrow> (case commit db' of None \<Rightarrow> (Inr a, db') | Some e \<Rightarrow> (Inl e, db)))"

lemma request_scope_Inr:
  "request_scope commit body db = (Inr a, db') \<longleftrightarrow> body db = Inr (a, db') \<and> commit db' = None"
  by (auto simp: request_scope_def split: sum.splits prod.splits option.splits)

lemma request_scope_Inl: "request_scope commit body db = (Inl e, db') \<Longrightarrow> db' = db"
  by (auto simp: request_scope_def split: sum.splits prod.splits option.splits)

section \<open>Repositories\<close>

text \<open>
  The contract of a repository port: whole-aggregate persistence and lookup by identity.
  \<open>storable\<close> describes the aggregates the mapping can represent.
\<close>

locale repository =
  fixes persist :: "'a \<Rightarrow> 'db \<Rightarrow> 'db res"
    and find_by_id :: "'k \<Rightarrow> 'db \<Rightarrow> 'a option res"
    and identity :: "'a \<Rightarrow> 'k"
    and storable :: "'a \<Rightarrow> bool"
  assumes find_persist:
    "storable a \<Longrightarrow> persist a db = Inr db' \<Longrightarrow>
     find_by_id k db' = (if k = identity a then Inr (Some a) else find_by_id k db)"
begin

lemma find_persisted: "storable a \<Longrightarrow> persist a db = Inr db' \<Longrightarrow> find_by_id (identity a) db' = Inr (Some a)"
  by (simp add: find_persist)

lemma find_other:
  "storable a \<Longrightarrow> persist a db = Inr db' \<Longrightarrow> k \<noteq> identity a \<Longrightarrow> find_by_id k db' = find_by_id k db"
  by (simp add: find_persist)

lemma persist_twice:
  assumes "storable a" "storable b" "identity b = identity a"
    and "persist a db = Inr db1" "persist b db1 = Inr db2"
  shows "find_by_id k db2 = (if k = identity a then Inr (Some b) else find_by_id k db)"
  using assms by (simp add: find_persist)

end

text \<open>
  What the session promises for one mapped table: a flushed row is the one that a select on
  its primary key returns, as the column types store it (\<open>column\<close>: a \<open>Numeric(14, 3)\<close>
  rounds, for instance), and the other rows are as before.
\<close>

locale row_store =
  fixes column :: "'row \<Rightarrow> 'row"
    and save :: "'row \<Rightarrow> 'db \<Rightarrow> 'db res"
    and load :: "'k \<Rightarrow> 'db \<Rightarrow> 'row option"
    and pk :: "'row \<Rightarrow> 'k"
  assumes load_save:
    "save r db = Inr db' \<Longrightarrow> load k db' = (if k = pk r then Some (column r) else load k db)"

text \<open>The composites rebuild the value objects of a row, and may raise while doing so.\<close>

definition load_mapped :: "('row \<Rightarrow> 'a res) \<Rightarrow> 'row option \<Rightarrow> 'a option res" where
  "load_mapped of_row r =
     (case r of None \<Rightarrow> Inr None | Some r' \<Rightarrow> bindE (of_row r') (\<lambda>a. Inr (Some a)))"

locale mapped_store = row_store column save load pk
  for column :: "'row \<Rightarrow> 'row"
    and save :: "'row \<Rightarrow> 'db \<Rightarrow> 'db res"
    and load :: "'k \<Rightarrow> 'db \<Rightarrow> 'row option"
    and pk :: "'row \<Rightarrow> 'k" +
  fixes to_row :: "'a \<Rightarrow> 'row"
    and of_row :: "'row \<Rightarrow> 'a res"
    and ident :: "'a \<Rightarrow> 'k"
    and mappable :: "'a \<Rightarrow> bool"
  assumes row_round_trip: "mappable a \<Longrightarrow> of_row (column (to_row a)) = Inr a"
    and pk_to_row: "pk (to_row a) = ident a"

sublocale mapped_store \<subseteq> repository "\<lambda>a. save (to_row a)" "\<lambda>k db. load_mapped of_row (load k db)" ident mappable
proof unfold_locales
  fix a db db' k
  assume a: "mappable a" and s: "save (to_row a) db = Inr db'"
  show "load_mapped of_row (load k db') = (if k = ident a then Inr (Some a) else load_mapped of_row (load k db))"
    using load_save [OF s, of k] row_round_trip [OF a]
    by (simp add: pk_to_row load_mapped_def)
qed

section \<open>Text columns\<close>

text \<open>\<open>String(n)\<close>: at most \<open>n\<close> characters, and PostgreSQL stores no zero character.\<close>

definition nul_free :: "string \<Rightarrow> bool" where
  "nul_free s \<longleftrightarrow> CHR 0x00 \<notin> set s"

definition column_text :: "nat \<Rightarrow> string \<Rightarrow> bool" where
  "column_text n s \<longleftrightarrow> length s \<le> n \<and> nul_free s"

lemma nul_free_simps [simp]:
  "nul_free []" "nul_free (c # s) \<longleftrightarrow> c \<noteq> CHR 0x00 \<and> nul_free s" "nul_free (s @ t) \<longleftrightarrow> nul_free s \<and> nul_free t"
  by (auto simp: nul_free_def)

lemma nul_free_if: "list_all P s \<Longrightarrow> \<not> P (CHR 0x00) \<Longrightarrow> nul_free s"
  by (auto simp: nul_free_def list_all_iff)

lemma not_nul: "\<not> is_upper_letter (CHR 0x00)" "\<not> is_digit (CHR 0x00)" "\<not> is_hex_char (CHR 0x00)"
  by (simp_all add: is_upper_letter_def is_digit_def is_hex_char_def)

lemma nul_free_show_uuid [simp]: "nul_free (show_uuid u)"
  by (rule nul_free_if [OF show_uuid_chars]) (simp add: not_nul)

section \<open>Tables\<close>

text \<open>
  A table as the list of its primary keys with their rows, in insertion order. \<open>check r
  others\<close> is the first violated constraint of a row beside the other rows, as the exception
  the driver raises; \<open>column\<close> is what the column types store of a row.
\<close>

type_synonym ('k, 'row) table = "('k \<times> 'row) list"

definition table_load :: "'k \<Rightarrow> ('k, 'row) table \<Rightarrow> 'row option" where
  "table_load k rows = map_of rows k"

definition other_rows :: "'k \<Rightarrow> ('k, 'row) table \<Rightarrow> 'row list" where
  "other_rows k rows = map snd (filter (\<lambda>(k', r). k' \<noteq> k) rows)"

definition table_save ::
  "('row \<Rightarrow> 'row) \<Rightarrow> ('row \<Rightarrow> 'row list \<Rightarrow> exc option) \<Rightarrow> ('row \<Rightarrow> 'k) \<Rightarrow> 'row \<Rightarrow>
   ('k, 'row) table \<Rightarrow> ('k, 'row) table res" where
  "table_save column check pk r rows =
     (case check (column r) (other_rows (pk r) rows) of
        Some e \<Rightarrow> Inl e
      | None \<Rightarrow> Inr (AList.update (pk r) (column r) rows))"

lemma table_save_Inr:
  "table_save column check pk r rows = Inr rows' \<longleftrightarrow>
   check (column r) (other_rows (pk r) rows) = None \<and> rows' = AList.update (pk r) (column r) rows"
  by (auto simp: table_save_def split: option.splits)

interpretation table: row_store column "table_save column check pk" table_load pk
  for column :: "'row \<Rightarrow> 'row" and check :: "'row \<Rightarrow> 'row list \<Rightarrow> exc option" and pk :: "'row \<Rightarrow> 'k"
  by unfold_locales (simp add: table_save_Inr table_load_def update_conv')

text \<open>Saving a row keeps one row per primary key.\<close>

lemma table_save_keys:
  "table_save column check pk r rows = Inr rows' \<Longrightarrow> distinct (map fst rows) \<Longrightarrow> distinct (map fst rows')"
  by (auto simp: table_save_Inr distinct_update)

lemma table_save_error:
  "table_save column check pk r rows = Inl e \<longleftrightarrow> check (column r) (other_rows (pk r) rows) = Some e"
  by (auto simp: table_save_def split: option.splits)

end
