(* ===== verification/Shipment_Values.thy ===== *)
theory Shipment_Values
  imports App_Errors
begin

text \<open>
  The value objects of the Shipment module
  (\<open>modules/shipment/src/domain/value_objects\<close>): identifier, waybill number, cargo
  manifest and route. A constructor that validates is a function from the raw arguments to
  the value object or the exception; \<open>wf_\<dots>\<close> says what a constructed value satisfies, and
  rebuilding a well-formed value from its own fields (what the ORM composites do on load)
  gives it back.
\<close>

section \<open>Regular expressions\<close>

text \<open>
  \<open>pattern.match(s)\<close> for a pattern \<open>^M$\<close>: \<open>$\<close> also matches before a newline that
  ends the string.
\<close>

definition anchored_match :: "(string \<Rightarrow> bool) \<Rightarrow> string \<Rightarrow> bool" where
  "anchored_match M s \<longleftrightarrow> M s \<or> (s \<noteq> [] \<and> last s = CHR 0x0A \<and> M (butlast s))"

lemma anchored_match_stripped [simp]: "anchored_match M (upper (strip s)) = M (upper (strip s))"
proof (cases "strip s = []")
  case True
  then show ?thesis by (simp add: anchored_match_def)
next
  case False
  then have "\<not> is_space (last (upper (strip s)))"
    using strip_ends(2) [OF False] by (simp add: upper_def last_map is_space_upper_char)
  then have "last (upper (strip s)) \<noteq> CHR 0x0A" by (auto simp: is_space_def)
  then show ?thesis by (simp add: anchored_match_def)
qed

section \<open>Shipment identifier\<close>

datatype shipment_id = ShipmentId (sid_value: uuid)

definition mk_shipment_id :: "pyval \<Rightarrow> shipment_id res" where
  "mk_shipment_id raw =
     (case raw of
        PStr s \<Rightarrow> (case parse_uuid s of
                     None \<Rightarrow> Inl (shipment_exc InvalidShipmentIdError)
                   | Some u \<Rightarrow> Inr (ShipmentId u))
      | PUuid u \<Rightarrow> Inr (ShipmentId u)
      | _ \<Rightarrow> Inl (shipment_exc InvalidShipmentIdError))"

definition str_shipment_id :: "shipment_id \<Rightarrow> string" where
  "str_shipment_id i = show_uuid (sid_value i)"

lemma mk_str_shipment_id [simp]: "mk_shipment_id (PStr (str_shipment_id i)) = Inr i"
  by (simp add: mk_shipment_id_def str_shipment_id_def parse_show_uuid)

lemma mk_shipment_id_error: "mk_shipment_id raw = Inl e \<Longrightarrow> e = shipment_exc InvalidShipmentIdError"
  by (auto simp: mk_shipment_id_def split: pyval.splits option.splits)

section \<open>Waybill number\<close>

datatype waybill_number = WaybillNumber (waybill_value: string)

definition waybill_pattern :: "string \<Rightarrow> bool" where
  "waybill_pattern s \<longleftrightarrow> starts_with ''MUST-'' s \<and> length s = 12 \<and> list_all is_digit (drop 5 s)"

definition mk_waybill_number :: "pyval \<Rightarrow> waybill_number res" where
  "mk_waybill_number value =
     (case value of
        PStr s \<Rightarrow>
          (let normalized = upper (strip s) in
           if \<not> anchored_match waybill_pattern normalized
           then Inl (shipment_exc InvalidWaybillNumberError)
           else Inr (WaybillNumber normalized))
      | _ \<Rightarrow> Inl (shipment_exc InvalidWaybillNumberError))"

definition from_serial :: "int \<Rightarrow> waybill_number res" where
  "from_serial serial = mk_waybill_number (PStr (''MUST-'' @ fmt_int 7 serial))"

definition wf_waybill :: "waybill_number \<Rightarrow> bool" where
  "wf_waybill w \<longleftrightarrow> waybill_pattern (waybill_value w)"

lemma mk_waybill_wf: "mk_waybill_number v = Inr w \<Longrightarrow> wf_waybill w"
  by (auto simp: mk_waybill_number_def wf_waybill_def Let_def split: pyval.splits if_splits)

lemma waybill_pattern_split:
  "waybill_pattern s \<longleftrightarrow> (\<exists>ds. s = ''MUST-'' @ ds \<and> length ds = 7 \<and> list_all is_digit ds)"
proof
  assume s: "waybill_pattern s"
  have "take (length ''MUST-'') s = ''MUST-''"
    using s unfolding waybill_pattern_def starts_with_def by (rule conjunct1)
  then have "take 5 s = ''MUST-''" by (simp add: eval_nat_numeral)
  then have "s = ''MUST-'' @ drop 5 s" using append_take_drop_id [of 5 s] by simp
  moreover have "length (drop 5 s) = 7 \<and> list_all is_digit (drop 5 s)"
    using s by (simp add: waybill_pattern_def)
  ultimately show "\<exists>ds. s = ''MUST-'' @ ds \<and> length ds = 7 \<and> list_all is_digit ds" by blast
qed (auto simp: waybill_pattern_def starts_with_def)

lemma prefix_plain: "list_all is_plain ''MUST-''" "is_plain (CHR ''-'')"
  by code_simp+

lemma digits_plain: "list_all is_digit ds \<Longrightarrow> list_all is_plain ds"
  by (auto simp: list_all_iff is_digit_plain)

lemma waybill_normalized:
  assumes "waybill_pattern s"
  shows "upper (strip s) = s"
proof -
  obtain ds where s: "s = ''MUST-'' @ ds" and ds: "list_all is_digit ds"
    using assms by (auto simp: waybill_pattern_split)
  show ?thesis unfolding s by (rule plain_normalized) (simp only: list_all_append prefix_plain digits_plain ds simp_thms)
qed

lemma mk_waybill_of_wf: "wf_waybill w \<Longrightarrow> mk_waybill_number (PStr (waybill_value w)) = Inr w"
  by (cases w) (simp add: mk_waybill_number_def wf_waybill_def waybill_normalized anchored_match_def)

lemma from_serial_in_range:
  assumes "0 \<le> n" "n < 10 ^ 7"
  shows "from_serial n = Inr (WaybillNumber (''MUST-'' @ low_digits 10 7 (nat n)))"
proof -
  have lt: "nat n < 10 ^ 7" using assms by (simp add: nat_less_iff)
  have f: "fmt_int 7 n = low_digits 10 7 (nat n)"
    using assms zero_pad_show_nat [OF _ lt] by (simp add: fmt_int_def del: low_digits.simps)
  have "is_digit (digit_char d)" if "d < 10" for d
    using that by (simp add: is_digit_def digit_char_def)
  then have "list_all is_digit (low_digits 10 7 (nat n))"
    using low_digits_chars [of 10 _ 7 "nat n"] by (auto simp: list_all_iff simp del: low_digits.simps)
  then have pat: "waybill_pattern (''MUST-'' @ low_digits 10 7 (nat n))"
    unfolding waybill_pattern_split by (intro exI conjI) (rule refl, simp_all del: low_digits.simps)
  show ?thesis
    unfolding from_serial_def f mk_waybill_number_def
    by (simp only: pyval.case Let_def waybill_normalized [OF pat] anchored_match_def pat simp_thms if_False)
qed

lemma from_serial_out_of_range:
  assumes "n < 0 \<or> 10 ^ 7 \<le> n"
  shows "from_serial n = Inl (shipment_exc InvalidWaybillNumberError)"
proof -
  let ?s = "''MUST-'' @ fmt_int 7 n"
  have pad: "list_all is_digit (zero_pad k (show_nat m))" for k m
    using show_nat_digits [of m] by (auto simp: zero_pad_def list_all_iff)
  have "list_all is_plain (fmt_int 7 n)"
    using digits_plain [OF pad] prefix_plain(2) by (simp add: fmt_int_def)
  then have norm: "upper (strip ?s) = ?s"
    by (intro plain_normalized) (simp only: list_all_append prefix_plain simp_thms)
  have "\<not> waybill_pattern ?s"
  proof (cases "n < 0")
    case True
    then have "drop 5 ?s = CHR ''-'' # zero_pad 6 (show_nat (nat (- n)))" by (simp add: fmt_int_def)
    moreover have "\<not> is_digit (CHR ''-'')" by code_simp
    ultimately show ?thesis by (simp add: waybill_pattern_def del: length_append)
  next
    case False
    then have "10 ^ 7 \<le> nat n" using assms by simp
    then have "7 < length (show_nat (nat n))" by (rule show_nat_length)
    then show ?thesis using False by (simp add: fmt_int_def zero_pad_def waybill_pattern_def)
  qed
  then show ?thesis
    unfolding from_serial_def mk_waybill_number_def pyval.case Let_def anchored_match_stripped norm
    by (simp only: simp_thms if_True)
qed

lemma low_digits_inj:
  assumes "m < 10 ^ k" "n < 10 ^ k" "low_digits 10 k m = low_digits 10 k n"
  shows "m = n"
proof -
  have "Some (0 * 10 ^ k + m mod 10 ^ k) = Some (0 * 10 ^ k + n mod 10 ^ k)"
    using digits_value_low_digits [of 10 0 k m] digits_value_low_digits [of 10 0 k n]
    unfolding assms(3) by simp
  then show ?thesis using assms(1,2) by simp
qed

section \<open>Cargo manifest\<close>

record cargo_manifest =
  total_weight_kg :: pyfloat
  total_volume_cbm :: pyfloat
  commodity_code :: string

definition MAX_COMMODITY_CODE_LENGTH :: nat where
  "MAX_COMMODITY_CODE_LENGTH = 16"

definition validated_measure :: "pyval \<Rightarrow> pyfloat res" where
  "validated_measure value =
     (case value of
        PInt i \<Rightarrow> if i < 0 then Inl (shipment_exc InvalidCargoManifestError)
                  else (case float_of_int i of
                          None \<Rightarrow> Inl (PyError ''OverflowError'')
                        | Some f \<Rightarrow> Inr f)
      | PFloat f \<Rightarrow> if float_lt0 f then Inl (shipment_exc InvalidCargoManifestError) else Inr f
      | _ \<Rightarrow> Inl (shipment_exc InvalidCargoManifestError))"

definition validated_commodity :: "pyval \<Rightarrow> string res" where
  "validated_commodity value =
     (case value of
        PStr s \<Rightarrow>
          (let code = upper (strip s) in
           if code = [] then Inl (shipment_exc InvalidCargoManifestError)
           else if length code > MAX_COMMODITY_CODE_LENGTH
           then Inl (shipment_exc InvalidCargoManifestError)
           else Inr code)
      | _ \<Rightarrow> Inl (shipment_exc InvalidCargoManifestError))"

definition mk_cargo_manifest :: "pyval \<Rightarrow> pyval \<Rightarrow> pyval \<Rightarrow> cargo_manifest res" where
  "mk_cargo_manifest weight volume commodity =
     bindE (validated_measure weight) (\<lambda>w.
     bindE (validated_measure volume) (\<lambda>v.
     bindE (validated_commodity commodity) (\<lambda>code.
     Inr \<lparr>total_weight_kg = w, total_volume_cbm = v, commodity_code = code\<rparr>)))"

text \<open>The composite factory: all columns \<open>NULL\<close> is no manifest.\<close>

definition manifest_from_columns :: "pyval \<Rightarrow> pyval \<Rightarrow> pyval \<Rightarrow> cargo_manifest option res" where
  "manifest_from_columns weight volume commodity =
     (if weight = PNone \<and> volume = PNone \<and> commodity = PNone then Inr None
      else bindE (mk_cargo_manifest weight volume commodity) (\<lambda>m. Inr (Some m)))"

definition wf_manifest :: "cargo_manifest \<Rightarrow> bool" where
  "wf_manifest m \<longleftrightarrow>
     \<not> float_lt0 (total_weight_kg m) \<and> \<not> float_lt0 (total_volume_cbm m)
     \<and> commodity_code m \<noteq> [] \<and> length (commodity_code m) \<le> MAX_COMMODITY_CODE_LENGTH
     \<and> upper (strip (commodity_code m)) = commodity_code m"

lemma upper_strip_idem: "upper (strip (upper (strip s))) = upper (strip s)"
  by (simp add: py_str)

lemma float_of_int_nonneg: "float_of_int i = Some f \<Longrightarrow> 0 \<le> i \<Longrightarrow> \<not> float_lt0 f"
  by (auto simp: float_of_int_def Let_def split: if_splits)

lemma validated_measure_nonneg: "validated_measure v = Inr f \<Longrightarrow> \<not> float_lt0 f"
  by (auto simp: validated_measure_def float_of_int_nonneg split: pyval.splits if_splits option.splits)

lemma validated_commodity_Inr:
  "validated_commodity v = Inr code \<longleftrightarrow>
   (\<exists>s. v = PStr s \<and> code = upper (strip s) \<and> code \<noteq> [] \<and> length code \<le> MAX_COMMODITY_CODE_LENGTH)"
  by (auto simp: validated_commodity_def Let_def split: pyval.splits)

lemma mk_cargo_manifest_wf: "mk_cargo_manifest w v c = Inr m \<Longrightarrow> wf_manifest m"
  by (auto simp: mk_cargo_manifest_def res_simps wf_manifest_def validated_measure_nonneg
      validated_commodity_Inr upper_strip_idem)

lemma mk_cargo_manifest_of_wf:
  "wf_manifest m \<Longrightarrow>
   mk_cargo_manifest (PFloat (total_weight_kg m)) (PFloat (total_volume_cbm m)) (PStr (commodity_code m))
   = Inr m"
  by (cases m) (simp add: mk_cargo_manifest_def wf_manifest_def validated_measure_def
      validated_commodity_def Let_def)

section \<open>Route\<close>

record shipment_route =
  origin_port_code :: string
  destination_port_code :: string
  transit_legs :: "string list"

definition port_code_pattern :: "string \<Rightarrow> bool" where
  "port_code_pattern s \<longleftrightarrow>
     length s = 5 \<and> list_all is_upper_letter (take 2 s)
     \<and> list_all (\<lambda>c. is_upper_letter c \<or> is_digit c) (drop 2 s)"

definition validated_port_code :: "pyval \<Rightarrow> string res" where
  "validated_port_code value =
     (case value of
        PStr s \<Rightarrow>
          (let normalized = upper (strip s) in
           if \<not> anchored_match port_code_pattern normalized
           then Inl (shipment_exc InvalidShipmentRouteError)
           else Inr normalized)
      | _ \<Rightarrow> Inl (shipment_exc InvalidShipmentRouteError))"

text \<open>The loop over the hops, with the set of visited ports as a list.\<close>

fun itinerary_loop :: "string list \<Rightarrow> string list \<Rightarrow> unit res" where
  "itinerary_loop visited [] = Inr ()"
| "itinerary_loop visited (hop # hops) =
     (if hop \<in> set visited then Inl (shipment_exc InvalidShipmentRouteError)
      else itinerary_loop (hop # visited) hops)"

definition validate_itinerary :: "string \<Rightarrow> string \<Rightarrow> string list \<Rightarrow> unit res" where
  "validate_itinerary origin destination legs = itinerary_loop [] (origin # legs @ [destination])"

text \<open>\<open>self.transit_legs or ()\<close>, refused when it is a string or not iterable.\<close>

definition legs_of :: "pyval \<Rightarrow> pyval list res" where
  "legs_of v =
     (if \<not> truthy v then Inr []
      else case v of
        PList xs \<Rightarrow> Inr xs
      | PDict kvs \<Rightarrow> Inr (map fst kvs)
      | _ \<Rightarrow> Inl (shipment_exc InvalidShipmentRouteError))"

definition mk_shipment_route :: "pyval \<Rightarrow> pyval \<Rightarrow> pyval \<Rightarrow> shipment_route res" where
  "mk_shipment_route o_raw d_raw legs_raw =
     bindE (validated_port_code o_raw) (\<lambda>origin.
     bindE (validated_port_code d_raw) (\<lambda>destination.
     if origin = destination then Inl (shipment_exc InvalidShipmentRouteError)
     else
       bindE (legs_of legs_raw) (\<lambda>legs.
       bindE (mapE validated_port_code legs) (\<lambda>normalized_legs.
       bindE (validate_itinerary origin destination normalized_legs) (\<lambda>_.
       Inr \<lparr>origin_port_code = origin, destination_port_code = destination,
            transit_legs = normalized_legs\<rparr>)))))"

definition hops :: "shipment_route \<Rightarrow> string list" where
  "hops r = origin_port_code r # transit_legs r @ [destination_port_code r]"

definition str_route :: "shipment_route \<Rightarrow> string" where
  "str_route r = join_with '' > '' (hops r)"

definition wf_route :: "shipment_route \<Rightarrow> bool" where
  "wf_route r \<longleftrightarrow> list_all port_code_pattern (hops r) \<and> distinct (hops r)"

lemma itinerary_loop_Inr: "itinerary_loop visited hs = Inr () \<longleftrightarrow> distinct hs \<and> set hs \<inter> set visited = {}"
  by (induction visited hs rule: itinerary_loop.induct) auto

lemma itinerary_loop_Inl:
  "itinerary_loop visited hs = Inl e \<Longrightarrow> e = shipment_exc InvalidShipmentRouteError"
  by (induction visited hs rule: itinerary_loop.induct) (auto split: if_splits)

lemma validate_itinerary_Inr:
  "validate_itinerary origin dest legs = Inr u \<longleftrightarrow> distinct (origin # legs @ [dest])"
  using itinerary_loop_Inr [of "[]" "origin # legs @ [dest]"]
  by (simp add: validate_itinerary_def del: itinerary_loop.simps)

lemma validated_port_code_Inr:
  "validated_port_code v = Inr c \<longleftrightarrow> (\<exists>s. v = PStr s \<and> c = upper (strip s) \<and> port_code_pattern c)"
  by (auto simp: validated_port_code_def Let_def split: pyval.splits)

lemma validated_port_code_Inl:
  "validated_port_code v = Inl e \<Longrightarrow> e = shipment_exc InvalidShipmentRouteError"
  by (auto simp: validated_port_code_def Let_def split: pyval.splits if_splits)

lemma port_code_chars: "port_code_pattern s \<Longrightarrow> list_all (\<lambda>c. is_upper_letter c \<or> is_digit c) s"
  by (subst append_take_drop_id [of 2 s, symmetric], subst list_all_append)
    (auto simp: port_code_pattern_def list_all_iff)

lemma port_code_normalized: "port_code_pattern s \<Longrightarrow> upper (strip s) = s"
  using port_code_chars [of s]
  by (intro plain_normalized) (auto simp: list_all_iff is_upper_letter_plain is_digit_plain)

lemma validated_port_code_of_wf: "port_code_pattern s \<Longrightarrow> validated_port_code (PStr s) = Inr s"
  by (simp add: validated_port_code_Inr port_code_normalized)

lemma mapE_port_codes:
  "mapE validated_port_code legs = Inr codes \<Longrightarrow> list_all port_code_pattern codes"
proof (induction legs arbitrary: codes)
  case Nil
  then show ?case by simp
next
  case (Cons x xs)
  then show ?case by (auto simp: bindE_Inr_iff validated_port_code_Inr)
qed

lemma mk_shipment_route_wf:
  assumes "mk_shipment_route o_raw d_raw l_raw = Inr r"
  shows "wf_route r"
proof -
  obtain orig dest legs codes where p: "validated_port_code o_raw = Inr orig"
    "validated_port_code d_raw = Inr dest" "legs_of l_raw = Inr legs"
    "mapE validated_port_code legs = Inr codes" "validate_itinerary orig dest codes = Inr ()"
    and r: "r = \<lparr>origin_port_code = orig, destination_port_code = dest, transit_legs = codes\<rparr>"
    using assms by (auto simp: mk_shipment_route_def bindE_Inr_iff split: if_splits)
  show ?thesis
    using p mapE_port_codes [OF p(4)]
    by (simp add: r wf_route_def hops_def validated_port_code_Inr validate_itinerary_Inr) auto
qed

lemma mk_shipment_route_of_wf:
  assumes "wf_route r"
  shows "mk_shipment_route (PStr (origin_port_code r)) (PStr (destination_port_code r))
           (PList (map PStr (transit_legs r))) = Inr r"
proof -
  have codes: "port_code_pattern (origin_port_code r)" "port_code_pattern (destination_port_code r)"
    "list_all port_code_pattern (transit_legs r)"
    and d: "distinct (origin_port_code r # transit_legs r @ [destination_port_code r])"
    using assms by (auto simp: wf_route_def hops_def)
  have "legs_of (PList (map PStr (transit_legs r))) = Inr (map PStr (transit_legs r))"
    by (auto simp: legs_of_def)
  moreover have "mapE validated_port_code (map PStr (transit_legs r)) = Inr (transit_legs r)"
    using codes(3) by (simp add: mapE_Inr_iff list_all2_map1 list_all2_same validated_port_code_of_wf
        list_all_iff)
  moreover have "validate_itinerary (origin_port_code r) (destination_port_code r) (transit_legs r) = Inr ()"
    using d by (simp add: validate_itinerary_Inr)
  ultimately show ?thesis
    using codes d by (cases r) (simp add: mk_shipment_route_def validated_port_code_of_wf)
qed

lemma mk_shipment_route_error:
  "mk_shipment_route o_raw d_raw l_raw = Inl e \<Longrightarrow> e = shipment_exc InvalidShipmentRouteError"
  by (auto simp: mk_shipment_route_def bindE_Inl_iff legs_of_def validate_itinerary_def
      dest!: validated_port_code_Inl itinerary_loop_Inl mapE_Inl split: if_splits pyval.splits)

text \<open>A route is refused for its endpoints before its legs are looked at.\<close>

lemma mk_shipment_route_round_trip:
  "validated_port_code o_raw = Inr p \<Longrightarrow> validated_port_code d_raw = Inr p \<Longrightarrow>
   mk_shipment_route o_raw d_raw l_raw = Inl (shipment_exc InvalidShipmentRouteError)"
  by (simp add: mk_shipment_route_def)

section \<open>Properties\<close>

lemma mapE_port_codes_strings:
  "mapE validated_port_code (map PStr legs) = Inr codes \<longleftrightarrow>
   codes = map (\<lambda>s. upper (strip s)) legs \<and> list_all port_code_pattern codes"
proof (induction legs arbitrary: codes)
  case Nil
  then show ?case by auto
next
  case (Cons l legs)
  show ?case
  proof (cases codes)
    case Nil
    then show ?thesis by (simp add: bindE_Inr_iff)
  next
    case C: (Cons c cs)
    have "mapE validated_port_code (map PStr (l # legs)) = Inr codes \<longleftrightarrow>
        validated_port_code (PStr l) = Inr c \<and> mapE validated_port_code (map PStr legs) = Inr cs"
      by (auto simp: C bindE_Inr_iff simp del: mapE.simps(1))
    then show ?thesis unfolding Cons.IH by (auto simp: C validated_port_code_Inr)
  qed
qed

lemma legs_of_strings: "legs_of (PList (map PStr legs)) = Inr (map PStr legs)"
  by (auto simp: legs_of_def)

text \<open>
  A route is accepted exactly when every hop, stripped and upper-cased, is a UN/LOCODE
  and no port occurs twice in the whole itinerary; it then holds the normalised hops in the
  given order, and otherwise \<open>InvalidShipmentRouteError\<close> is raised.
\<close>

theorem route_accepted_iff:
  "mk_shipment_route (PStr a) (PStr b) (PList (map PStr legs)) =
   (let n = (\<lambda>s. upper (strip s)); ports = map n (a # legs @ [b])
    in if list_all port_code_pattern ports \<and> distinct ports
       then Inr \<lparr>origin_port_code = n a, destination_port_code = n b, transit_legs = map n legs\<rparr>
       else Inl (shipment_exc InvalidShipmentRouteError))"
proof -
  let ?n = "\<lambda>s. upper (strip s)" and ?R = "mk_shipment_route (PStr a) (PStr b) (PList (map PStr legs))"
  have iff: "?R = Inr r \<longleftrightarrow> list_all port_code_pattern (map ?n (a # legs @ [b])) \<and> distinct (map ?n (a # legs @ [b]))
      \<and> r = \<lparr>origin_port_code = ?n a, destination_port_code = ?n b, transit_legs = map ?n legs\<rparr>" for r
    by (auto simp: mk_shipment_route_def bindE_Inr_iff legs_of_strings mapE_port_codes_strings
        validated_port_code_Inr validate_itinerary_Inr)
  show ?thesis
  proof (cases ?R)
    case (Inl e)
    then show ?thesis using mk_shipment_route_error [OF Inl] iff by (auto simp: Let_def)
  next
    case (Inr r)
    then show ?thesis using iff by (simp add: Let_def)
  qed
qed

text \<open>
  C30. A serial gives the waybill number \<open>MUST-\<close> and its seven digits for the serials below
  ten million, and \<open>InvalidWaybillNumberError\<close> for every other integer: the constructor
  never cuts a serial down to seven digits.
\<close>

theorem waybill_of_serial:
  "from_serial n =
   (if 0 \<le> n \<and> n < 10 ^ 7 then Inr (WaybillNumber (''MUST-'' @ low_digits 10 7 (nat n)))
    else Inl (shipment_exc InvalidWaybillNumberError))"
proof (cases "0 \<le> n \<and> n < 10 ^ 7")
  case True
  then show ?thesis using from_serial_in_range [of n] by (simp del: low_digits.simps)
next
  case False
  then have "n < 0 \<or> 10 ^ 7 \<le> n" by linarith
  from from_serial_out_of_range [OF this] show ?thesis using False by (simp only: if_False)
qed

end
