(* ===== verification/Bus_Messages.thy ===== *)
theory Bus_Messages
  imports App_Errors
begin

text \<open>
  Integration messages, their destinations and their subscribers
  (\<open>modules/shared/message_bus/messages\<close> and \<open>handlers\<close>). A subclass of
  \<open>IntegrationMessage\<close> is its name, the \<open>message_type\<close> its body declares and its
  dataclass fields; an instance is the type with the values of the fields. The two
  registries are dictionaries in insertion order.
\<close>

section \<open>Message classes\<close>

record message_class =
  class_name :: string
  message_type :: string
  class_fields :: "string list"

text \<open>\<open>__init_subclass__\<close>: a class that declares no \<open>message_type\<close> gets its own name.\<close>

definition init_message_class :: "string \<Rightarrow> string \<Rightarrow> string list \<Rightarrow> message_class" where
  "init_message_class cls declared fs =
     \<lparr>class_name = cls, message_type = (if declared = [] then cls else declared),
      class_fields = fs\<rparr>"

record integration_message =
  msg_class :: message_class
  msg_fields :: "pyval dict"

text \<open>The generated constructor, with positional arguments: one value per field.\<close>

definition new_message :: "message_class \<Rightarrow> pyval list \<Rightarrow> integration_message res" where
  "new_message cls vs =
     (if length vs = length (class_fields cls)
      then Inr \<lparr>msg_class = cls, msg_fields = zip (class_fields cls) vs\<rparr>
      else Inl (PyError ''TypeError''))"

definition to_body :: "integration_message \<Rightarrow> pyval dict" where
  "to_body m = msg_fields m"

text \<open>
  \<open>from_body\<close>: unknown keys are dropped, and a field without a value makes the
  constructor raise \<open>TypeError\<close>.
\<close>

definition from_body :: "message_class \<Rightarrow> pyval dict \<Rightarrow> integration_message res" where
  "from_body cls body =
     (let known = filter (\<lambda>(k, v). k \<in> set (class_fields cls)) body in
      bindE (mapE (\<lambda>f. case map_of known f of
                         None \<Rightarrow> Inl (PyError ''TypeError'')
                       | Some v \<Rightarrow> Inr (f, v)) (class_fields cls))
        (\<lambda>fs. Inr \<lparr>msg_class = cls, msg_fields = fs\<rparr>))"

definition message_field :: "integration_message \<Rightarrow> string \<Rightarrow> pyval" where
  "message_field m f = dict_get f PNone (msg_fields m)"

text \<open>An instance as the constructors build it.\<close>

definition wf_message :: "integration_message \<Rightarrow> bool" where
  "wf_message m \<longleftrightarrow>
     map fst (msg_fields m) = class_fields (msg_class m) \<and> distinct (class_fields (msg_class m))"

lemma map_of_filter_key:
  "map_of (filter (\<lambda>(k, v). k \<in> S) m) k = (if k \<in> S then map_of m k else None)"
  by (induction m) auto

lemma new_message_wf: "new_message cls vs = Inr m \<Longrightarrow> distinct (class_fields cls) \<Longrightarrow> wf_message m"
  by (auto simp: new_message_def wf_message_def split: if_splits)

lemma from_body_known:
  assumes "\<And>k. k \<in> set (class_fields cls) \<Longrightarrow> map_of body k = map_of body' k"
  shows "from_body cls body = from_body cls body'"
proof -
  have "map_of (filter (\<lambda>(k, v). k \<in> set (class_fields cls)) body)
      = map_of (filter (\<lambda>(k, v). k \<in> set (class_fields cls)) body')"
    using assms by (auto simp: map_of_filter_key fun_eq_iff)
  then show ?thesis by (simp add: from_body_def)
qed

lemma from_body_to_body:
  assumes "wf_message m"
  shows "from_body (msg_class m) (to_body m) = Inr m"
proof -
  let ?fs = "msg_fields m" and ?cls = "msg_class m"
  have keys: "map fst ?fs = class_fields ?cls" and d: "distinct (map fst ?fs)"
    using assms by (simp_all add: wf_message_def)
  have g: "map_of (filter (\<lambda>(k, v). k \<in> set (class_fields ?cls)) ?fs) = map_of ?fs"
    by (auto simp: map_of_filter_key fun_eq_iff map_of_eq_None_iff [THEN iffD2] simp flip: keys)
  have "mapE (\<lambda>f. case map_of ?fs f of None \<Rightarrow> Inl (PyError ''TypeError'') | Some v \<Rightarrow> Inr (f, v))
          (map fst ?fs) = Inr ?fs"
    unfolding mapE_Inr_iff list_all2_map1 list_all2_same
    by (auto simp: map_of_is_SomeI [OF d])
  then show ?thesis
    unfolding from_body_def Let_def to_body_def g keys by simp
qed

lemma from_body_missing:
  assumes "f \<in> set (class_fields cls)" "map_of body f = None"
  shows "from_body cls body = Inl (PyError ''TypeError'')"
proof -
  let ?g = "\<lambda>f. case map_of (filter (\<lambda>(k, v). k \<in> set (class_fields cls)) body) f of
              None \<Rightarrow> Inl (PyError ''TypeError'') | Some v \<Rightarrow> Inr (f, v)"
  have "?g f = Inl (PyError ''TypeError'')" using assms by (simp add: map_of_filter_key)
  then obtain e where e: "mapE ?g (class_fields cls) = Inl e"
    using mapE_error [OF assms(1), of ?g] by blast
  then have "e = PyError ''TypeError''" by (auto dest!: mapE_Inl split: option.splits)
  with e show ?thesis by (simp add: from_body_def)
qed

section \<open>Destinations\<close>

record message_destination =
  exchange :: string
  routing_key :: string

type_synonym destination_registry = "message_destination dict"

definition register_destination ::
  "message_class \<Rightarrow> message_destination \<Rightarrow> destination_registry \<Rightarrow> destination_registry" where
  "register_destination cls d reg = dict_set (message_type cls) d reg"

definition destination_for :: "destination_registry \<Rightarrow> string \<Rightarrow> message_destination res" where
  "destination_for reg ty =
     (case map_of reg ty of
        None \<Rightarrow> Inl (bus_exc UnknownMessageDestinationError)
      | Some d \<Rightarrow> Inr d)"

definition registered_types :: "destination_registry \<Rightarrow> string list" where
  "registered_types reg = sort (map fst reg)"

lemma destination_for_register:
  "destination_for (register_destination cls d reg) ty =
   (if ty = message_type cls then Inr d else destination_for reg ty)"
  by (simp add: destination_for_def register_destination_def)

section \<open>The envelope\<close>

definition REDELIVERY_COUNT_HEADER :: string where
  "REDELIVERY_COUNT_HEADER = ''redelivery_count''"

definition RETRY_ENDPOINT_HEADER :: string where
  "RETRY_ENDPOINT_HEADER = ''retry_endpoint''"

definition EXCEPTION_DETAILS_HEADER :: string where
  "EXCEPTION_DETAILS_HEADER = ''exception_details''"

definition ENDPOINT_HEADER :: string where
  "ENDPOINT_HEADER = ''endpoint''"

record message_envelope =
  env_message_id :: uuid
  env_message_type :: string
  env_body :: "pyval dict"
  env_headers :: "pyval dict"

text \<open>
  \<open>int(headers.get(...) or 0)\<close>: \<open>TypeError\<close> and \<open>ValueError\<close> count as zero; any
  other exception of \<open>int\<close> (\<open>OverflowError\<close>, of an infinite float) is raised.
\<close>

definition read_redelivery_count :: "pyval dict \<Rightarrow> int res" where
  "read_redelivery_count headers =
     (let v = dict_get REDELIVERY_COUNT_HEADER (PInt 0) headers;
          v' = (if truthy v then v else PInt 0)
      in case py_int v' of
           Inr i \<Rightarrow> Inr i
         | Inl e \<Rightarrow> if e = ''TypeError'' \<or> e = ''ValueError'' then Inr 0 else Inl (PyError e))"

definition redelivery_count :: "message_envelope \<Rightarrow> int res" where
  "redelivery_count env = read_redelivery_count (env_headers env)"

lemma read_redelivery_count_set [simp]:
  "read_redelivery_count (dict_set REDELIVERY_COUNT_HEADER (PInt i) headers) = Inr i"
  by (simp add: read_redelivery_count_def Let_def dict_get_set)

lemma read_redelivery_count_absent:
  "map_of headers REDELIVERY_COUNT_HEADER = None \<Longrightarrow> read_redelivery_count headers = Inr 0"
  by (simp add: read_redelivery_count_def Let_def dict_get_def)

lemma read_redelivery_count_other:
  "k \<noteq> REDELIVERY_COUNT_HEADER \<Longrightarrow>
   read_redelivery_count (dict_set k v headers) = read_redelivery_count headers"
  by (simp add: read_redelivery_count_def Let_def dict_get_set)

section \<open>Subscribers\<close>

text \<open>
  A handler class: its identity, the message type it declares and the \<open>handler_name\<close>
  that \<open>__init_subclass__\<close> defaults to the class name.
\<close>

record handler_class =
  hc_class :: string
  hc_message_type :: string
  handler_name :: string

definition init_handler_class :: "string \<Rightarrow> string \<Rightarrow> string \<Rightarrow> handler_class" where
  "init_handler_class cls ty declared =
     \<lparr>hc_class = cls, hc_message_type = ty,
      handler_name = (if declared = [] then cls else declared)\<rparr>"

type_synonym handler_registry = "handler_class list dict"

definition register_handler :: "handler_class \<Rightarrow> handler_registry \<Rightarrow> handler_registry" where
  "register_handler h reg =
     (let subscribers = dict_get (hc_message_type h) [] reg in
      if h \<in> set subscribers then dict_set (hc_message_type h) subscribers reg
      else dict_set (hc_message_type h) (subscribers @ [h]) reg)"

definition register_all :: "handler_class list \<Rightarrow> handler_registry \<Rightarrow> handler_registry" where
  "register_all hs reg = fold register_handler hs reg"

definition handlers_for :: "handler_registry \<Rightarrow> string \<Rightarrow> handler_class list" where
  "handlers_for reg ty = dict_get ty [] reg"

definition subscribed_types :: "handler_registry \<Rightarrow> string list" where
  "subscribed_types reg = sort (map fst reg)"

text \<open>
  A registry built by \<open>register\<close>: a type has at least one subscriber, each once, and all
  declare that type.
\<close>

definition wf_handlers :: "handler_registry \<Rightarrow> bool" where
  "wf_handlers reg \<longleftrightarrow>
     list_all (\<lambda>(ty, hs). hs \<noteq> [] \<and> distinct hs \<and> list_all (\<lambda>h. hc_message_type h = ty) hs) reg"

lemma wf_handlers_Nil [simp]: "wf_handlers []"
  by (simp add: wf_handlers_def)

lemma list_all_dict_set:
  "list_all P m \<Longrightarrow> P (k, v) \<Longrightarrow> list_all P (dict_set k v m)"
  by (induction m) auto

lemma handlers_for_wf:
  "wf_handlers reg \<Longrightarrow>
   distinct (handlers_for reg ty) \<and> list_all (\<lambda>h. hc_message_type h = ty) (handlers_for reg ty)"
  by (auto simp: wf_handlers_def handlers_for_def dict_get_def list_all_iff split: option.splits
      dest!: map_of_SomeD)

lemma handlers_for_register:
  "handlers_for (register_handler h reg) ty =
   (if ty = hc_message_type h \<and> h \<notin> set (handlers_for reg ty) then handlers_for reg ty @ [h]
    else handlers_for reg ty)"
  by (auto simp: register_handler_def handlers_for_def Let_def dict_get_set)

lemma register_handler_wf: "wf_handlers reg \<Longrightarrow> wf_handlers (register_handler h reg)"
  using handlers_for_wf [of reg "hc_message_type h"]
  by (auto simp: register_handler_def Let_def handlers_for_def wf_handlers_def
      intro!: list_all_dict_set)

lemma register_all_wf: "wf_handlers reg \<Longrightarrow> wf_handlers (register_all hs reg)"
  unfolding register_all_def by (induction hs arbitrary: reg) (auto simp: register_handler_wf)

lemma keys_dict_set: "set (map fst (dict_set k v m)) = insert k (set (map fst m))"
  by (induction m) auto

lemma subscribed_types_register:
  "set (subscribed_types (register_handler h reg)) = insert (hc_message_type h) (set (subscribed_types reg))"
  by (auto simp: subscribed_types_def register_handler_def Let_def keys_dict_set simp del: set_map)

lemma register_all_handlers:
  "set (handlers_for (register_all hs reg) ty) =
   set (handlers_for reg ty) \<union> {h \<in> set hs. hc_message_type h = ty}"
  unfolding register_all_def
  by (induction hs arbitrary: reg) (auto simp: handlers_for_register)

lemma subscribed_iff_handlers:
  assumes "wf_handlers reg"
  shows "ty \<in> set (subscribed_types reg) \<longleftrightarrow> handlers_for reg ty \<noteq> []"
proof (cases "map_of reg ty")
  case None
  then have "ty \<notin> fst ` set reg" by (simp add: map_of_eq_None_iff)
  with None show ?thesis by (simp add: subscribed_types_def handlers_for_def dict_get_def)
next
  case (Some hs)
  then have "(ty, hs) \<in> set reg" by (rule map_of_SomeD)
  then show ?thesis using assms Some
    by (force simp: subscribed_types_def handlers_for_def dict_get_def wf_handlers_def list_all_iff)
qed

section \<open>Properties\<close>

text \<open>
  A message survives the wire: the body of a message, with any keys a newer producer
  added, rebuilds the same message; a body that lacks a declared field is refused.
\<close>

theorem message_round_trip:
  assumes "wf_message m" "\<And>k. k \<in> set (class_fields (msg_class m)) \<Longrightarrow> map_of extra k = None"
  shows "from_body (msg_class m) (to_body m @ extra) = Inr m
    \<and> (\<forall>f \<in> set (class_fields (msg_class m)).
         from_body (msg_class m) (filter (\<lambda>(k, v). k \<noteq> f) (to_body m)) = Inl (PyError ''TypeError''))"
proof
  have "from_body (msg_class m) (to_body m @ extra) = from_body (msg_class m) (to_body m)"
    by (rule from_body_known) (simp add: map_of_append map_add_def assms(2) split: option.splits)
  then show "from_body (msg_class m) (to_body m @ extra) = Inr m"
    using from_body_to_body [OF assms(1)] by simp
  have "map_of (filter (\<lambda>(k, v). k \<noteq> f) b) f = None" for f and b :: "pyval dict"
    by (induction b) auto
  then show "\<forall>f \<in> set (class_fields (msg_class m)).
         from_body (msg_class m) (filter (\<lambda>(k, v). k \<noteq> f) (to_body m)) = Inl (PyError ''TypeError'')"
    using from_body_missing by blast
qed

lemma message_round_trip_witness:
  "from_body (init_message_class ''Ping'' [] [''a''])
     [(''a'', PInt 1), (''b'', PInt 2)] = Inr \<lparr>msg_class = init_message_class ''Ping'' [] [''a''], msg_fields = [(''a'', PInt 1)]\<rparr>"
proof -
  let ?m = "\<lparr>msg_class = init_message_class ''Ping'' [] [''a''], msg_fields = [(''a'', PInt 1)]\<rparr>"
  have w: "wf_message ?m" by (simp add: wf_message_def init_message_class_def)
  have e: "map_of [(''b'', PInt 2)] k = None" if "k \<in> set (class_fields (msg_class ?m))" for k
    using that by (simp add: init_message_class_def)
  show ?thesis using message_round_trip [OF w e] by (simp add: to_body_def)
qed

text \<open>
  Registering handlers, in any order and any number of times, leaves every type with
  each of its subscribers exactly once, all declaring that type; a type is subscribed exactly
  when it has a handler to run.
\<close>

theorem handler_registration:
  "distinct (handlers_for (register_all hs []) ty)
   \<and> set (handlers_for (register_all hs []) ty) = {h \<in> set hs. hc_message_type h = ty}
   \<and> (ty \<in> set (subscribed_types (register_all hs [])) \<longleftrightarrow> handlers_for (register_all hs []) ty \<noteq> [])"
proof -
  have wf: "wf_handlers (register_all hs [])" by (rule register_all_wf) simp
  show ?thesis
    using handlers_for_wf [OF wf] subscribed_iff_handlers [OF wf] register_all_handlers [of hs "[]" ty]
    by (simp add: handlers_for_def [of "[]"] dict_get_def)
qed

end
