(* ===== verification/Shipment_Aggregate.thy ===== *)
theory Shipment_Aggregate
  imports Shipment_Values Bus_Messages
begin

text \<open>
  The Shipment aggregate (\<open>modules/shipment/src/domain/shipment.py\<close>): its status and its
  three operations, the integration event of \<open>finalize_manifest\<close>, the life of a shipment as
  a step relation over its successful operations, and the invariant the operations keep.
\<close>

section \<open>Status\<close>

datatype tracking_status =
    DRAFT
  | READY_FOR_MANIFEST
  | AWAITING_CUSTOMS_RELEASE
  | IN_TRANSIT
  | DELIVERED
  | EXCEPTION_HELD

fun tracking_status_value :: "tracking_status \<Rightarrow> string" where
  "tracking_status_value DRAFT = ''Draft''"
| "tracking_status_value READY_FOR_MANIFEST = ''ReadyForManifest''"
| "tracking_status_value AWAITING_CUSTOMS_RELEASE = ''AwaitingCustomsRelease''"
| "tracking_status_value IN_TRANSIT = ''InTransit''"
| "tracking_status_value DELIVERED = ''Delivered''"
| "tracking_status_value EXCEPTION_HELD = ''ExceptionHeld''"

definition all_tracking_statuses :: "tracking_status list" where
  "all_tracking_statuses =
     [DRAFT, READY_FOR_MANIFEST, AWAITING_CUSTOMS_RELEASE, IN_TRANSIT, DELIVERED, EXCEPTION_HELD]"

text \<open>\<open>TrackingStatus(value)\<close>, the member with a value.\<close>

definition tracking_status_of :: "string \<Rightarrow> tracking_status option" where
  "tracking_status_of v = find (\<lambda>s. tracking_status_value s = v) all_tracking_statuses"

definition ROUTE_LOCKED_STATUSES :: "tracking_status set" where
  "ROUTE_LOCKED_STATUSES = {AWAITING_CUSTOMS_RELEASE, IN_TRANSIT, DELIVERED}"

lemma tracking_status_complete: "s \<in> set all_tracking_statuses"
  by (cases s) (simp_all add: all_tracking_statuses_def)

lemma tracking_status_of_value [simp]: "tracking_status_of (tracking_status_value s) = Some s"
  by (cases s) (simp_all add: tracking_status_of_def all_tracking_statuses_def)

lemma tracking_status_length: "length (tracking_status_value s) \<le> 32"
  by (cases s) simp_all

lemma tracking_status_of_Some: "tracking_status_of v = Some s \<Longrightarrow> v = tracking_status_value s"
  by (auto simp: tracking_status_of_def find_Some_iff)

section \<open>The aggregate\<close>

record shipment =
  sh_id :: shipment_id
  sh_waybill :: waybill_number
  sh_route :: shipment_route
  sh_status :: tracking_status
  sh_manifest :: "cargo_manifest option"
  sh_exception_reason :: "string option"

text \<open>The event class; the message type is the class name.\<close>

definition ShipmentManifestFinalized :: message_class where
  "ShipmentManifestFinalized =
     init_message_class ''ShipmentManifestFinalized'' []
       [''shipment_id'', ''waybill_number'', ''commodity_code'']"

text \<open>\<open>Shipment.create\<close>: the route is built from the two raw port codes, with no legs.\<close>

definition create :: "shipment_id \<Rightarrow> waybill_number \<Rightarrow> pyval \<Rightarrow> pyval \<Rightarrow> shipment res" where
  "create shipment_id waybill origin destination =
     bindE (mk_shipment_route origin destination (PList [])) (\<lambda>route.
     Inr \<lparr>sh_id = shipment_id, sh_waybill = waybill, sh_route = route, sh_status = DRAFT,
          sh_manifest = None, sh_exception_reason = None\<rparr>)"

definition assign_route :: "shipment_route \<Rightarrow> shipment \<Rightarrow> shipment res" where
  "assign_route new_route s =
     (if sh_status s \<in> ROUTE_LOCKED_STATUSES then Inl (shipment_exc RouteNotModifiableError)
      else Inr (s\<lparr>sh_route := new_route\<rparr>))"

definition finalize_manifest ::
  "cargo_manifest \<Rightarrow> shipment \<Rightarrow> (shipment \<times> integration_message) res" where
  "finalize_manifest manifest s =
     (if sh_status s \<noteq> DRAFT then Inl (shipment_exc ManifestNotFinalizableError)
      else if float_le0 (total_weight_kg manifest)
      then Inl (shipment_exc InvalidCargoManifestError)
      else
        bindE (new_message ShipmentManifestFinalized
                 [PStr (str_shipment_id (sh_id s)), PStr (waybill_value (sh_waybill s)),
                  PStr (commodity_code manifest)]) (\<lambda>event.
        Inr (s\<lparr>sh_manifest := Some manifest, sh_status := READY_FOR_MANIFEST\<rparr>, event)))"

text \<open>The event a shipment announces: identity, waybill and commodity as text.\<close>

definition finalized_event :: "shipment \<Rightarrow> cargo_manifest \<Rightarrow> integration_message" where
  "finalized_event s m =
     \<lparr>msg_class = ShipmentManifestFinalized,
      msg_fields = [(''shipment_id'', PStr (str_shipment_id (sh_id s))),
                    (''waybill_number'', PStr (waybill_value (sh_waybill s))),
                    (''commodity_code'', PStr (commodity_code m))]\<rparr>"

lemma finalize_manifest_Inr:
  "finalize_manifest m s = Inr (s', ev) \<longleftrightarrow>
   sh_status s = DRAFT \<and> \<not> float_le0 (total_weight_kg m)
   \<and> s' = s\<lparr>sh_manifest := Some m, sh_status := READY_FOR_MANIFEST\<rparr> \<and> ev = finalized_event s m"
  by (auto simp: finalize_manifest_def new_message_def ShipmentManifestFinalized_def
      init_message_class_def finalized_event_def)

lemma finalize_manifest_Inl:
  "finalize_manifest m s = Inl e \<longleftrightarrow>
   (sh_status s \<noteq> DRAFT \<and> e = shipment_exc ManifestNotFinalizableError)
   \<or> (sh_status s = DRAFT \<and> float_le0 (total_weight_kg m) \<and> e = shipment_exc InvalidCargoManifestError)"
  by (auto simp: finalize_manifest_def new_message_def ShipmentManifestFinalized_def
      init_message_class_def)

lemma assign_route_Inr:
  "assign_route r s = Inr s' \<longleftrightarrow> sh_status s \<notin> ROUTE_LOCKED_STATUSES \<and> s' = s\<lparr>sh_route := r\<rparr>"
  by (auto simp: assign_route_def)

lemma assign_route_Inl:
  "assign_route r s = Inl e \<longleftrightarrow>
   sh_status s \<in> ROUTE_LOCKED_STATUSES \<and> e = shipment_exc RouteNotModifiableError"
  by (auto simp: assign_route_def)

section \<open>The invariant\<close>

text \<open>
  A shipment with well-formed parts; a draft has no manifest, and a shipment that is ready
  for its manifest has one that weighs more than nothing.
\<close>

definition shipment_inv :: "shipment \<Rightarrow> bool" where
  "shipment_inv s \<longleftrightarrow>
     wf_waybill (sh_waybill s) \<and> wf_route (sh_route s)
     \<and> (case sh_manifest s of None \<Rightarrow> sh_status s = DRAFT
        | Some m \<Rightarrow> sh_status s \<noteq> DRAFT \<and> wf_manifest m \<and> \<not> float_le0 (total_weight_kg m))"

lemma create_inv:
  "create i w origin dest = Inr s \<Longrightarrow> wf_waybill w \<Longrightarrow>
   shipment_inv s \<and> sh_status s = DRAFT \<and> sh_id s = i \<and> sh_waybill s = w
   \<and> transit_legs (sh_route s) = []"
  by (auto simp: create_def shipment_inv_def bindE_Inr_iff dest: mk_shipment_route_wf)
    (auto simp: mk_shipment_route_def legs_of_def bindE_Inr_iff split: if_splits)

lemma assign_route_inv:
  "assign_route r s = Inr s' \<Longrightarrow> shipment_inv s \<Longrightarrow> wf_route r \<Longrightarrow> shipment_inv s'"
  by (auto simp: assign_route_Inr shipment_inv_def split: option.splits)

lemma finalize_manifest_inv:
  "finalize_manifest m s = Inr (s', ev) \<Longrightarrow> shipment_inv s \<Longrightarrow> wf_manifest m \<Longrightarrow> shipment_inv s'"
  by (auto simp: finalize_manifest_Inr shipment_inv_def)

section \<open>The life of a shipment\<close>

datatype shipment_op = AssignRoute shipment_route | FinalizeManifest cargo_manifest

text \<open>One operation: the shipment after it and the events it returned.\<close>

fun apply_op :: "shipment_op \<Rightarrow> shipment \<Rightarrow> (shipment \<times> integration_message list) res" where
  "apply_op (AssignRoute r) s = bindE (assign_route r s) (\<lambda>s'. Inr (s', []))"
| "apply_op (FinalizeManifest m) s = bindE (finalize_manifest m s) (\<lambda>(s', ev). Inr (s', [ev]))"

fun wf_op :: "shipment_op \<Rightarrow> bool" where
  "wf_op (AssignRoute r) = wf_route r"
| "wf_op (FinalizeManifest m) = wf_manifest m"

text \<open>A history of requests: one that raises leaves the shipment as it was.\<close>

fun run_ops :: "shipment_op list \<Rightarrow> shipment \<Rightarrow> shipment \<times> integration_message list" where
  "run_ops [] s = (s, [])"
| "run_ops (op # ops) s =
     (case apply_op op s of
        Inl e \<Rightarrow> run_ops ops s
      | Inr (s', evs) \<Rightarrow> (let (s'', evs') = run_ops ops s' in (s'', evs @ evs')))"

inductive shipment_step :: "shipment \<Rightarrow> shipment_op \<Rightarrow> integration_message list \<Rightarrow> shipment \<Rightarrow> bool" where
  step_assign: "assign_route r s = Inr s' \<Longrightarrow> shipment_step s (AssignRoute r) [] s'"
| step_finalize: "finalize_manifest m s = Inr (s', ev) \<Longrightarrow> shipment_step s (FinalizeManifest m) [ev] s'"

inductive_cases step_assignE [elim]: "shipment_step s (AssignRoute r) evs s'"
inductive_cases step_finalizeE [elim]: "shipment_step s (FinalizeManifest m) evs s'"
inductive_simps shipment_step_simps [simp]:
  "shipment_step s (AssignRoute r) evs s'"
  "shipment_step s (FinalizeManifest m) evs s'"

text \<open>The shipments reachable from a draft, with the events announced on the way.\<close>

inductive shipment_reachable :: "shipment \<Rightarrow> integration_message list \<Rightarrow> shipment \<Rightarrow> bool"
  for s0 :: shipment where
  reach_refl: "shipment_reachable s0 [] s0"
| reach_step: "shipment_reachable s0 evs s \<Longrightarrow> wf_op op \<Longrightarrow> shipment_step s op evs' s' \<Longrightarrow>
     shipment_reachable s0 (evs @ evs') s'"

lemma apply_op_step: "apply_op op s = Inr (s', evs) \<longleftrightarrow> shipment_step s op evs s'"
  by (cases op) (auto simp: bindE_Inr_iff)

lemma apply_op_inv: "apply_op op s = Inr (s', evs) \<Longrightarrow> wf_op op \<Longrightarrow> shipment_inv s \<Longrightarrow> shipment_inv s'"
  by (cases op) (auto simp: bindE_Inr_iff assign_route_inv finalize_manifest_inv)

lemma apply_op_frame:
  "apply_op op s = Inr (s', evs) \<Longrightarrow>
   sh_id s' = sh_id s \<and> sh_waybill s' = sh_waybill s \<and> sh_exception_reason s' = sh_exception_reason s"
  by (cases op) (auto simp: bindE_Inr_iff assign_route_Inr finalize_manifest_Inr)

lemma reachable_inv:
  "shipment_reachable s0 evs s \<Longrightarrow> shipment_inv s0 \<Longrightarrow> shipment_inv s"
  by (induction rule: shipment_reachable.induct) (auto simp: apply_op_step [symmetric] apply_op_inv)

lemma reachable_frame:
  "shipment_reachable s0 evs s \<Longrightarrow> sh_id s = sh_id s0 \<and> sh_waybill s = sh_waybill s0
   \<and> sh_exception_reason s = sh_exception_reason s0"
  by (induction rule: shipment_reachable.induct) (auto simp: apply_op_step [symmetric] dest: apply_op_frame)

text \<open>From a draft: either nothing was announced and it still is one, or exactly the event
  of its manifest was.\<close>

lemma reachable_events:
  "shipment_reachable s0 evs s \<Longrightarrow> sh_status s0 = DRAFT \<Longrightarrow>
   (sh_status s = DRAFT \<and> evs = [] \<and> sh_manifest s = sh_manifest s0)
   \<or> (sh_status s = READY_FOR_MANIFEST \<and> (\<exists>m. sh_manifest s = Some m \<and> evs = [finalized_event s0 m]))"
proof (induction rule: shipment_reachable.induct)
  case reach_refl
  then show ?case by simp
next
  case (reach_step evs s op evs' s')
  note frame = reachable_frame [OF reach_step.hyps(1)]
  show ?case
  proof (cases op)
    case (AssignRoute r)
    then show ?thesis using reach_step by (auto simp: assign_route_Inr)
  next
    case (FinalizeManifest m)
    then show ?thesis using reach_step frame
      by (auto simp: finalize_manifest_Inr finalized_event_def)
  qed
qed

lemma run_ops_reachable:
  "list_all wf_op ops \<Longrightarrow> shipment_reachable s0 evs s \<Longrightarrow> run_ops ops s = (s', evs') \<Longrightarrow>
   shipment_reachable s0 (evs @ evs') s'"
proof (induction ops arbitrary: s evs evs')
  case Nil
  then show ?case by simp
next
  case (Cons op ops)
  show ?case
  proof (cases "apply_op op s")
    case (Inl e)
    then show ?thesis using Cons by simp
  next
    case (Inr r)
    obtain s1 evs1 where r: "r = (s1, evs1)" by (cases r)
    obtain evs2 where rest: "run_ops ops s1 = (s', evs2)" and evs': "evs' = evs1 @ evs2"
      using Cons.prems(3) Inr r by (auto split: prod.splits)
    have "shipment_reachable s0 (evs @ evs1) s1"
      using Cons.prems Inr r by (auto intro: reach_step simp: apply_op_step)
    from Cons.IH [OF _ this rest] show ?thesis using Cons.prems(1) evs' by simp
  qed
qed

section \<open>Properties\<close>

text \<open>
  C4. Whatever sequence of route and manifest requests a freshly created draft receives,
  failing ones included, the shipment keeps its identity, its waybill number and its
  invariant, and it announces \<open>ShipmentManifestFinalized\<close> exactly when its manifest was
  finalized: never for a draft, once otherwise, with the identity, waybill and commodity of
  the manifest it now carries.
\<close>

theorem shipment_history:
  assumes "create i w origin dest = Inr s0" "wf_waybill w" "list_all wf_op ops"
    and "run_ops ops s0 = (s, evs)"
  shows "shipment_inv s \<and> sh_id s = i \<and> sh_waybill s = w
    \<and> ((sh_status s = DRAFT \<and> sh_manifest s = None \<and> evs = [])
       \<or> (sh_status s = READY_FOR_MANIFEST
          \<and> (\<exists>m. sh_manifest s = Some m \<and> \<not> float_le0 (total_weight_kg m) \<and> evs = [finalized_event s m])))"
proof -
  note s0 = create_inv [OF assms(1,2)]
  have reach: "shipment_reachable s0 evs s"
    using run_ops_reachable [OF assms(3) reach_refl assms(4)] by simp
  have inv: "shipment_inv s" using reachable_inv [OF reach] s0 by blast
  have frame: "sh_id s = i" "sh_waybill s = w" using reachable_frame [OF reach] s0 by auto
  show ?thesis
    using reachable_events [OF reach] s0 inv frame
    by (auto simp: shipment_inv_def finalized_event_def split: option.splits)
qed

lemma shipment_history_witness:
  "\<exists>s0 s evs. create (ShipmentId 7) (WaybillNumber ''MUST-0000042'') (PStr ''esvlc'') (PStr ''USNYC'') = Inr s0
     \<and> run_ops [FinalizeManifest \<lparr>total_weight_kg = Fin 0, total_volume_cbm = Fin 1, commodity_code = ''8471''\<rparr>,
                FinalizeManifest \<lparr>total_weight_kg = Fin 10, total_volume_cbm = Fin 1, commodity_code = ''8471''\<rparr>,
                FinalizeManifest \<lparr>total_weight_kg = Fin 20, total_volume_cbm = Fin 1, commodity_code = ''8471''\<rparr>] s0 = (s, evs)
     \<and> length evs = 1 \<and> shipment_inv s"
proof -
  let ?m = "\<lambda>w. \<lparr>total_weight_kg = Fin w, total_volume_cbm = Fin 1, commodity_code = ''8471''\<rparr>"
  let ?ops = "[FinalizeManifest (?m 0), FinalizeManifest (?m 10), FinalizeManifest (?m 20)]"
  let ?r = "\<lparr>origin_port_code = ''ESVLC'', destination_port_code = ''USNYC'', transit_legs = []\<rparr>"
  let ?s0 = "\<lparr>sh_id = ShipmentId 7, sh_waybill = WaybillNumber ''MUST-0000042'', sh_route = ?r,
               sh_status = DRAFT, sh_manifest = None, sh_exception_reason = None\<rparr>"
  have w: "wf_waybill (WaybillNumber ''MUST-0000042'')" by code_simp
  have r: "mk_shipment_route (PStr ''esvlc'') (PStr ''USNYC'') (PList []) = Inr ?r" by code_simp
  then have c: "create (ShipmentId 7) (WaybillNumber ''MUST-0000042'') (PStr ''esvlc'') (PStr ''USNYC'') = Inr ?s0"
    by (simp add: create_def)
  have wf: "wf_manifest (?m 0)" "wf_manifest (?m 10)" "wf_manifest (?m 20)" by code_simp+
  obtain s evs where run: "run_ops ?ops ?s0 = (s, evs)" by (cases "run_ops ?ops ?s0")
  have "length evs = 1"
    using run by (auto simp: finalize_manifest_def new_message_def ShipmentManifestFinalized_def
        init_message_class_def)
  moreover have "shipment_inv s"
    using shipment_history [OF c w _ run] wf by simp
  ultimately show ?thesis using c run by blast
qed

text \<open>
  Once customs or the carrier have taken over (awaiting release, in transit, delivered)
  no sequence of requests changes a shipment or announces anything.
\<close>

theorem locked_shipment_frozen:
  assumes "sh_status s \<in> ROUTE_LOCKED_STATUSES"
  shows "run_ops ops s = (s, [])"
  using assms
proof (induction ops)
  case Nil
  then show ?case by simp
next
  case (Cons op ops)
  have "sh_status s \<noteq> DRAFT" using Cons.prems by (auto simp: ROUTE_LOCKED_STATUSES_def)
  then have "\<exists>e. apply_op op s = Inl e"
    using Cons.prems by (cases op) (auto simp: assign_route_def finalize_manifest_def)
  with Cons show ?case by auto
qed

lemma locked_shipment_frozen_witness:
  "\<exists>s. sh_status s = IN_TRANSIT \<and>
     run_ops [AssignRoute \<lparr>origin_port_code = ''ESVLC'', destination_port_code = ''USNYC'', transit_legs = []\<rparr>] s = (s, [])"
proof -
  let ?r = "\<lparr>origin_port_code = ''ESVLC'', destination_port_code = ''USNYC'', transit_legs = []\<rparr>"
  let ?s = "\<lparr>sh_id = ShipmentId 7, sh_waybill = WaybillNumber ''MUST-0000042'', sh_route = ?r,
               sh_status = IN_TRANSIT, sh_manifest = None, sh_exception_reason = None\<rparr>"
  have "sh_status ?s \<in> ROUTE_LOCKED_STATUSES" by (simp add: ROUTE_LOCKED_STATUSES_def)
  then show ?thesis using locked_shipment_frozen [of ?s] by (intro exI [of _ ?s]) simp
qed

end
