(* ===== verification/Bus_Outbox.thy ===== *)
theory Bus_Outbox
  imports Bus_Messages Persistence "HOL-Library.Sublist" "HOL-Library.Multiset"
begin

text \<open>
  The transactional outbox (\<open>modules/shared/message_bus/outbox\<close>): the row, the repository
  that schedules messages and reads the pending batch, and the relay behind
  \<open>dispatch-messages\<close>. Time is an integer, the clock and \<open>uuid4()\<close> are arguments.
  The relay publishes through the locale \<open>publisher\<close>, which the broker connection provides.
\<close>

section \<open>Rows\<close>

datatype outbox_status = PENDING | SENT

fun outbox_status_value :: "outbox_status \<Rightarrow> string" where
  "outbox_status_value PENDING = ''Pending''"
| "outbox_status_value SENT = ''Sent''"

record outbox_message =
  ob_message_id :: uuid
  ob_message_type :: string
  ob_exchange :: string
  ob_routing_key :: string
  ob_body :: "pyval dict"
  ob_headers :: "pyval dict"
  ob_properties :: "pyval dict"
  ob_status :: outbox_status
  ob_sent_at :: "int option"
  ob_created_at :: int

text \<open>The constructor: \<open>headers or {}\<close>, \<open>properties or {}\<close>, pending and not sent.\<close>

definition init_outbox_message ::
  "uuid \<Rightarrow> string \<Rightarrow> string \<Rightarrow> string \<Rightarrow> pyval dict \<Rightarrow> pyval dict option \<Rightarrow> int \<Rightarrow> outbox_message" where
  "init_outbox_message mid ty ex key body headers created =
     \<lparr>ob_message_id = mid, ob_message_type = ty, ob_exchange = ex, ob_routing_key = key,
      ob_body = body, ob_headers = (case headers of None \<Rightarrow> [] | Some h \<Rightarrow> h), ob_properties = [],
      ob_status = PENDING, ob_sent_at = None, ob_created_at = created\<rparr>"

text \<open>
  \<open>OutboxMessage.schedule\<close>: \<open>fresh\<close> is the identifier \<open>uuid4()\<close> draws when the caller
  gives none, \<open>now\<close> the transaction time the database writes to \<open>created_at\<close>.
\<close>

definition schedule_row ::
  "uuid \<Rightarrow> int \<Rightarrow> integration_message \<Rightarrow> message_destination \<Rightarrow> pyval dict option \<Rightarrow> uuid option \<Rightarrow>
   outbox_message" where
  "schedule_row fresh now m d headers mid =
     init_outbox_message (case mid of None \<Rightarrow> fresh | Some i \<Rightarrow> i) (message_type (msg_class m))
       (exchange d) (routing_key d) (to_body m) headers now"

definition mark_as_sent :: "int \<Rightarrow> outbox_message \<Rightarrow> outbox_message" where
  "mark_as_sent now r = r\<lparr>ob_status := SENT, ob_sent_at := Some now\<rparr>"

definition is_sent :: "outbox_message \<Rightarrow> bool" where
  "is_sent r \<longleftrightarrow> ob_status r = SENT"

section \<open>The repository\<close>

text \<open>
  The flush of a new row: the string columns hold 255 characters, and the message
  identifier is unique.
\<close>

definition insert_outbox :: "outbox_message \<Rightarrow> outbox_message list \<Rightarrow> outbox_message list res" where
  "insert_outbox r rows =
     (if \<not> list_all (column_text 255) [ob_message_type r, ob_exchange r, ob_routing_key r]
      then Inl (PyError ''DBAPIError'')
      else if list_ex (\<lambda>x. ob_message_id x = ob_message_id r) rows
      then Inl (IntegrityError ''uq_outbox_messages_message_id'')
      else Inr (rows @ [r]))"

definition outbox_schedule ::
  "destination_registry \<Rightarrow> uuid \<Rightarrow> int \<Rightarrow> pyval dict option \<Rightarrow> uuid option \<Rightarrow> integration_message \<Rightarrow>
   outbox_message list \<Rightarrow> (outbox_message \<times> outbox_message list) res" where
  "outbox_schedule dests fresh now headers mid m rows =
     bindE (destination_for dests (message_type (msg_class m))) (\<lambda>d.
     let r = schedule_row fresh now m d headers mid in
     bindE (insert_outbox r rows) (\<lambda>rows'. Inr (r, rows')))"

text \<open>
  \<open>find_pending\<close>: rows locked by another dispatcher are skipped; the database refuses a
  negative limit. Rows of one transaction time come in insertion order here, an order the
  \<open>ORDER BY\<close> leaves open.
\<close>

definition find_pending ::
  "uuid set \<Rightarrow> int \<Rightarrow> outbox_message list \<Rightarrow> outbox_message list res" where
  "find_pending locked limit rows =
     (if limit < 0 then Inl (PyError ''DBAPIError'')
      else Inr (take (nat limit) (sort_key ob_created_at
             (filter (\<lambda>r. ob_status r = PENDING \<and> ob_message_id r \<notin> locked) rows))))"

section \<open>The relay\<close>

text \<open>
  The loop: a row whose publication raises stays as it is, the others are marked. The
  broker is a state that \<open>publish\<close> changes.
\<close>

fun relay_rows ::
  "(outbox_message \<Rightarrow> 'b \<Rightarrow> exc option \<times> 'b) \<Rightarrow> int \<Rightarrow> outbox_message list \<Rightarrow> 'b \<Rightarrow>
   outbox_message list \<times> nat \<times> 'b" where
  "relay_rows publish now [] b = ([], 0, b)"
| "relay_rows publish now (r # rs) b =
     (case publish r b of
        (Some e, b') \<Rightarrow> (let (rs', n, b'') = relay_rows publish now rs b' in (r # rs', n, b''))
      | (None, b') \<Rightarrow>
          (let (rs', n, b'') = relay_rows publish now rs b'
           in (mark_as_sent now r # rs', Suc n, b'')))"

text \<open>The unit of work writes the changed rows back at commit.\<close>

definition write_back :: "outbox_message list \<Rightarrow> outbox_message list \<Rightarrow> outbox_message list" where
  "write_back changed rows =
     map (\<lambda>r. case find (\<lambda>u. ob_message_id u = ob_message_id r) changed of None \<Rightarrow> r | Some u \<Rightarrow> u) rows"

text \<open>
  \<open>dispatch\<close>: \<open>declare\<close> is \<open>declare_publisher_topology\<close> and \<open>commit\<close> the commit of
  the session, each with the exception it may raise. An exception of the commit leaves the
  table as it was; the broker has what was published.
\<close>

definition relay_dispatch ::
  "('b \<Rightarrow> exc option \<times> 'b) \<Rightarrow> (outbox_message \<Rightarrow> 'b \<Rightarrow> exc option \<times> 'b) \<Rightarrow>
   (outbox_message list \<Rightarrow> exc option) \<Rightarrow> int \<Rightarrow> uuid set \<Rightarrow> int \<Rightarrow> outbox_message list \<times> 'b \<Rightarrow>
   nat res \<times> outbox_message list \<times> 'b" where
  "relay_dispatch declare_topology publish commit now locked limit st =
     (case declare_topology (snd st) of
        (Some e, b) \<Rightarrow> (Inl e, fst st, b)
      | (None, b) \<Rightarrow>
          (case find_pending locked limit (fst st) of
             Inl e \<Rightarrow> (Inl e, fst st, b)
           | Inr pending \<Rightarrow>
               if pending = [] then (Inr 0, fst st, b)
               else (let (changed, n, b') = relay_rows publish now pending b;
                         rows' = write_back changed (fst st)
                     in case commit rows' of
                          None \<Rightarrow> (Inr n, rows', b')
                        | Some e \<Rightarrow> (Inl e, fst st, b'))))"

subsection \<open>Rows and batches\<close>

lemma insert_outbox_Inr:
  "insert_outbox r rows = Inr rows' \<Longrightarrow>
   rows' = rows @ [r] \<and> ob_message_id r \<notin> set (map ob_message_id rows)"
  by (auto simp: insert_outbox_def list_ex_iff split: if_splits)

lemma outbox_schedule_Inr:
  assumes "outbox_schedule dests fresh now headers mid m rows = Inr (r, rows')"
  shows "rows' = rows @ [r] \<and> ob_message_id r \<notin> set (map ob_message_id rows) \<and> ob_status r = PENDING
    \<and> ob_message_type r = message_type (msg_class m) \<and> ob_body r = to_body m
    \<and> ob_headers r = (case headers of None \<Rightarrow> [] | Some h \<Rightarrow> h)
    \<and> destination_for dests (message_type (msg_class m)) =
        Inr \<lparr>exchange = ob_exchange r, routing_key = ob_routing_key r\<rparr>"
proof -
  obtain d where d: "destination_for dests (message_type (msg_class m)) = Inr d"
    and r: "r = schedule_row fresh now m d headers mid" and i: "insert_outbox r rows = Inr rows'"
    using assms by (auto simp: outbox_schedule_def bindE_Inr_iff Let_def)
  then show ?thesis
    using insert_outbox_Inr [OF i] by (simp add: schedule_row_def init_outbox_message_def)
qed

lemma find_pending_set:
  "find_pending locked limit rows = Inr batch \<Longrightarrow>
   set batch \<subseteq> {r \<in> set rows. ob_status r = PENDING \<and> ob_message_id r \<notin> locked}"
  by (auto simp: find_pending_def split: if_splits dest!: in_set_takeD)

lemma find_pending_length: "find_pending locked limit rows = Inr batch \<Longrightarrow> int (length batch) \<le> limit"
  by (auto simp: find_pending_def split: if_splits)

lemma find_pending_sorted: "find_pending locked limit rows = Inr batch \<Longrightarrow> sorted (map ob_created_at batch)"
  by (auto simp: find_pending_def take_map [symmetric] sorted_wrt_take split: if_splits)

text \<open>No pending, unlocked row outside the batch is older than one in it.\<close>

lemma find_pending_oldest:
  assumes "find_pending locked limit rows = Inr batch" "r \<in> set rows" "ob_status r = PENDING"
    "ob_message_id r \<notin> locked" "r \<notin> set batch" "b \<in> set batch"
  shows "ob_created_at b \<le> ob_created_at r"
proof -
  let ?all = "sort_key ob_created_at
      (filter (\<lambda>r. ob_status r = PENDING \<and> ob_message_id r \<notin> locked) rows)"
  have batch: "batch = take (nat limit) ?all"
    using assms(1) by (auto simp: find_pending_def split: if_splits)
  obtain first rest where first_def: "first = take (nat limit) ?all" and rest_def: "rest = drop (nat limit) ?all"
    by blast
  have all: "?all = first @ rest" by (simp add: first_def rest_def)
  have "r \<in> set ?all" using assms(2-4) by simp
  moreover have "r \<notin> set first" using assms(5) by (simp only: batch first_def not_False_eq_True)
  ultimately have "r \<in> set rest" unfolding all by simp
  moreover have "b \<in> set first" using assms(6) by (simp only: batch first_def)
  moreover have "sorted (map ob_created_at (first @ rest))"
    unfolding all [symmetric] by (rule sorted_sort_key)
  ultimately show ?thesis by (simp add: sorted_append)
qed

lemma map_find_id:
  "distinct (map f xs) \<Longrightarrow> x \<in> set xs \<Longrightarrow> find (\<lambda>u. f u = f x) xs = Some x"
  by (induction xs) (auto simp: image_iff)

lemma find_absent: "c \<notin> f ` set xs \<Longrightarrow> find (\<lambda>u. f u = c) xs = None"
  by (induction xs) auto

lemma distinct_ids_batch:
  assumes "find_pending locked limit rows = Inr batch" "distinct (map ob_message_id rows)"
  shows "distinct (map ob_message_id batch)"
proof -
  have "distinct rows" "inj_on ob_message_id (set rows)"
    using assms(2) by (simp_all add: distinct_map)
  moreover have "distinct batch"
    using assms(1) \<open>distinct rows\<close>
    by (auto simp: find_pending_def distinct_sort split: if_splits)
  moreover have "set batch \<subseteq> set rows" using find_pending_set [OF assms(1)] by auto
  ultimately show ?thesis by (auto simp: distinct_map intro: inj_on_subset)
qed

lemma write_back_ids:
  "write_back changed rows = rows' \<Longrightarrow> map ob_message_id rows' = map ob_message_id rows"
  by (auto simp: write_back_def find_Some_iff split: option.splits)

lemma mark_as_sent_id [simp]: "ob_message_id (mark_as_sent now r) = ob_message_id r"
  and mark_as_sent_status [simp]: "ob_status (mark_as_sent now r) = SENT"
  by (simp_all add: mark_as_sent_def)

lemma relay_rows_changed:
  "relay_rows publish now rs b = (rs', n, b') \<Longrightarrow>
   list_all2 (\<lambda>r r'. r' = r \<or> r' = mark_as_sent now r) rs rs'"
  by (induction publish now rs b arbitrary: rs' n b' rule: relay_rows.induct)
    (auto split: prod.splits option.splits)

lemma changed_ids:
  "list_all2 (\<lambda>r r'. r' = r \<or> r' = mark_as_sent now r) rs rs' \<Longrightarrow>
   map ob_message_id rs' = map ob_message_id rs"
  by (induction rs rs' rule: list_all2_induct) auto

lemma find_changed:
  "list_all2 (\<lambda>r r'. r' = r \<or> r' = mark_as_sent now r) rs rs' \<Longrightarrow>
   distinct (map ob_message_id rs) \<Longrightarrow> (r, u) \<in> set (zip rs rs') \<Longrightarrow>
   find (\<lambda>x. ob_message_id x = ob_message_id r) rs' = Some u"
proof (induction rs rs' rule: list_all2_induct)
  case Nil
  then show ?case by simp
next
  case (Cons a as c cs)
  have head: "ob_message_id c = ob_message_id a" using Cons.hyps(1) by auto
  show ?case
  proof (cases "(r, u) = (a, c)")
    case True
    then show ?thesis using head by simp
  next
    case False
    then have z: "(r, u) \<in> set (zip as cs)" using Cons.prems(2) by auto
    then have "ob_message_id r \<noteq> ob_message_id a"
      using Cons.prems(1) by (metis distinct.simps(2) image_eqI list.simps(9) list.set_map set_zip_leftD)
    then show ?thesis using Cons.IH [OF _ z] Cons.prems(1) head by simp
  qed
qed

text \<open>The pairs of old and new rows of a batch that was written back.\<close>

lemma write_back_row:
  assumes c: "list_all2 (\<lambda>r r'. r' = r \<or> r' = mark_as_sent now r) batch changed"
    and d: "distinct (map ob_message_id rows)" and sub: "set batch \<subseteq> set rows"
    and db: "distinct (map ob_message_id batch)" and z: "(r, r') \<in> set (zip rows (write_back changed rows))"
  shows "(r \<in> set batch \<and> (r, r') \<in> set (zip batch changed)) \<or> (r \<notin> set batch \<and> r' = r)"
proof -
  have r: "r \<in> set rows"
    and r': "r' = (case find (\<lambda>u. ob_message_id u = ob_message_id r) changed of None \<Rightarrow> r | Some u \<Rightarrow> u)"
    using z by (auto simp: write_back_def zip_map2 zip_same_conv_map)
  show ?thesis
  proof (cases "r \<in> set batch")
    case True
    then obtain u where u: "(r, u) \<in> set (zip batch changed)"
      using c by (metis list_all2_lengthD in_set_impl_in_set_zip1)
    show ?thesis using True u find_changed [OF c db u] by (simp add: r')
  next
    case False
    then have "ob_message_id r \<notin> ob_message_id ` set batch"
      using d r sub by (auto simp: distinct_map inj_on_def)
    then have "ob_message_id r \<notin> ob_message_id ` set changed"
      using changed_ids [OF c] by (metis list.set_map)
    then show ?thesis using False by (simp add: r' find_absent)
  qed
qed

text \<open>The old rows whose new version is sent, in the order of the list.\<close>

definition sent_rows :: "outbox_message list \<Rightarrow> outbox_message list \<Rightarrow> outbox_message list" where
  "sent_rows rs rs' = map fst (filter (\<lambda>(r, r'). ob_status r = PENDING \<and> is_sent r') (zip rs rs'))"

lemma sent_rowsE:
  assumes "r \<in> set (sent_rows rs rs')"
  obtains r' where "(r, r') \<in> set (zip rs rs')" "ob_status r = PENDING" "is_sent r'"
  using assms by (auto simp: sent_rows_def)

lemma sent_rowsI:
  "(r, r') \<in> set (zip rs rs') \<Longrightarrow> ob_status r = PENDING \<Longrightarrow> is_sent r' \<Longrightarrow> r \<in> set (sent_rows rs rs')"
  by (force simp: sent_rows_def)

lemma sent_rows_distinct: "distinct rs \<Longrightarrow> length rs' = length rs \<Longrightarrow> distinct (sent_rows rs rs')"
  unfolding sent_rows_def by (rule distinct_map_filter) simp

definition pending_rows :: "outbox_message list \<Rightarrow> outbox_message list" where
  "pending_rows rows = filter (\<lambda>r. ob_status r = PENDING) rows"

text \<open>\<open>dispatch-messages\<close> run \<open>k\<close> times, one after the other.\<close>

fun relay_runs ::
  "('b \<Rightarrow> exc option \<times> 'b) \<Rightarrow> (outbox_message \<Rightarrow> 'b \<Rightarrow> exc option \<times> 'b) \<Rightarrow>
   (outbox_message list \<Rightarrow> exc option) \<Rightarrow> int \<Rightarrow> int \<Rightarrow> nat \<Rightarrow> outbox_message list \<times> 'b \<Rightarrow>
   outbox_message list \<times> 'b" where
  "relay_runs declare_topology publish commit now limit 0 st = st"
| "relay_runs declare_topology publish commit now limit (Suc k) st =
     relay_runs declare_topology publish commit now limit k
       (snd (relay_dispatch declare_topology publish commit now {} limit st))"

lemma write_back_marked:
  assumes "distinct (map ob_message_id rows)" "distinct (map ob_message_id batch)" "set batch \<subseteq> set rows"
  shows "write_back (map (mark_as_sent now) batch) rows =
     map (\<lambda>r. if r \<in> set batch then mark_as_sent now r else r) rows"
proof -
  have c: "list_all2 (\<lambda>r r'. r' = r \<or> r' = mark_as_sent now r) batch (map (mark_as_sent now) batch)"
    by (simp add: list_all2_map2 list_all2_same)
  have "(case find (\<lambda>u. ob_message_id u = ob_message_id r) (map (mark_as_sent now) batch) of
           None \<Rightarrow> r | Some u \<Rightarrow> u) = (if r \<in> set batch then mark_as_sent now r else r)"
    if r: "r \<in> set rows" for r
  proof (cases "r \<in> set batch")
    case True
    then have "(r, mark_as_sent now r) \<in> set (zip batch (map (mark_as_sent now) batch))"
      by (auto simp: zip_map2 zip_same_conv_map)
    from find_changed [OF c assms(2) this] show ?thesis using True by simp
  next
    case False
    then have "ob_message_id r \<notin> ob_message_id ` set batch"
      using assms(1,3) r by (auto simp: distinct_map dest!: inj_onD)
    then have "ob_message_id r \<notin> ob_message_id ` set (map (mark_as_sent now) batch)"
      by (simp add: image_image)
    then show ?thesis using False by (simp add: find_absent)
  qed
  then show ?thesis by (simp add: write_back_def)
qed

lemma pending_rows_marked:
  "pending_rows (map (\<lambda>r. if r \<in> set batch then mark_as_sent now r else r) rows) =
   filter (\<lambda>r. r \<notin> set batch) (pending_rows rows)"
  by (induction rows) (auto simp: pending_rows_def)

lemma mset_split_subset:
  assumes "distinct xs" "distinct ys" "set xs \<subseteq> set ys"
  shows "mset ys = mset xs + mset (filter (\<lambda>y. y \<notin> set xs) ys)"
proof -
  have "mset (filter (\<lambda>y. y \<in> set xs) ys) = mset xs"
    using assms by (intro set_eq_iff_mset_eq_distinct [THEN iffD1]) auto
  then show ?thesis
    using multiset_partition [of "mset ys" "\<lambda>y. y \<in> set xs"] by (simp only: mset_filter)
qed

subsection \<open>The publisher\<close>

lemma subseq_subset: "subseq xs ys \<Longrightarrow> set xs \<subseteq> set ys"
  by (auto elim: list_emb_set)

text \<open>
  What the relay relies on of the broker connection: a publication that returns has been
  accepted, once; one that raises may or may not have been.
\<close>

locale publisher =
  fixes publish :: "outbox_message \<Rightarrow> 'b \<Rightarrow> exc option \<times> 'b"
    and accepted :: "'b \<Rightarrow> 'd list"
    and parcel :: "outbox_message \<Rightarrow> 'd"
  assumes publish_returns: "publish r b = (None, b') \<Longrightarrow> accepted b' = accepted b @ [parcel r]"
    and publish_raises: "publish r b = (Some e, b') \<Longrightarrow>
      accepted b' = accepted b \<or> accepted b' = accepted b @ [parcel r]"
begin

text \<open>The broker accepted every row that is marked, in order, and nothing outside the batch.\<close>

lemma relay_rows_accepted:
  "relay_rows publish now rs b = (rs', n, b') \<Longrightarrow> list_all (\<lambda>r. ob_status r = PENDING) rs \<Longrightarrow>
   \<exists>ds. accepted b' = accepted b @ ds \<and> subseq (map parcel (sent_rows rs rs')) ds
     \<and> subseq ds (map parcel rs) \<and> n = length (sent_rows rs rs')"
proof (induction rs arbitrary: b rs' n b')
  case Nil
  then show ?case by (simp add: sent_rows_def)
next
  case (Cons r rs)
  obtain x b1 where p: "publish r b = (x, b1)" by (cases "publish r b")
  obtain rs1 m b2 where rest: "relay_rows publish now rs b1 = (rs1, m, b2)"
    by (cases "relay_rows publish now rs b1")
  have pend: "ob_status r = PENDING" "list_all (\<lambda>r. ob_status r = PENDING) rs"
    using Cons.prems(2) by simp_all
  obtain ds where ds: "accepted b2 = accepted b1 @ ds" "subseq (map parcel (sent_rows rs rs1)) ds"
    "subseq ds (map parcel rs)" "m = length (sent_rows rs rs1)"
    using Cons.IH [OF rest pend(2)] by blast
  show ?case
  proof (cases x)
    case None
    then have eq: "rs' = mark_as_sent now r # rs1" "n = Suc m" "b' = b2"
      using Cons.prems(1) p rest by simp_all
    have "accepted b' = accepted b @ parcel r # ds"
      using ds(1) publish_returns p None eq by simp
    moreover have "subseq (map parcel (sent_rows (r # rs) rs')) (parcel r # ds)"
      using ds(2) pend(1) by (simp add: eq sent_rows_def is_sent_def)
    moreover have "subseq (parcel r # ds) (map parcel (r # rs))" using ds(3) by simp
    moreover have "n = length (sent_rows (r # rs) rs')"
      using ds(4) pend(1) by (simp add: eq sent_rows_def is_sent_def)
    ultimately show ?thesis by blast
  next
    case (Some e)
    then have eq: "rs' = r # rs1" "n = m" "b' = b2" using Cons.prems(1) p rest by simp_all
    have sent: "sent_rows (r # rs) rs' = sent_rows rs rs1"
      using pend(1) by (simp add: eq sent_rows_def is_sent_def)
    have "accepted b1 = accepted b \<or> accepted b1 = accepted b @ [parcel r]"
      using publish_raises p Some by simp
    then show ?thesis
    proof
      assume "accepted b1 = accepted b"
      then show ?thesis using ds eq sent by (auto intro: subseq_drop_many)
    next
      assume "accepted b1 = accepted b @ [parcel r]"
      then have "accepted b' = accepted b @ parcel r # ds" using ds(1) eq by simp
      moreover have "subseq (map parcel (sent_rows (r # rs) rs')) (parcel r # ds)"
        unfolding sent by (rule list_emb_Cons [OF ds(2)])
      moreover have "subseq (parcel r # ds) (map parcel (r # rs))" using ds(3) by simp
      ultimately show ?thesis using ds(4) eq(2) sent by (intro exI [of _ "parcel r # ds"]) simp
    qed
  qed
qed

text \<open>
  One run. It returns only after every row that it marked was accepted by the broker, counts
  exactly those, and leaves the other rows as they were.
\<close>

lemma relay_dispatch_accepted:
  assumes run: "relay_dispatch declare_topology publish commit now locked limit (rows, b) = (Inr n, rows', b')"
    and topology: "\<And>b x b'. declare_topology b = (x, b') \<Longrightarrow> accepted b' = accepted b"
    and ids: "distinct (map ob_message_id rows)"
  shows "\<exists>batch ds. find_pending locked limit rows = Inr batch \<and> accepted b' = accepted b @ ds
    \<and> subseq ds (map parcel batch) \<and> n = length (sent_rows rows rows')
    \<and> (\<forall>(r, r') \<in> set (zip rows rows').
         r' = r \<or> (r \<in> set batch \<and> r' = mark_as_sent now r \<and> parcel r \<in> set ds))"
proof -
  obtain b1 where top: "declare_topology b = (None, b1)" and acc1: "accepted b1 = accepted b"
    using run topology by (auto simp: relay_dispatch_def split: prod.splits option.splits)
  obtain batch where batch: "find_pending locked limit rows = Inr batch"
    using run top by (auto simp: relay_dispatch_def split: sum.splits)
  obtain changed m b2 where loop: "relay_rows publish now batch b1 = (changed, m, b2)"
    by (cases "relay_rows publish now batch b1")
  have rows': "rows' = write_back changed rows" and n: "n = m" and b2: "b' = b2"
    using run top batch loop
    by (auto simp: relay_dispatch_def write_back_def Let_def split: if_splits option.splits)
  have sub: "set batch \<subseteq> {r \<in> set rows. ob_status r = PENDING \<and> ob_message_id r \<notin> locked}"
    by (rule find_pending_set [OF batch])
  then have pend: "list_all (\<lambda>r. ob_status r = PENDING) batch" by (auto simp: list_all_iff)
  obtain ds where ds: "accepted b2 = accepted b1 @ ds" "subseq (map parcel (sent_rows batch changed)) ds"
    "subseq ds (map parcel batch)" "m = length (sent_rows batch changed)"
    using relay_rows_accepted [OF loop pend] by blast
  note c = relay_rows_changed [OF loop]
  have db: "distinct (map ob_message_id batch)" by (rule distinct_ids_batch [OF batch ids])
  have sub': "set batch \<subseteq> set rows" using sub by auto
  have row: "(r \<in> set batch \<and> (r, r') \<in> set (zip batch changed)) \<or> (r \<notin> set batch \<and> r' = r)"
    if "(r, r') \<in> set (zip rows rows')" for r r'
    using write_back_row [OF c ids sub' db] that by (simp only: rows')
  have pair: "r' = r \<or> r' = mark_as_sent now r" if "(r, r') \<in> set (zip batch changed)" for r r'
    using c that by (auto simp: list_all2_iff)
  have one: "u = v" if "(r, u) \<in> set (zip batch changed)" "(r, v) \<in> set (zip batch changed)" for r u v
    using find_changed [OF c db that(1)] find_changed [OF c db that(2)] by simp
  have len: "length rows' = length rows" using arg_cong [OF rows', of length] by (simp add: write_back_def)
  have "set (sent_rows rows rows') = set (sent_rows batch changed)"
  proof (intro subset_antisym subsetI)
    fix r assume "r \<in> set (sent_rows rows rows')"
    then obtain r' where z: "(r, r') \<in> set (zip rows rows')" and "ob_status r = PENDING" "is_sent r'"
      by (rule sent_rowsE)
    then show "r \<in> set (sent_rows batch changed)"
      using row [OF z] by (auto simp: is_sent_def intro: sent_rowsI)
  next
    fix r assume "r \<in> set (sent_rows batch changed)"
    then obtain u where z: "(r, u) \<in> set (zip batch changed)" and u: "ob_status r = PENDING" "is_sent u"
      by (rule sent_rowsE)
    have "r \<in> set batch" using z by (rule set_zip_leftD)
    then have "r \<in> set rows" using sub' by blast
    then obtain r' where r': "(r, r') \<in> set (zip rows rows')"
      using len by (metis in_set_impl_in_set_zip1)
    then have "(r, r') \<in> set (zip batch changed)" using row \<open>r \<in> set batch\<close> by blast
    then have "r' = u" using one z by blast
    then show "r \<in> set (sent_rows rows rows')" using r' u by (auto intro: sent_rowsI)
  qed
  moreover have "distinct (sent_rows rows rows')" "distinct (sent_rows batch changed)"
    using ids db len list_all2_lengthD [OF c] by (auto intro!: sent_rows_distinct simp: distinct_map)
  ultimately have count: "n = length (sent_rows rows rows')"
    using n ds(4) by (metis distinct_card)
  have "r' = r \<or> (r \<in> set batch \<and> r' = mark_as_sent now r \<and> parcel r \<in> set ds)"
    if "(r, r') \<in> set (zip rows rows')" for r r'
  proof (cases "r' = r")
    case False
    then have z: "(r, r') \<in> set (zip batch changed)" and rb: "r \<in> set batch"
      using row [OF that] by auto
    then have r': "r' = mark_as_sent now r" using pair False by blast
    then have "r \<in> set (sent_rows batch changed)"
      using z rb sub by (auto intro!: sent_rowsI simp: is_sent_def)
    then have "parcel r \<in> set (map parcel (sent_rows batch changed))" by simp
    then obtain d where "d \<in> set ds" "parcel r = d" using list_emb_set [OF ds(2)] by metis
    then have "parcel r \<in> set ds" by simp
    then show ?thesis using r' rb by blast
  qed simp
  then show ?thesis using batch ds(1,3) b2 acc1 count by (intro exI conjI) auto
qed

text \<open>Whatever a run returns: it publishes rows of the outbox only, and marks none that it did not publish.\<close>

lemma relay_dispatch_published:
  assumes run: "relay_dispatch declare_topology publish commit now locked limit (rows, b) = (res, rows', b')"
    and topology: "\<And>b x b'. declare_topology b = (x, b') \<Longrightarrow> accepted b' = accepted b"
    and ids: "distinct (map ob_message_id rows)"
  shows "\<exists>ds. accepted b' = accepted b @ ds \<and> set ds \<subseteq> parcel ` set rows
    \<and> list_all2 (\<lambda>r r'. r' = r \<or> (r' = mark_as_sent now r \<and> parcel r \<in> set ds)) rows rows'"
proof (cases res)
  case (Inr n)
  have "\<exists>batch ds. find_pending locked limit rows = Inr batch \<and> accepted b' = accepted b @ ds
    \<and> subseq ds (map parcel batch) \<and> n = length (sent_rows rows rows')
    \<and> (\<forall>(r, r') \<in> set (zip rows rows').
         r' = r \<or> (r \<in> set batch \<and> r' = mark_as_sent now r \<and> parcel r \<in> set ds))"
    by (rule relay_dispatch_accepted [OF run [unfolded Inr] _ ids]) (rule topology)
  then obtain batch ds where batch: "find_pending locked limit rows = Inr batch"
    and ds: "accepted b' = accepted b @ ds" "subseq ds (map parcel batch)"
    and rows: "\<forall>(r, r') \<in> set (zip rows rows'). r' = r \<or> (r \<in> set batch \<and> r' = mark_as_sent now r \<and> parcel r \<in> set ds)"
    by blast
  have "length rows' = length rows"
    using run Inr
    by (auto simp: relay_dispatch_def Let_def write_back_def split: prod.splits option.splits sum.splits if_splits)
  moreover have "set ds \<subseteq> parcel ` set rows" using subseq_subset [OF ds(2)] find_pending_set [OF batch] by auto
  ultimately show ?thesis using ds(1) rows by (auto simp: list_all2_iff)
next
  case (Inl e)
  have rows: "rows' = rows"
    using run Inl by (auto simp: relay_dispatch_def Let_def split: prod.splits option.splits sum.splits if_splits)
  have same: "list_all2 (\<lambda>r r'. r' = r \<or> (r' = mark_as_sent now r \<and> parcel r \<in> set ds)) rows rows" for ds
    by (simp add: list_all2_same)
  obtain x b1 where top: "declare_topology b = (x, b1)" by fastforce
  note acc1 = topology [OF top]
  show ?thesis
  proof (cases "x = None \<and> (\<exists>batch. find_pending locked limit rows = Inr batch \<and> batch \<noteq> [])")
    case True
    then obtain batch where batch: "find_pending locked limit rows = Inr batch" "batch \<noteq> []" by blast
    obtain changed m b2 where loop: "relay_rows publish now batch b1 = (changed, m, b2)"
      by (cases "relay_rows publish now batch b1")
    have b2: "b' = b2"
      using run top batch loop True by (auto simp: relay_dispatch_def Let_def split: option.splits)
    have sub: "set batch \<subseteq> {r \<in> set rows. ob_status r = PENDING \<and> ob_message_id r \<notin> locked}"
      by (rule find_pending_set [OF batch(1)])
    then have "list_all (\<lambda>r. ob_status r = PENDING) batch" by (auto simp: list_all_iff)
    from relay_rows_accepted [OF loop this] obtain ds where ds: "accepted b2 = accepted b1 @ ds"
      "subseq ds (map parcel batch)" by blast
    have "set ds \<subseteq> parcel ` set rows" using subseq_subset [OF ds(2)] sub by auto
    then show ?thesis using ds(1) acc1 b2 same rows by auto
  next
    case False
    then have "b' = b1" using run top Inl by (auto simp: relay_dispatch_def split: option.splits sum.splits if_splits)
    then show ?thesis using acc1 same [of "[]"] rows by (intro exI [of _ "[]"] conjI) simp_all
  qed
qed

text \<open>With a broker that accepts everything, while \<open>ok\<close>, a run marks its whole batch.\<close>

lemma relay_rows_reliable:
  assumes reliable: "\<And>r b. ok b \<Longrightarrow> fst (publish r b) = None \<and> ok (snd (publish r b))"
  shows "relay_rows publish now rs b = (rs', n, b') \<Longrightarrow> ok b \<Longrightarrow>
   rs' = map (mark_as_sent now) rs \<and> n = length rs \<and> accepted b' = accepted b @ map parcel rs \<and> ok b'"
proof (induction rs arbitrary: b rs' n b')
  case Nil
  then show ?case by simp
next
  case (Cons r rs)
  obtain b1 where p: "publish r b = (None, b1)" "ok b1"
    using reliable [OF Cons.prems(2), of r] by (cases "publish r b") auto
  obtain rs1 m b2 where rest: "relay_rows publish now rs b1 = (rs1, m, b2)"
    by (cases "relay_rows publish now rs b1")
  then show ?case using Cons.prems Cons.IH [OF rest p(2)] publish_returns [OF p(1)] p by simp
qed

lemma relay_dispatch_reliable:
  assumes run: "relay_dispatch declare_topology publish commit now {} limit (rows, b) = (res, rows', b')"
    and topology: "\<And>b. ok b \<Longrightarrow> fst (declare_topology b) = None
      \<and> accepted (snd (declare_topology b)) = accepted b \<and> ok (snd (declare_topology b))"
    and reliable: "\<And>r b. ok b \<Longrightarrow> fst (publish r b) = None \<and> ok (snd (publish r b))"
    and commit: "\<And>rows. commit rows = None"
    and ids: "distinct (map ob_message_id rows)" and limit: "0 \<le> limit" and ok: "ok b"
  shows "res = Inr (min (nat limit) (length (pending_rows rows)))"
    and "length (pending_rows rows') = length (pending_rows rows) - nat limit"
    and "mset (accepted b') + mset (map parcel (pending_rows rows'))
       = mset (accepted b) + mset (map parcel (pending_rows rows))"
    and "map ob_message_id rows' = map ob_message_id rows" and "ok b'"
proof -
  obtain b1 where top: "declare_topology b = (None, b1)" and acc1: "accepted b1 = accepted b" and ok1: "ok b1"
    using topology [OF ok] by (cases "declare_topology b") auto
  obtain batch where batch: "find_pending {} limit rows = Inr batch"
    using limit by (simp add: find_pending_def)
  have len: "length batch = min (nat limit) (length (pending_rows rows))"
    and sub: "set batch \<subseteq> set (pending_rows rows)"
    using batch limit find_pending_set [OF batch]
    by (auto simp: find_pending_def pending_rows_def split: if_splits)
  have db: "distinct (map ob_message_id batch)" by (rule distinct_ids_batch [OF batch ids])
  obtain changed m b2 where loop: "relay_rows publish now batch b1 = (changed, m, b2)"
    by (cases "relay_rows publish now batch b1")
  note rel = relay_rows_reliable [where ok = ok, OF reliable loop ok1]
  have "ok b'" using run top batch loop rel ok1 by (auto simp: relay_dispatch_def Let_def commit split: if_splits)
  then show "ok b'" .
  have rows': "rows' = map (\<lambda>r. if r \<in> set batch then mark_as_sent now r else r) rows"
    and res: "res = Inr (length batch)" and acc: "accepted b' = accepted b @ map parcel batch"
    using run top batch loop rel commit acc1 write_back_marked [OF ids db, of now] sub
    by (auto simp: relay_dispatch_def Let_def pending_rows_def split: if_splits)
  then show "res = Inr (min (nat limit) (length (pending_rows rows)))" by (simp add: len)
  have pend: "pending_rows rows' = filter (\<lambda>r. r \<notin> set batch) (pending_rows rows)"
    unfolding rows' by (rule pending_rows_marked)
  have "distinct batch" "distinct (pending_rows rows)"
    using db ids by (auto simp: distinct_map pending_rows_def)
  then have split: "mset (pending_rows rows) = mset batch + mset (pending_rows rows')"
    unfolding pend by (rule mset_split_subset [OF _ _ sub])
  then show "mset (accepted b') + mset (map parcel (pending_rows rows'))
       = mset (accepted b) + mset (map parcel (pending_rows rows))"
    using arg_cong [OF split, of "image_mset parcel"] by (simp add: acc)
  have "length (pending_rows rows) = length batch + length (pending_rows rows')"
    using arg_cong [OF split, of size] by simp
  then show "length (pending_rows rows') = length (pending_rows rows) - nat limit" using len by linarith
  show "map ob_message_id rows' = map ob_message_id rows" by (simp add: rows')
qed

text \<open>Repeated runs drain the outbox and publish each pending row once.\<close>

lemma relay_runs_reliable:
  assumes topology: "\<And>b. ok b \<Longrightarrow> fst (declare_topology b) = None
      \<and> accepted (snd (declare_topology b)) = accepted b \<and> ok (snd (declare_topology b))"
    and reliable: "\<And>r b. ok b \<Longrightarrow> fst (publish r b) = None \<and> ok (snd (publish r b))"
    and commit: "\<And>rows. commit rows = None" and limit: "0 \<le> limit"
  shows "relay_runs declare_topology publish commit now limit k (rows, b) = (rows', b') \<Longrightarrow>
    distinct (map ob_message_id rows) \<Longrightarrow> ok b \<Longrightarrow>
    length (pending_rows rows') = length (pending_rows rows) - k * nat limit
    \<and> mset (accepted b') + mset (map parcel (pending_rows rows'))
       = mset (accepted b) + mset (map parcel (pending_rows rows))"
proof (induction k arbitrary: rows b)
  case 0
  then show ?case by simp
next
  case (Suc k)
  obtain res rows1 b1
    where run: "relay_dispatch declare_topology publish commit now {} limit (rows, b) = (res, rows1, b1)"
    by (cases "relay_dispatch declare_topology publish commit now {} limit (rows, b)")
  note one = relay_dispatch_reliable [where ok = ok, OF run topology reliable commit Suc.prems(2) limit Suc.prems(3)]
  have "relay_runs declare_topology publish commit now limit k (rows1, b1) = (rows', b')"
    using Suc.prems(1) run by simp
  from Suc.IH [OF this] show ?case using one Suc.prems(2) by (simp add: diff_diff_left)
qed

end

section \<open>Properties\<close>

text \<open>
  The batch a dispatcher takes holds at most \<open>limit\<close> pending rows that nobody else has
  locked, each once, oldest first, and no such row outside it is older than one inside.
\<close>

theorem pending_batch:
  assumes "find_pending locked limit rows = Inr batch" "distinct (map ob_message_id rows)"
  shows "distinct (map ob_message_id batch) \<and> int (length batch) \<le> limit
    \<and> set batch \<subseteq> {r \<in> set rows. ob_status r = PENDING \<and> ob_message_id r \<notin> locked}
    \<and> sorted (map ob_created_at batch)
    \<and> (\<forall>r \<in> set rows. ob_status r = PENDING \<and> ob_message_id r \<notin> locked \<and> r \<notin> set batch
         \<longrightarrow> (\<forall>b \<in> set batch. ob_created_at b \<le> ob_created_at r))"
  using find_pending_set [OF assms(1)] find_pending_length [OF assms(1)] find_pending_sorted [OF assms(1)]
    distinct_ids_batch [OF assms] find_pending_oldest [OF assms(1)] by blast

lemma pending_batch_witness:
  "\<exists>b. find_pending {} 1 [init_outbox_message 1 ''A'' ''x'' ''k'' [] None 20,
                      init_outbox_message 2 ''B'' ''x'' ''k'' [] None 10] = Inr [b] \<and> ob_message_id b = 2
     \<and> ob_created_at b \<le> 20"
proof -
  let ?a = "init_outbox_message 1 ''A'' ''x'' ''k'' [] None 20"
  let ?b = "init_outbox_message 2 ''B'' ''x'' ''k'' [] None 10"
  have f: "find_pending {} 1 [?a, ?b] = Inr [?b]"
    by (simp add: find_pending_def init_outbox_message_def)
  have ids: "distinct (map ob_message_id [?a, ?b])" by (simp add: init_outbox_message_def)
  have "\<forall>b \<in> set [?b]. ob_created_at b \<le> ob_created_at ?a"
    using pending_batch [OF f ids] by (simp add: init_outbox_message_def)
  then show ?thesis using f by (simp add: init_outbox_message_def)
qed

end
