(* ===== verification/Module_Db.thy ===== *)
theory Module_Db
  imports Bus_Outbox
begin

text \<open>
  The schema of one module as a transaction sees it: the store of its aggregates, its outbox
  and its inbox (\<open>modules/shared/message_bus/tables.py\<close>), the inbox repository
  (\<open>inbox/repository.py\<close>), the outbox write of a use case, and the contract that the
  handlers of the HTTP slices rely on: a repository and an outbox that write through the
  same session (the locale \<open>unit_of_work\<close>).
\<close>

section \<open>The schema of a module\<close>

record inbox_message =
  ib_message_id :: uuid
  ib_message_type :: string
  ib_handler_name :: string

record 'a module_db =
  md_store :: 'a
  md_outbox :: "outbox_message list"
  md_inbox :: "inbox_message list"

text \<open>A repository of the store, on the whole schema.\<close>

definition on_store :: "('a \<Rightarrow> 'a res) \<Rightarrow> 'a module_db \<Rightarrow> 'a module_db res" where
  "on_store f db = bindE (f (md_store db)) (\<lambda>s. Inr (db\<lparr>md_store := s\<rparr>))"

text \<open>\<open>OutboxMessageRepository.schedule(message)\<close> inside a use case.\<close>

definition schedule ::
  "destination_registry \<Rightarrow> uuid \<Rightarrow> int \<Rightarrow> integration_message \<Rightarrow> 'a module_db \<Rightarrow> 'a module_db res" where
  "schedule dests fresh now m db =
     bindE (outbox_schedule dests fresh now None None m (md_outbox db))
       (\<lambda>(r, rows). Inr (db\<lparr>md_outbox := rows\<rparr>))"

section \<open>The inbox repository\<close>

definition inbox_key :: "inbox_message \<Rightarrow> uuid \<times> string" where
  "inbox_key r = (ib_message_id r, ib_handler_name r)"

text \<open>\<open>scalar_one_or_none\<close> raises on more than one row.\<close>

definition was_handled :: "uuid \<Rightarrow> string \<Rightarrow> inbox_message list \<Rightarrow> bool res" where
  "was_handled mid hname rows =
     (case filter (\<lambda>r. ib_message_id r = mid \<and> ib_handler_name r = hname) rows of
        [] \<Rightarrow> Inr False
      | [r] \<Rightarrow> Inr True
      | _ \<Rightarrow> Inl (PyError ''MultipleResultsFound''))"

text \<open>\<open>record\<close>, under the constraints of the table.\<close>

definition record_inbox ::
  "uuid \<Rightarrow> string \<Rightarrow> string \<Rightarrow> inbox_message list \<Rightarrow> inbox_message list res" where
  "record_inbox mid ty hname rows =
     (if \<not> (column_text 255 ty \<and> column_text 255 hname) then Inl (PyError ''DBAPIError'')
      else if list_ex (\<lambda>r. inbox_key r = (mid, hname)) rows
      then Inl (IntegrityError ''uq_inbox_messages_message_id_handler_name'')
      else Inr (rows @ [\<lparr>ib_message_id = mid, ib_message_type = ty, ib_handler_name = hname\<rparr>]))"

lemma handled_keys:
  "map inbox_key (filter (\<lambda>r. ib_message_id r = mid \<and> ib_handler_name r = hname) rows)
   = filter (\<lambda>k. k = (mid, hname)) (map inbox_key rows)"
  by (induction rows) (auto simp: inbox_key_def)

lemma distinct_filter_eq: "distinct xs \<Longrightarrow> filter (\<lambda>x. x = a) xs = (if a \<in> set xs then [a] else [])"
  by (induction xs) auto

lemma was_handled_distinct:
  assumes "distinct (map inbox_key rows)"
  shows "was_handled mid hname rows = Inr ((mid, hname) \<in> set (map inbox_key rows))"
proof -
  have "map inbox_key (filter (\<lambda>r. ib_message_id r = mid \<and> ib_handler_name r = hname) rows) =
      (if (mid, hname) \<in> set (map inbox_key rows) then [(mid, hname)] else [])"
    unfolding handled_keys by (rule distinct_filter_eq [OF assms])
  then show ?thesis by (auto simp: was_handled_def map_eq_Cons_conv split: if_splits)
qed

lemma record_inbox_Inr:
  "record_inbox mid ty hname rows = Inr rows' \<longleftrightarrow>
   column_text 255 ty \<and> column_text 255 hname \<and> (mid, hname) \<notin> set (map inbox_key rows)
   \<and> rows' = rows @ [\<lparr>ib_message_id = mid, ib_message_type = ty, ib_handler_name = hname\<rparr>]"
  by (auto simp: record_inbox_def list_ex_iff inbox_key_def)

lemma record_inbox_keys:
  "record_inbox mid ty hname rows = Inr rows' \<Longrightarrow>
   map inbox_key rows' = map inbox_key rows @ [(mid, hname)] \<and> (mid, hname) \<notin> set (map inbox_key rows)"
  by (simp add: record_inbox_Inr inbox_key_def)

section \<open>Writing through one session\<close>

text \<open>
  The row that announces a message: pending, with the message's type and body, no headers,
  addressed to the destination registered for the type.
\<close>

definition announces :: "destination_registry \<Rightarrow> integration_message \<Rightarrow> outbox_message \<Rightarrow> bool" where
  "announces dests m r \<longleftrightarrow>
     ob_status r = PENDING \<and> ob_message_type r = message_type (msg_class m) \<and> ob_body r = to_body m
     \<and> ob_headers r = []
     \<and> map_of dests (message_type (msg_class m)) =
         Some \<lparr>exchange = ob_exchange r, routing_key = ob_routing_key r\<rparr>"

lemma schedule_Inr:
  assumes "schedule dests fresh now m db = Inr db'"
  shows "\<exists>r. db' = db\<lparr>md_outbox := md_outbox db @ [r]\<rparr> \<and> announces dests m r
    \<and> ob_message_id r \<notin> set (map ob_message_id (md_outbox db))"
proof -
  obtain r rows where o: "outbox_schedule dests fresh now None None m (md_outbox db) = Inr (r, rows)"
    and db': "db' = db\<lparr>md_outbox := rows\<rparr>"
    using assms by (auto simp: schedule_def bindE_Inr_iff)
  show ?thesis
    using outbox_schedule_Inr [OF o] db'
    by (auto simp: announces_def destination_for_def split: option.splits)
qed

lemma on_store_Inr:
  "on_store f db = Inr db' \<longleftrightarrow> (\<exists>s. f (md_store db) = Inr s \<and> db' = db\<lparr>md_store := s\<rparr>)"
  by (auto simp: on_store_def bindE_Inr_iff)

text \<open>
  The contract: persisting an aggregate writes no message and scheduling one writes no
  aggregate; a scheduled message is one more pending row.
\<close>

locale unit_of_work = repository persist find_by_id identity storable
  for persist :: "'a \<Rightarrow> 'db \<Rightarrow> 'db res"
    and find_by_id :: "'k \<Rightarrow> 'db \<Rightarrow> 'a option res"
    and identity :: "'a \<Rightarrow> 'k"
    and storable :: "'a \<Rightarrow> bool" +
  fixes dests :: destination_registry
    and put_message :: "integration_message \<Rightarrow> 'db \<Rightarrow> 'db res"
    and outbox :: "'db \<Rightarrow> outbox_message list"
  assumes persist_outbox: "persist a db = Inr db' \<Longrightarrow> outbox db' = outbox db"
    and put_message_find: "put_message m db = Inr db' \<Longrightarrow> find_by_id k db' = find_by_id k db"
    and put_message_outbox: "put_message m db = Inr db' \<Longrightarrow>
      \<exists>r. outbox db' = outbox db @ [r] \<and> announces dests m r"
begin

text \<open>A use case that persists an aggregate and announces a message does both.\<close>

lemma persist_and_announce:
  assumes "storable a" "persist a db = Inr db1" "put_message m db1 = Inr db2"
  shows "find_by_id (identity a) db2 = Inr (Some a)"
    and "k \<noteq> identity a \<Longrightarrow> find_by_id k db2 = find_by_id k db"
    and "\<exists>r. outbox db2 = outbox db @ [r] \<and> announces dests m r"
proof -
  show "find_by_id (identity a) db2 = Inr (Some a)"
    using assms by (simp add: put_message_find find_persisted)
  show "find_by_id k db2 = find_by_id k db" if "k \<noteq> identity a"
    using assms that by (simp add: put_message_find find_other)
  show "\<exists>r. outbox db2 = outbox db @ [r] \<and> announces dests m r"
    using assms persist_outbox put_message_outbox by metis
qed

end

text \<open>A mapped store gives one on the schema of its module.\<close>

lemma unit_of_work_on_store:
  assumes "repository persist find_by_id identity storable"
  shows "unit_of_work (\<lambda>a. on_store (persist a)) (\<lambda>k db. find_by_id k (md_store db)) identity storable
           dests (schedule dests fresh now) md_outbox"
proof -
  note find = repository.find_persist [OF assms]
  show ?thesis
    by unfold_locales (auto simp: on_store_Inr find dest!: schedule_Inr)
qed

end
