(* ===== verification/Bus_Inbox.thy ===== *)
theory Bus_Inbox
  imports Module_Db
begin

text \<open>
  The inbox dispatcher (\<open>modules/shared/message_bus/inbox/dispatcher.py\<close>): one attempt in
  its own transaction, the immediate retries of one handler, and the run over every
  subscriber. Attempts are numbered, so that a handler or a commit may fail at one attempt
  and succeed at the next: \<open>run t h env db\<close> is the handler class \<open>h\<close> on the envelope at
  attempt \<open>t\<close>, \<open>commit t db\<close> the exception of the commit, if any. Beside its result an
  operation returns the keys \<open>(message_id, handler_name)\<close> that it logs as processed.
\<close>

type_synonym inbox_log = "(uuid \<times> string) list"

type_synonym 'a handler_run = "nat \<Rightarrow> handler_class \<Rightarrow> message_envelope \<Rightarrow> 'a module_db \<Rightarrow> 'a module_db res"

type_synonym 'a commit_run = "nat \<Rightarrow> 'a module_db \<Rightarrow> exc option"

section \<open>One attempt\<close>

text \<open>The body of the transaction: \<open>False\<close> when the message was already handled.\<close>

definition attempt_body ::
  "'a handler_run \<Rightarrow> nat \<Rightarrow> handler_class \<Rightarrow> message_envelope \<Rightarrow> 'a module_db \<Rightarrow> (bool \<times> 'a module_db) res" where
  "attempt_body run t h env db =
     bindE (was_handled (env_message_id env) (handler_name h) (md_inbox db)) (\<lambda>already.
     if already then Inr (False, db)
     else
       bindE (run t h env db) (\<lambda>db1.
       bindE (record_inbox (env_message_id env) (env_message_type env) (handler_name h) (md_inbox db1))
         (\<lambda>rows. Inr (True, db1\<lparr>md_inbox := rows\<rparr>))))"

text \<open>\<open>_attempt\<close>: work that was done is committed; any exception rolls back.\<close>

definition attempt ::
  "'a handler_run \<Rightarrow> 'a commit_run \<Rightarrow> nat \<Rightarrow> handler_class \<Rightarrow> message_envelope \<Rightarrow> 'a module_db \<Rightarrow>
   bool res \<times> 'a module_db" where
  "attempt run commit t h env db =
     (case attempt_body run t h env db of
        Inl e \<Rightarrow> (Inl e, db)
      | Inr (False, db') \<Rightarrow> (Inr False, db')
      | Inr (True, db') \<Rightarrow>
          (case commit t db' of None \<Rightarrow> (Inr True, db') | Some e \<Rightarrow> (Inl e, db)))"

section \<open>Immediate retries\<close>

text \<open>
  \<open>_run\<close> with \<open>n\<close> attempts left and the last error: the result, the schema, the number of
  the next attempt and the processed keys.
\<close>

fun run_loop ::
  "'a handler_run \<Rightarrow> 'a commit_run \<Rightarrow> nat \<Rightarrow> nat \<Rightarrow> exc option \<Rightarrow> handler_class \<Rightarrow> message_envelope \<Rightarrow>
   'a module_db \<Rightarrow> unit res \<times> 'a module_db \<times> nat \<times> inbox_log" where
  "run_loop run commit 0 t last_error h env db =
     (Inl (case last_error of Some e \<Rightarrow> e | None \<Rightarrow> PyError ''AssertionError''), db, t, [])"
| "run_loop run commit (Suc n) t last_error h env db =
     (case attempt run commit t h env db of
        (Inl e, db') \<Rightarrow> run_loop run commit n (Suc t) (Some e) h env db'
      | (Inr handled, db') \<Rightarrow>
          (Inr (), db', Suc t, if handled then [(env_message_id env, handler_name h)] else []))"

text \<open>\<open>max(immediate_retries, 0)\<close> retries after the first attempt.\<close>

definition run_handler ::
  "'a handler_run \<Rightarrow> 'a commit_run \<Rightarrow> int \<Rightarrow> nat \<Rightarrow> handler_class \<Rightarrow> message_envelope \<Rightarrow> 'a module_db \<Rightarrow>
   unit res \<times> 'a module_db \<times> nat \<times> inbox_log" where
  "run_handler run commit immediate_retries t h env db =
     run_loop run commit (nat (max immediate_retries 0) + 1) t None h env db"

section \<open>Dispatch\<close>

fun run_subscribers ::
  "'a handler_run \<Rightarrow> 'a commit_run \<Rightarrow> int \<Rightarrow> nat \<Rightarrow> handler_class list \<Rightarrow> message_envelope \<Rightarrow> 'a module_db \<Rightarrow>
   exc list \<times> 'a module_db \<times> nat \<times> inbox_log" where
  "run_subscribers run commit retries t [] env db = ([], db, t, [])"
| "run_subscribers run commit retries t (h # hs) env db =
     (let (r, db1, t1, ks1) = run_handler run commit retries t h env db;
          (failures, db2, t2, ks2) = run_subscribers run commit retries t1 hs env db1
      in (case r of Inl e \<Rightarrow> e # failures | Inr u \<Rightarrow> failures, db2, t2, ks1 @ ks2))"

definition dispatch ::
  "'a handler_run \<Rightarrow> 'a commit_run \<Rightarrow> handler_registry \<Rightarrow> int \<Rightarrow> nat \<Rightarrow> message_envelope \<Rightarrow> 'a module_db \<Rightarrow>
   unit res \<times> 'a module_db \<times> nat \<times> inbox_log" where
  "dispatch run commit reg retries t env db =
     (let subscribers = handlers_for reg (env_message_type env) in
      if subscribers = [] then (Inr (), db, t, [])
      else
        (let (failures, db', t', ks) = run_subscribers run commit retries t subscribers env db
         in if failures = [] then (Inr (), db', t', ks)
            else (Inl (HandlingError failures), db', t', ks)))"

text \<open>A sequence of deliveries, each with its result; the broker redelivers as it likes.\<close>

fun deliver_all ::
  "'a handler_run \<Rightarrow> 'a commit_run \<Rightarrow> handler_registry \<Rightarrow> int \<Rightarrow> nat \<Rightarrow> message_envelope list \<Rightarrow> 'a module_db \<Rightarrow>
   'a module_db \<times> nat \<times> inbox_log" where
  "deliver_all run commit reg retries t [] db = (db, t, [])"
| "deliver_all run commit reg retries t (env # envs) db =
     (let (r, db1, t1, ks1) = dispatch run commit reg retries t env db;
          (db2, t2, ks2) = deliver_all run commit reg retries t1 envs db1
      in (db2, t2, ks1 @ ks2))"

section \<open>What the dispatcher guarantees\<close>

lemma run_loop_keys:
  "run_loop run commit n t le h env db = (r, db', t', ks) \<Longrightarrow>
   ks = [] \<or> ks = [(env_message_id env, handler_name h)]"
  by (induction n arbitrary: t le db) (auto split: prod.splits sum.splits if_splits)

lemma run_handler_keys:
  "run_handler run commit retries t h env db = (r, db', t', ks) \<Longrightarrow>
   \<forall>k \<in> set ks. k = (env_message_id env, handler_name h) \<and> fst k = env_message_id env"
  unfolding run_handler_def by (drule run_loop_keys) auto

lemma run_subscribers_keys:
  "run_subscribers run commit retries t hs env db = (fs, db', t', ks) \<Longrightarrow>
   k \<in> set ks \<Longrightarrow> \<exists>h \<in> set hs. k = (env_message_id env, handler_name h)"
proof (induction hs arbitrary: t fs db ks db' t')
  case (Cons h hs)
  obtain r db1 t1 ks1 where one: "run_handler run commit retries t h env db = (r, db1, t1, ks1)"
    by (cases "run_handler run commit retries t h env db")
  obtain fs2 db2 t2 ks2 where rest: "run_subscribers run commit retries t1 hs env db1 = (fs2, db2, t2, ks2)"
    by (cases "run_subscribers run commit retries t1 hs env db1")
  have "ks = ks1 @ ks2" using Cons.prems(1) one rest by simp
  then show ?case using Cons.prems(2) run_handler_keys [OF one] Cons.IH [OF rest] by auto
qed simp

lemma dispatch_keys:
  assumes "dispatch run commit reg retries t env db = (r, db', t', ks)" "k \<in> set ks"
  shows "\<exists>h \<in> set (handlers_for reg (env_message_type env)). k = (env_message_id env, handler_name h)"
proof -
  obtain fs db2 t2 ks2 where run: "run_subscribers run commit retries t
      (handlers_for reg (env_message_type env)) env db = (fs, db2, t2, ks2)"
    by (cases "run_subscribers run commit retries t (handlers_for reg (env_message_type env)) env db")
  then have "k \<in> set ks2" using assms by (auto simp: dispatch_def Let_def split: if_splits)
  then show ?thesis by (rule run_subscribers_keys [OF run])
qed

text \<open>The law of a handler: the inbox belongs to the dispatcher.\<close>

locale inbox_handlers =
  fixes run :: "'a handler_run"
  assumes run_inbox: "run t h env db = Inr db' \<Longrightarrow> md_inbox db' = md_inbox db"
begin

lemma attempt_cases:
  assumes "distinct (map inbox_key (md_inbox db))" "attempt run commit t h env db = (r, db')"
  shows "(\<exists>e. r = Inl e \<and> db' = db)
    \<or> (r = Inr False \<and> db' = db \<and> (env_message_id env, handler_name h) \<in> set (map inbox_key (md_inbox db)))
    \<or> (r = Inr True \<and> (env_message_id env, handler_name h) \<notin> set (map inbox_key (md_inbox db))
       \<and> map inbox_key (md_inbox db') = map inbox_key (md_inbox db) @ [(env_message_id env, handler_name h)]
       \<and> (\<exists>db1. run t h env db = Inr db1 \<and> md_store db' = md_store db1 \<and> md_outbox db' = md_outbox db1))"
proof -
  let ?k = "(env_message_id env, handler_name h)"
  note was = was_handled_distinct [OF assms(1), of "env_message_id env" "handler_name h"]
  show ?thesis
  proof (cases "?k \<in> set (map inbox_key (md_inbox db))")
    case True
    then have "attempt_body run t h env db = Inr (False, db)"
      by (simp add: attempt_body_def was del: set_map)
    then show ?thesis using assms(2) True by (simp add: attempt_def)
  next
    case False
    then have body: "attempt_body run t h env db =
        bindE (run t h env db) (\<lambda>db1. bindE (record_inbox (env_message_id env) (env_message_type env)
          (handler_name h) (md_inbox db1)) (\<lambda>rows. Inr (True, db1\<lparr>md_inbox := rows\<rparr>)))"
      by (simp add: attempt_body_def was del: set_map)
    show ?thesis
    proof (cases "attempt_body run t h env db")
      case (Inl e)
      then show ?thesis using assms(2) by (auto simp: attempt_def)
    next
      case (Inr p)
      then obtain db1 rows where db1: "run t h env db = Inr db1"
        and rows: "record_inbox (env_message_id env) (env_message_type env) (handler_name h) (md_inbox db1) = Inr rows"
        and p: "p = (True, db1\<lparr>md_inbox := rows\<rparr>)"
        using body by (auto simp: bindE_Inr_iff)
      show ?thesis
        using assms(2) Inr p db1 False record_inbox_keys [OF rows] run_inbox [OF db1]
        by (auto simp: attempt_def split: option.splits)
    qed
  qed
qed

text \<open>The keys in the inbox are exactly the keys processed, each once.\<close>

lemma run_loop_inbox:
  "run_loop run commit n t le h env db = (r, db', t', ks) \<Longrightarrow> distinct (map inbox_key (md_inbox db)) \<Longrightarrow>
   map inbox_key (md_inbox db') = map inbox_key (md_inbox db) @ ks
   \<and> distinct (map inbox_key (md_inbox db'))
   \<and> t' \<le> t + n
   \<and> (r = Inr () \<longrightarrow> (env_message_id env, handler_name h) \<in> set (map inbox_key (md_inbox db')))
   \<and> (r \<noteq> Inr () \<longrightarrow> db' = db \<and> ks = [] \<and> t' = t + n)
   \<and> ((env_message_id env, handler_name h) \<in> set (map inbox_key (md_inbox db)) \<and> 0 < n \<longrightarrow> r = Inr () \<and> db' = db)"
proof (induction n arbitrary: t le db)
  case 0
  then show ?case by auto
next
  case (Suc n)
  obtain x db1 where a: "attempt run commit t h env db = (x, db1)"
    by (cases "attempt run commit t h env db")
  from attempt_cases [OF Suc.prems(2) a] show ?case
  proof (elim disjE exE conjE)
    fix e assume x: "x = Inl e" and db1: "db1 = db"
    then have "run_loop run commit n (Suc t) (Some e) h env db = (r, db', t', ks)"
      using Suc.prems(1) a by simp
    from Suc.IH [OF this Suc.prems(2)] show ?case
      using a x db1 was_handled_distinct [OF Suc.prems(2)]
      by (auto simp: attempt_def attempt_body_def simp del: set_map split: sum.splits)
  next
    assume "x = Inr False" "db1 = db"
      "(env_message_id env, handler_name h) \<in> set (map inbox_key (md_inbox db))"
    then show ?case using Suc.prems a by (auto simp del: set_map)
  next
    fix db2 assume "x = Inr True"
      "(env_message_id env, handler_name h) \<notin> set (map inbox_key (md_inbox db))"
      "map inbox_key (md_inbox db1) = map inbox_key (md_inbox db) @ [(env_message_id env, handler_name h)]"
    then show ?case using Suc.prems a by (auto simp del: set_map)
  qed
qed

lemma run_handler_inbox:
  assumes "run_handler run commit retries t h env db = (r, db', t', ks)" "distinct (map inbox_key (md_inbox db))"
  shows "map inbox_key (md_inbox db') = map inbox_key (md_inbox db) @ ks"
    and "distinct (map inbox_key (md_inbox db'))"
    and "t' \<le> t + nat (max retries 0) + 1"
    and "r = Inr () \<Longrightarrow> (env_message_id env, handler_name h) \<in> set (map inbox_key (md_inbox db'))"
    and "r = Inl e \<Longrightarrow> db' = db \<and> ks = [] \<and> t' = t + nat (max retries 0) + 1"
    and "(env_message_id env, handler_name h) \<in> set (map inbox_key (md_inbox db)) \<Longrightarrow> r = Inr () \<and> db' = db"
  using run_loop_inbox [OF assms(1) [unfolded run_handler_def] assms(2)] by (auto simp del: set_map)

lemma run_subscribers_inbox:
  "run_subscribers run commit retries t hs env db = (fs, db', t', ks) \<Longrightarrow>
   distinct (map inbox_key (md_inbox db)) \<Longrightarrow>
   map inbox_key (md_inbox db') = map inbox_key (md_inbox db) @ ks
   \<and> distinct (map inbox_key (md_inbox db'))
   \<and> t' \<le> t + length hs * (nat (max retries 0) + 1)
   \<and> (fs = [] \<longrightarrow> (\<forall>h \<in> set hs. (env_message_id env, handler_name h) \<in> set (map inbox_key (md_inbox db'))))
   \<and> length fs \<le> length hs
   \<and> ((\<forall>h \<in> set hs. (env_message_id env, handler_name h) \<in> set (map inbox_key (md_inbox db)))
        \<longrightarrow> fs = [] \<and> db' = db)
   \<and> (\<forall>k \<in> set ks. fst k = env_message_id env)"
proof (induction hs arbitrary: t fs db ks db' t')
  case Nil
  then show ?case by simp
next
  case (Cons h hs)
  obtain r db1 t1 ks1 where one: "run_handler run commit retries t h env db = (r, db1, t1, ks1)"
    by (cases "run_handler run commit retries t h env db")
  obtain fs2 db2 t2 ks2 where rest: "run_subscribers run commit retries t1 hs env db1 = (fs2, db2, t2, ks2)"
    by (cases "run_subscribers run commit retries t1 hs env db1")
  note H = run_handler_inbox [OF one Cons.prems(2)]
  have eqs: "db' = db2" "t' = t2" "ks = ks1 @ ks2" "fs = (case r of Inl e \<Rightarrow> e # fs2 | Inr u \<Rightarrow> fs2)"
    using Cons.prems(1) one rest by simp_all
  note IH = Cons.IH [OF rest H(2)]
  have own: "\<forall>k \<in> set ks1. fst k = env_message_id env"
    using run_handler_keys [OF one] by blast
  show ?case
  proof (cases r)
    case (Inl e)
    with H(5) [OF Inl] H(6) IH eqs own show ?thesis by (auto simp del: set_map)
  next
    case (Inr u)
    with H(1,3,4,6) IH eqs own show ?thesis by (auto simp del: set_map)
  qed
qed

lemma run_subscribers_names:
  "run_subscribers run commit retries t hs env db = (fs, db', t', ks) \<Longrightarrow>
   \<forall>k \<in> set ks. snd k \<in> handler_name ` set hs"
proof (induction hs arbitrary: t fs db ks db' t')
  case Nil
  then show ?case by simp
next
  case (Cons h hs)
  obtain r db1 t1 ks1 where one: "run_handler run commit retries t h env db = (r, db1, t1, ks1)"
    by (cases "run_handler run commit retries t h env db")
  obtain fs2 db2 t2 ks2 where rest: "run_subscribers run commit retries t1 hs env db1 = (fs2, db2, t2, ks2)"
    by (cases "run_subscribers run commit retries t1 hs env db1")
  have "\<forall>k \<in> set ks1. snd k = handler_name h" using run_handler_keys [OF one] by force
  moreover have "ks = ks1 @ ks2" using Cons.prems one rest by simp
  ultimately show ?case using Cons.IH [OF rest] by fastforce
qed

text \<open>
  Siblings are independent: the failures are as many as the handlers without an inbox row,
  and every other handler has its row whatever the failing ones did.
\<close>

lemma run_subscribers_failures:
  "run_subscribers run commit retries t hs env db = (fs, db', t', ks) \<Longrightarrow>
   distinct (map inbox_key (md_inbox db)) \<Longrightarrow> distinct (map handler_name hs) \<Longrightarrow>
   length fs = length (filter (\<lambda>h. (env_message_id env, handler_name h) \<notin> set (map inbox_key (md_inbox db'))) hs)"
proof (induction hs arbitrary: t fs db ks db' t')
  case Nil
  then show ?case by simp
next
  case (Cons h hs)
  let ?k = "(env_message_id env, handler_name h)"
  obtain r db1 t1 ks1 where one: "run_handler run commit retries t h env db = (r, db1, t1, ks1)"
    by (cases "run_handler run commit retries t h env db")
  obtain fs2 db2 t2 ks2 where rest: "run_subscribers run commit retries t1 hs env db1 = (fs2, db2, t2, ks2)"
    by (cases "run_subscribers run commit retries t1 hs env db1")
  note H = run_handler_inbox [OF one Cons.prems(2)]
  have eqs: "db' = db2" "fs = (case r of Inl e \<Rightarrow> e # fs2 | Inr u \<Rightarrow> fs2)"
    using Cons.prems(1) one rest by simp_all
  have keys: "map inbox_key (md_inbox db2) = map inbox_key (md_inbox db1) @ ks2"
    using run_subscribers_inbox [OF rest H(2)] by blast
  have IH: "length fs2 = length (filter (\<lambda>h. (env_message_id env, handler_name h) \<notin> set (map inbox_key (md_inbox db2))) hs)"
    using Cons.IH [OF rest H(2)] Cons.prems(3) by simp
  show ?case
  proof (cases r)
    case (Inl e)
    have "?k \<notin> set (map inbox_key (md_inbox db1))"
      using H(5) [OF Inl] H(6) Inl by auto
    moreover have "?k \<notin> set ks2"
      using run_subscribers_names [OF rest] Cons.prems(3) by auto
    ultimately have "?k \<notin> set (map inbox_key (md_inbox db2))" unfolding keys by simp
    then show ?thesis using IH eqs Inl by (simp del: set_map)
  next
    case (Inr u)
    have "?k \<in> set (map inbox_key (md_inbox db2))" unfolding keys using H(4) Inr by simp
    then show ?thesis using IH eqs Inr by (simp del: set_map)
  qed
qed

lemma dispatch_inbox:
  assumes "dispatch run commit reg retries t env db = (r, db', t', ks)" "distinct (map inbox_key (md_inbox db))"
  shows "map inbox_key (md_inbox db') = map inbox_key (md_inbox db) @ ks"
    and "distinct (map inbox_key (md_inbox db'))"
    and "t' \<le> t + length (handlers_for reg (env_message_type env)) * (nat (max retries 0) + 1)"
    and "r = Inr () \<Longrightarrow> h \<in> set (handlers_for reg (env_message_type env)) \<Longrightarrow>
         (env_message_id env, handler_name h) \<in> set (map inbox_key (md_inbox db'))"
    and "(\<forall>h \<in> set (handlers_for reg (env_message_type env)).
            (env_message_id env, handler_name h) \<in> set (map inbox_key (md_inbox db))) \<Longrightarrow>
         r = Inr () \<and> db' = db"
proof -
  obtain fs db2 t2 ks2 where run: "run_subscribers run commit retries t
      (handlers_for reg (env_message_type env)) env db = (fs, db2, t2, ks2)"
    by (cases "run_subscribers run commit retries t (handlers_for reg (env_message_type env)) env db")
  note facts = run_subscribers_inbox [OF run assms(2)]
  have "(r, db', t', ks) = (if handlers_for reg (env_message_type env) = [] then (Inr (), db, t, [])
      else if fs = [] then (Inr (), db2, t2, ks2) else (Inl (HandlingError fs), db2, t2, ks2))"
    using assms(1) run by (auto simp: dispatch_def Let_def split: if_splits)
  moreover have "handlers_for reg (env_message_type env) = [] \<Longrightarrow> fs = [] \<and> db2 = db \<and> t2 = t \<and> ks2 = []"
    using run by simp
  ultimately have eqs: "db' = db2" "t' = t2" "ks = ks2" and r: "r = Inr () \<longleftrightarrow> fs = []"
    by (auto split: if_splits)
  show "map inbox_key (md_inbox db') = map inbox_key (md_inbox db) @ ks"
    and "distinct (map inbox_key (md_inbox db'))"
    and "t' \<le> t + length (handlers_for reg (env_message_type env)) * (nat (max retries 0) + 1)"
    unfolding eqs using facts by blast+
  show "(env_message_id env, handler_name h) \<in> set (map inbox_key (md_inbox db'))"
    if "r = Inr ()" "h \<in> set (handlers_for reg (env_message_type env))"
    unfolding eqs using facts that r by blast
  show "r = Inr () \<and> db' = db" if "\<forall>h \<in> set (handlers_for reg (env_message_type env)).
      (env_message_id env, handler_name h) \<in> set (map inbox_key (md_inbox db))"
    using facts that r by (simp add: eqs del: set_map)
qed

text \<open>Success and failure of a delivery, read off the inbox.\<close>

lemma dispatch_outcome:
  assumes "dispatch run commit reg retries t env db = (r, db', t', ks)" "distinct (map inbox_key (md_inbox db))"
    and "distinct (map handler_name (handlers_for reg (env_message_type env)))"
  shows "let missing = filter (\<lambda>h. (env_message_id env, handler_name h) \<notin> set (map inbox_key (md_inbox db')))
                        (handlers_for reg (env_message_type env))
       in case r of Inr u \<Rightarrow> missing = []
          | Inl e \<Rightarrow> missing \<noteq> [] \<and> (\<exists>fs. e = HandlingError fs \<and> length fs = length missing)"
proof -
  let ?hs = "handlers_for reg (env_message_type env)"
  obtain fs db2 t2 ks2 where run: "run_subscribers run commit retries t ?hs env db = (fs, db2, t2, ks2)"
    by (cases "run_subscribers run commit retries t ?hs env db")
  note n = run_subscribers_failures [OF run assms(2,3)]
  have "(r, db') = (if fs = [] then Inr () else Inl (HandlingError fs), db2)"
    using assms(1) run by (auto simp: dispatch_def Let_def split: if_splits)
  then show ?thesis using n by (auto simp: Let_def simp del: set_map filter_False split: if_splits)
qed

text \<open>Over any sequence of deliveries no key is processed twice.\<close>

lemma deliver_all_inbox:
  "deliver_all run commit reg retries t envs db = (db', t', ks) \<Longrightarrow> distinct (map inbox_key (md_inbox db)) \<Longrightarrow>
   map inbox_key (md_inbox db') = map inbox_key (md_inbox db) @ ks \<and> distinct (map inbox_key (md_inbox db'))"
proof (induction envs arbitrary: t db ks db' t')
  case Nil
  then show ?case by simp
next
  case (Cons env envs)
  obtain r db1 t1 ks1 where one: "dispatch run commit reg retries t env db = (r, db1, t1, ks1)"
    by (cases "dispatch run commit reg retries t env db")
  obtain db2 t2 ks2 where rest: "deliver_all run commit reg retries t1 envs db1 = (db2, t2, ks2)"
    by (cases "deliver_all run commit reg retries t1 envs db1")
  note H = dispatch_inbox(1,2) [OF one Cons.prems(2)]
  have eqs: "db' = db2" "ks = ks1 @ ks2" using Cons.prems(1) one rest by simp_all
  show ?case unfolding eqs using Cons.IH [OF rest H(2)] H(1) by (metis append.assoc)
qed

end

section \<open>Counting the committed attempts\<close>

text \<open>
  What every committed attempt advances by one, and what an attempt that left nothing behind
  keeps, is advanced by the number of processed keys.
\<close>

lemma attempt_unchanged:
  "attempt run commit t h env db = (r, db') \<Longrightarrow> r \<noteq> Inr True \<Longrightarrow> db' = db"
  by (auto simp: attempt_def attempt_body_def bindE_Inr_iff split: sum.splits bool.splits option.splits if_splits)

definition advances ::
  "'a handler_run \<Rightarrow> 'a commit_run \<Rightarrow> (nat \<Rightarrow> 'a module_db \<Rightarrow> nat \<Rightarrow> bool) \<Rightarrow> message_envelope \<Rightarrow> handler_class \<Rightarrow> bool" where
  "advances run commit I env h \<longleftrightarrow>
     (\<forall>t db n. I t db n \<longrightarrow> I (Suc t) db n)
     \<and> (\<forall>t db db' n. I t db n \<longrightarrow> attempt run commit t h env db = (Inr True, db') \<longrightarrow> I (Suc t) db' (Suc n))"

lemma run_loop_advances:
  assumes "advances run commit I env h"
  shows "run_loop run commit k t le h env db = (r, db', t', ks) \<Longrightarrow> I t db n \<Longrightarrow> I t' db' (n + length ks)"
proof (induction k arbitrary: t le db)
  case 0
  then show ?case by auto
next
  case (Suc k)
  obtain x db1 where a: "attempt run commit t h env db = (x, db1)"
    by (cases "attempt run commit t h env db")
  show ?case
  proof (cases "x = Inr True")
    case True
    then have "I (Suc t) db1 (Suc n)" using assms Suc.prems(2) a by (simp add: advances_def)
    then show ?thesis using Suc.prems(1) a True by auto
  next
    case False
    then have "db1 = db" using attempt_unchanged a by metis
    moreover have "I (Suc t) db n" using assms Suc.prems(2) by (simp add: advances_def)
    ultimately show ?thesis using Suc a False by (cases x) (auto split: if_splits)
  qed
qed

lemma run_subscribers_advances:
  "run_subscribers run commit retries t hs env db = (fs, db', t', ks) \<Longrightarrow>
   list_all (advances run commit I env) hs \<Longrightarrow> I t db n \<Longrightarrow> I t' db' (n + length ks)"
proof (induction hs arbitrary: t db fs db' t' ks n)
  case Nil
  then show ?case by simp
next
  case (Cons h hs)
  obtain r db1 t1 ks1 where one: "run_handler run commit retries t h env db = (r, db1, t1, ks1)"
    by (cases "run_handler run commit retries t h env db")
  obtain fs2 db2 t2 ks2 where rest: "run_subscribers run commit retries t1 hs env db1 = (fs2, db2, t2, ks2)"
    by (cases "run_subscribers run commit retries t1 hs env db1")
  have eqs: "db' = db2" "t' = t2" "ks = ks1 @ ks2" using Cons.prems(1) one rest by simp_all
  have adv: "advances run commit I env h" "list_all (advances run commit I env) hs"
    using Cons.prems(2) by simp_all
  have "I t1 db1 (n + length ks1)"
    using run_loop_advances [OF adv(1) one [unfolded run_handler_def] Cons.prems(3)] .
  from Cons.IH [OF rest adv(2) this] show ?case by (simp add: eqs add.assoc)
qed

lemma dispatch_advances:
  assumes "dispatch run commit reg retries t env db = (r, db', t', ks)"
    and "list_all (advances run commit I env) (handlers_for reg (env_message_type env))" "I t db n"
  shows "I t' db' (n + length ks)"
proof -
  obtain fs db2 t2 ks2 where run: "run_subscribers run commit retries t
      (handlers_for reg (env_message_type env)) env db = (fs, db2, t2, ks2)"
    by (cases "run_subscribers run commit retries t (handlers_for reg (env_message_type env)) env db")
  note I = run_subscribers_advances [OF run assms(2,3)]
  show ?thesis
  proof (cases "handlers_for reg (env_message_type env) = []")
    case True
    then show ?thesis using assms(1,3) by (simp add: dispatch_def)
  next
    case False
    then show ?thesis using assms(1) run I by (auto simp: dispatch_def Let_def split: if_splits)
  qed
qed

lemma deliver_all_advances:
  "deliver_all run commit reg retries t envs db = (db', t', ks) \<Longrightarrow>
   (\<And>env. env \<in> set envs \<Longrightarrow> list_all (advances run commit I env) (handlers_for reg (env_message_type env))) \<Longrightarrow>
   I t db n \<Longrightarrow> I t' db' (n + length ks)"
proof (induction envs arbitrary: t db db' t' ks n)
  case Nil
  then show ?case by simp
next
  case (Cons env envs)
  obtain r db1 t1 ks1 where one: "dispatch run commit reg retries t env db = (r, db1, t1, ks1)"
    by (cases "dispatch run commit reg retries t env db")
  obtain db2 t2 ks2 where rest: "deliver_all run commit reg retries t1 envs db1 = (db2, t2, ks2)"
    by (cases "deliver_all run commit reg retries t1 envs db1")
  have eqs: "db' = db2" "t' = t2" "ks = ks1 @ ks2" using Cons.prems(1) one rest by simp_all
  have "I t1 db1 (n + length ks1)"
    using one Cons.prems(2) [of env] Cons.prems(3) by (intro dispatch_advances [where I = I]) simp_all
  from Cons.IH [OF rest _ this] Cons.prems(2) show ?case by (simp add: eqs add.assoc)
qed

lemma attempt_committed:
  assumes "attempt run commit t h env db = (Inr True, db')"
  obtains db1 where "run t h env db = Inr db1" "md_store db' = md_store db1" "md_outbox db' = md_outbox db1"
  using assms
  by (auto simp: attempt_def attempt_body_def bindE_Inr_iff
      split: sum.splits bool.splits option.splits if_splits)

section \<open>One delivery\<close>

text \<open>
  C17. One delivery always ends, whatever the handlers and the commits do: after at most one
  attempt and \<open>max(immediate_retries, 0)\<close> retries per subscriber. It succeeds exactly when
  every subscriber has its row in the inbox; otherwise it raises one error that carries as
  many failures as there are subscribers without a row, while the rows of the others stand.
  A delivery that every subscriber had handled before changes nothing. (A handler leaves the
  inbox alone; the names of the subscribers differ, as the registry keys them.)
\<close>

theorem dispatch_bounded:
  assumes "\<And>t h env db db'. run t h env db = Inr db' \<Longrightarrow> md_inbox db' = md_inbox db"
    and "dispatch run commit reg retries t env db = (r, db', t', ks)"
    and "distinct (map inbox_key (md_inbox db))"
    and "distinct (map handler_name (handlers_for reg (env_message_type env)))"
  shows "t' \<le> t + length (handlers_for reg (env_message_type env)) * (nat (max retries 0) + 1)
    \<and> (let missing = filter (\<lambda>h. (env_message_id env, handler_name h) \<notin> set (map inbox_key (md_inbox db')))
                        (handlers_for reg (env_message_type env))
       in case r of Inr u \<Rightarrow> missing = []
          | Inl e \<Rightarrow> missing \<noteq> [] \<and> (\<exists>fs. e = HandlingError fs \<and> length fs = length missing))
    \<and> ((\<forall>h \<in> set (handlers_for reg (env_message_type env)).
          (env_message_id env, handler_name h) \<in> set (map inbox_key (md_inbox db))) \<longrightarrow> r = Inr () \<and> db' = db)"
proof -
  have law: "inbox_handlers run" by (rule inbox_handlers.intro) (rule assms(1))
  show ?thesis
    using inbox_handlers.dispatch_inbox(3,5) [OF law assms(2,3)]
      inbox_handlers.dispatch_outcome [OF law assms(2-4)] by (simp only: Let_def) blast
qed

text \<open>Two subscribers, one that always fails and one that works; one retry.\<close>

definition broken_first :: "unit handler_run" where
  "broken_first t h env db = (if hc_class h = ''Broken'' then Inl (PyError ''RuntimeError'') else Inr db)"

definition two_subscribers :: handler_registry where
  "two_subscribers = register_all [init_handler_class ''Broken'' ''T'' [], init_handler_class ''Working'' ''T'' []] []"

lemma dispatch_bounded_witness:
  "dispatch broken_first (\<lambda>_ _. None) two_subscribers 1 0
      \<lparr>env_message_id = 5, env_message_type = ''T'', env_body = [], env_headers = []\<rparr>
      \<lparr>md_store = (), md_outbox = [], md_inbox = []\<rparr>
    = (Inl (HandlingError [PyError ''RuntimeError'']),
       \<lparr>md_store = (), md_outbox = [],
        md_inbox = [\<lparr>ib_message_id = 5, ib_message_type = ''T'', ib_handler_name = ''Working''\<rparr>]\<rparr>,
       3, [(5, ''Working'')])
   \<and> (3::nat) \<le> 0 + 2 * (nat (max 1 0) + 1)"
proof -
  let ?env = "\<lparr>env_message_id = 5, env_message_type = ''T'', env_body = [], env_headers = []\<rparr> :: message_envelope"
  let ?db = "\<lparr>md_store = (), md_outbox = [], md_inbox = []\<rparr> :: unit module_db"
  have d: "dispatch broken_first (\<lambda>_ _. None) two_subscribers 1 0 ?env ?db
    = (Inl (HandlingError [PyError ''RuntimeError'']),
       \<lparr>md_store = (), md_outbox = [],
        md_inbox = [\<lparr>ib_message_id = 5, ib_message_type = ''T'', ib_handler_name = ''Working''\<rparr>]\<rparr>,
       3, [(5, ''Working'')])" by code_simp
  have hs: "handlers_for two_subscribers (env_message_type ?env)
      = [init_handler_class ''Broken'' ''T'' [], init_handler_class ''Working'' ''T'' []]" by code_simp
  have names: "distinct (map handler_name (handlers_for two_subscribers (env_message_type ?env)))" by code_simp
  have law: "broken_first t h env db = Inr db' \<Longrightarrow> md_inbox db' = md_inbox db" for t h env db db'
    by (auto simp: broken_first_def split: if_splits)
  show ?thesis using dispatch_bounded [OF law d _ names] d hs by simp
qed

end
