(* ===== verification/Bus_Topology.thy ===== *)
theory Bus_Topology
  imports Settings App_Errors
begin

text \<open>
  The broker topology of one worker (\<open>modules/shared/message_bus/rabbitmq/config.py\<close>): the
  exchanges, queues and retry policy read from the settings, the overrides of the command
  line, and the return path of a retry, derived from the primary queue where it is unset.
\<close>

definition RETRY_RETURN_SUFFIX :: string where
  "RETRY_RETURN_SUFFIX = ''retry''"

record broker_topology =
  bt_url :: string
  bt_app_name :: string
  bt_heartbeat :: int
  bt_primary_exchange :: string
  bt_primary_exchange_type :: string
  bt_primary_queue :: string
  bt_primary_binding_key :: string
  bt_retry_exchange :: string
  bt_retry_exchange_type :: string
  bt_retry_queue :: string
  bt_retry_binding_key :: string
  bt_retry_message_ttl_ms :: int
  bt_retry_dead_letter_exchange :: string
  bt_retry_dead_letter_routing_key :: string
  bt_primary_retry_binding_exchange :: string
  bt_primary_retry_binding_key :: string
  bt_error_exchange :: string
  bt_error_exchange_type :: string
  bt_error_queue :: string
  bt_error_routing_key :: string
  bt_immediate_retries :: int
  bt_delayed_retries :: int
  bt_prefetch :: int

definition from_settings :: "settings \<Rightarrow> broker_topology" where
  "from_settings s =
     \<lparr>bt_url = rabbitmq_url s, bt_app_name = rabbitmq_app_name s, bt_heartbeat = rabbitmq_heartbeat s,
      bt_primary_exchange = rabbitmq_primary_exchange s,
      bt_primary_exchange_type = rabbitmq_primary_exchange_type s,
      bt_primary_queue = rabbitmq_primary_queue s, bt_primary_binding_key = rabbitmq_primary_binding_key s,
      bt_retry_exchange = rabbitmq_retry_exchange s, bt_retry_exchange_type = rabbitmq_retry_exchange_type s,
      bt_retry_queue = rabbitmq_retry_queue s, bt_retry_binding_key = rabbitmq_retry_binding_key s,
      bt_retry_message_ttl_ms = rabbitmq_retry_message_ttl_ms s,
      bt_retry_dead_letter_exchange = rabbitmq_retry_dead_letter_exchange s,
      bt_retry_dead_letter_routing_key = rabbitmq_retry_dead_letter_routing_key s,
      bt_primary_retry_binding_exchange = rabbitmq_primary_retry_binding_exchange s,
      bt_primary_retry_binding_key = rabbitmq_primary_retry_binding_key s,
      bt_error_exchange = rabbitmq_error_exchange s, bt_error_exchange_type = rabbitmq_error_exchange_type s,
      bt_error_queue = rabbitmq_error_queue s, bt_error_routing_key = rabbitmq_error_routing_key s,
      bt_immediate_retries = rabbitmq_immediate_retries s, bt_delayed_retries = rabbitmq_delayed_retries s,
      bt_prefetch = rabbitmq_consume_limit s\<rparr>"

section \<open>Overrides\<close>

text \<open>The keyword arguments that the two commands pass, \<open>None\<close> where the operator typed nothing.\<close>

record topology_overrides =
  ov_primary_exchange :: "string option"
  ov_primary_exchange_type :: "string option"
  ov_primary_queue :: "string option"
  ov_primary_binding_key :: "string option"
  ov_retry_exchange :: "string option"
  ov_retry_exchange_type :: "string option"
  ov_retry_queue :: "string option"
  ov_retry_binding_key :: "string option"
  ov_retry_message_ttl_ms :: "int option"
  ov_retry_dead_letter_exchange :: "string option"
  ov_retry_dead_letter_routing_key :: "string option"
  ov_primary_retry_binding_exchange :: "string option"
  ov_primary_retry_binding_key :: "string option"
  ov_error_exchange :: "string option"
  ov_error_exchange_type :: "string option"
  ov_error_queue :: "string option"
  ov_error_routing_key :: "string option"
  ov_immediate_retries :: "int option"
  ov_delayed_retries :: "int option"
  ov_app_name :: "string option"
  ov_prefetch :: "int option"

definition no_overrides :: topology_overrides where
  "no_overrides =
     \<lparr>ov_primary_exchange = None, ov_primary_exchange_type = None, ov_primary_queue = None,
      ov_primary_binding_key = None, ov_retry_exchange = None, ov_retry_exchange_type = None,
      ov_retry_queue = None, ov_retry_binding_key = None, ov_retry_message_ttl_ms = None,
      ov_retry_dead_letter_exchange = None, ov_retry_dead_letter_routing_key = None,
      ov_primary_retry_binding_exchange = None, ov_primary_retry_binding_key = None,
      ov_error_exchange = None, ov_error_exchange_type = None, ov_error_queue = None,
      ov_error_routing_key = None, ov_immediate_retries = None, ov_delayed_retries = None,
      ov_app_name = None, ov_prefetch = None\<rparr>"

definition given :: "'a option \<Rightarrow> 'a \<Rightarrow> 'a" where
  "given v d = (case v of None \<Rightarrow> d | Some x \<Rightarrow> x)"

definition overridden_with :: "topology_overrides \<Rightarrow> broker_topology \<Rightarrow> broker_topology" where
  "overridden_with ov t =
     t\<lparr>bt_primary_exchange := given (ov_primary_exchange ov) (bt_primary_exchange t),
       bt_primary_exchange_type := given (ov_primary_exchange_type ov) (bt_primary_exchange_type t),
       bt_primary_queue := given (ov_primary_queue ov) (bt_primary_queue t),
       bt_primary_binding_key := given (ov_primary_binding_key ov) (bt_primary_binding_key t),
       bt_retry_exchange := given (ov_retry_exchange ov) (bt_retry_exchange t),
       bt_retry_exchange_type := given (ov_retry_exchange_type ov) (bt_retry_exchange_type t),
       bt_retry_queue := given (ov_retry_queue ov) (bt_retry_queue t),
       bt_retry_binding_key := given (ov_retry_binding_key ov) (bt_retry_binding_key t),
       bt_retry_message_ttl_ms := given (ov_retry_message_ttl_ms ov) (bt_retry_message_ttl_ms t),
       bt_retry_dead_letter_exchange := given (ov_retry_dead_letter_exchange ov) (bt_retry_dead_letter_exchange t),
       bt_retry_dead_letter_routing_key :=
         given (ov_retry_dead_letter_routing_key ov) (bt_retry_dead_letter_routing_key t),
       bt_primary_retry_binding_exchange :=
         given (ov_primary_retry_binding_exchange ov) (bt_primary_retry_binding_exchange t),
       bt_primary_retry_binding_key := given (ov_primary_retry_binding_key ov) (bt_primary_retry_binding_key t),
       bt_error_exchange := given (ov_error_exchange ov) (bt_error_exchange t),
       bt_error_exchange_type := given (ov_error_exchange_type ov) (bt_error_exchange_type t),
       bt_error_queue := given (ov_error_queue ov) (bt_error_queue t),
       bt_error_routing_key := given (ov_error_routing_key ov) (bt_error_routing_key t),
       bt_immediate_retries := given (ov_immediate_retries ov) (bt_immediate_retries t),
       bt_delayed_retries := given (ov_delayed_retries ov) (bt_delayed_retries t),
       bt_app_name := given (ov_app_name ov) (bt_app_name t),
       bt_prefetch := given (ov_prefetch ov) (bt_prefetch t)\<rparr>"

lemma overridden_with_nothing: "overridden_with no_overrides t = t"
  by (simp add: overridden_with_def no_overrides_def given_def)

section \<open>The return path of a retry\<close>

definition or_derived :: "string \<Rightarrow> string \<Rightarrow> string" where
  "or_derived v d = (if v = [] then d else v)"

definition resolved_retry_dead_letter_exchange :: "broker_topology \<Rightarrow> string" where
  "resolved_retry_dead_letter_exchange t = or_derived (bt_retry_dead_letter_exchange t) (bt_retry_exchange t)"

definition resolved_retry_dead_letter_routing_key :: "broker_topology \<Rightarrow> string" where
  "resolved_retry_dead_letter_routing_key t =
     or_derived (bt_retry_dead_letter_routing_key t) (bt_primary_queue t @ ''.'' @ RETRY_RETURN_SUFFIX)"

definition resolved_primary_retry_binding_exchange :: "broker_topology \<Rightarrow> string" where
  "resolved_primary_retry_binding_exchange t =
     or_derived (bt_primary_retry_binding_exchange t) (resolved_retry_dead_letter_exchange t)"

definition resolved_primary_retry_binding_key :: "broker_topology \<Rightarrow> string" where
  "resolved_primary_retry_binding_key t =
     or_derived (bt_primary_retry_binding_key t) (resolved_retry_dead_letter_routing_key t)"

text \<open>The delay, as the rational number that the division denotes.\<close>

definition retry_delay_seconds :: "broker_topology \<Rightarrow> rat" where
  "retry_delay_seconds t = of_int (bt_retry_message_ttl_ms t) / 1000"

text \<open>The two halves of the path, as the operator or the derivation sets them.\<close>

definition return_address :: "broker_topology \<Rightarrow> string \<times> string" where
  "return_address t = (resolved_retry_dead_letter_exchange t, resolved_retry_dead_letter_routing_key t)"

definition return_binding :: "broker_topology \<Rightarrow> string \<times> string" where
  "return_binding t = (resolved_primary_retry_binding_exchange t, resolved_primary_retry_binding_key t)"

lemma return_path_meets:
  "return_binding t = return_address t \<longleftrightarrow>
   bt_primary_retry_binding_exchange t \<in> {[], resolved_retry_dead_letter_exchange t}
   \<and> bt_primary_retry_binding_key t \<in> {[], resolved_retry_dead_letter_routing_key t}"
  by (auto simp: return_binding_def return_address_def resolved_primary_retry_binding_exchange_def
      resolved_primary_retry_binding_key_def or_derived_def)

lemma return_key_inj:
  assumes "bt_retry_dead_letter_routing_key t = []" "bt_retry_dead_letter_routing_key t' = []"
  shows "resolved_retry_dead_letter_routing_key t = resolved_retry_dead_letter_routing_key t'
    \<longleftrightarrow> bt_primary_queue t = bt_primary_queue t'"
  using assms by (simp add: resolved_retry_dead_letter_routing_key_def or_derived_def)

end
