(* ===== verification/Bus_Broker.thy ===== *)
theory Bus_Broker
  imports Bus_Topology Bus_Outbox
begin

text \<open>
  The broker connection (\<open>modules/shared/message_bus/rabbitmq/connection.py\<close>): declaring the
  topology, publishing, the delayed retry and the dead letter. RabbitMQ and its client
  library are not part of the repository: a call to them is a value, and performing one is
  an argument \<open>amqp\<close> that may raise and changes the broker \<open>'b\<close>. The locale
  \<open>amqp_channel\<close> states what is relied on; under it the connection is the \<open>publisher\<close>
  that the outbox relay needs.
\<close>

section \<open>Steps that keep the state when they raise\<close>

definition bindS :: "('s \<Rightarrow> 'a res \<times> 's) \<Rightarrow> ('a \<Rightarrow> 's \<Rightarrow> 'b res \<times> 's) \<Rightarrow> 's \<Rightarrow> 'b res \<times> 's" where
  "bindS m f s = (case m s of (Inl e, s') \<Rightarrow> (Inl e, s') | (Inr x, s') \<Rightarrow> f x s')"

definition thenS :: "('s \<Rightarrow> 'a res \<times> 's) \<Rightarrow> ('s \<Rightarrow> 'b res \<times> 's) \<Rightarrow> 's \<Rightarrow> 'b res \<times> 's" where
  "thenS m k = bindS m (\<lambda>_. k)"

definition liftS :: "'a res \<Rightarrow> 's \<Rightarrow> 'a res \<times> 's" where
  "liftS r s = (r, s)"

lemma bindS_Inr:
  "bindS m f s = (Inr y, s'') \<longleftrightarrow> (\<exists>x s'. m s = (Inr x, s') \<and> f x s' = (Inr y, s''))"
  by (auto simp: bindS_def split: prod.splits sum.splits)

lemma bindS_Inl:
  "bindS m f s = (Inl e, s'') \<longleftrightarrow> m s = (Inl e, s'') \<or> (\<exists>x s'. m s = (Inr x, s') \<and> f x s' = (Inl e, s''))"
  by (auto simp: bindS_def split: prod.splits sum.splits)

lemma liftS_eq [simp]: "liftS r s = (r', s') \<longleftrightarrow> r' = r \<and> s' = s"
  by (auto simp: liftS_def)

lemma bindS_liftS [simp]: "bindS (liftS (Inr x)) f = f x" "bindS (liftS (Inl e)) f = liftS (Inl e)"
  by (simp_all add: bindS_def liftS_def fun_eq_iff)

section \<open>Calls\<close>

datatype exchange_kind = DIRECT | TOPIC | FANOUT | HEADERS

definition EXCHANGE_TYPES :: "exchange_kind dict" where
  "EXCHANGE_TYPES = [(''direct'', DIRECT), (''topic'', TOPIC), (''fanout'', FANOUT), (''headers'', HEADERS)]"

definition exchange_kind_of :: "string \<Rightarrow> exchange_kind" where
  "exchange_kind_of ty = dict_get ty TOPIC EXCHANGE_TYPES"

text \<open>A message as the client library carries it; it is always published persistent.\<close>

record amqp_message =
  am_body :: "8 word list"
  am_content_type :: "string option"
  am_message_id :: "string option"
  am_type :: "string option"
  am_headers :: "pyval dict"
  am_expiration :: "rat option"

text \<open>Exchanges and queues are declared durable.\<close>

datatype amqp_call =
    DeclareExchange string exchange_kind
  | DeclareQueue string "pyval dict"
  | BindQueue string string string
  | SetQos int
  | Publish string string amqp_message
  | Ack nat

type_synonym 'b amqp = "amqp_call \<Rightarrow> 'b \<Rightarrow> exc option \<times> 'b"

section \<open>The connection\<close>

text \<open>The channel is open between \<open>connect\<close> and \<open>close\<close>; the exchanges it declared are cached.\<close>

record 'b broker_connection =
  bc_topology :: broker_topology
  bc_open :: bool
  bc_exchanges :: "string list"
  bc_broker :: 'b

type_synonym ('b, 'a) on_connection = "'b broker_connection \<Rightarrow> 'a res \<times> 'b broker_connection"

definition new_connection :: "broker_topology \<Rightarrow> 'b \<Rightarrow> 'b broker_connection" where
  "new_connection t b = \<lparr>bc_topology = t, bc_open = False, bc_exchanges = [], bc_broker = b\<rparr>"

text \<open>\<open>opening\<close> is the client library's connection and channel: the exception it raises, if any.\<close>

definition connect :: "('b \<Rightarrow> exc option \<times> 'b) \<Rightarrow> ('b, unit) on_connection" where
  "connect opening c =
     (case opening (bc_broker c) of
        (Some e, b) \<Rightarrow> (Inl e, c\<lparr>bc_broker := b\<rparr>)
      | (None, b) \<Rightarrow> (Inr (), c\<lparr>bc_broker := b, bc_open := True\<rparr>))"

definition close_connection :: "'b broker_connection \<Rightarrow> 'b broker_connection" where
  "close_connection c = c\<lparr>bc_open := False, bc_exchanges := []\<rparr>"

definition perform :: "'b amqp \<Rightarrow> amqp_call \<Rightarrow> ('b, unit) on_connection" where
  "perform amqp call c =
     (case amqp call (bc_broker c) of
        (Some e, b) \<Rightarrow> (Inl e, c\<lparr>bc_broker := b\<rparr>)
      | (None, b) \<Rightarrow> (Inr (), c\<lparr>bc_broker := b\<rparr>))"

text \<open>A call through the property \<open>channel\<close>, which raises while the channel is not open.\<close>

definition on_channel :: "'b amqp \<Rightarrow> amqp_call \<Rightarrow> ('b, unit) on_connection" where
  "on_channel amqp call c =
     (if bc_open c then perform amqp call c else (Inl (bus_exc MessagePublicationError), c))"

definition declare_exchange :: "'b amqp \<Rightarrow> string \<Rightarrow> string \<Rightarrow> ('b, unit) on_connection" where
  "declare_exchange amqp name ty c =
     (if name \<in> set (bc_exchanges c) then (Inr (), c)
      else bindS (on_channel amqp (DeclareExchange name (exchange_kind_of ty)))
             (\<lambda>_ c. (Inr (), c\<lparr>bc_exchanges := bc_exchanges c @ [name]\<rparr>)) c)"

definition declare_publisher_topology :: "'b amqp \<Rightarrow> ('b, unit) on_connection" where
  "declare_publisher_topology amqp c =
     declare_exchange amqp (bt_primary_exchange (bc_topology c)) (bt_primary_exchange_type (bc_topology c)) c"

definition retry_queue_arguments :: "broker_topology \<Rightarrow> pyval dict" where
  "retry_queue_arguments t =
     [(''x-message-ttl'', PInt (bt_retry_message_ttl_ms t)),
      (''x-dead-letter-exchange'', PStr (resolved_retry_dead_letter_exchange t)),
      (''x-dead-letter-routing-key'', PStr (resolved_retry_dead_letter_routing_key t))]"

definition declare_consumer_topology :: "'b amqp \<Rightarrow> ('b, string) on_connection" where
  "declare_consumer_topology amqp c =
     (let t = bc_topology c in
      thenS (declare_exchange amqp (bt_primary_exchange t) (bt_primary_exchange_type t))
      (thenS (declare_exchange amqp (bt_retry_exchange t) (bt_retry_exchange_type t))
      (thenS (declare_exchange amqp (bt_error_exchange t) (bt_error_exchange_type t))
      (thenS (declare_exchange amqp (resolved_primary_retry_binding_exchange t) (bt_retry_exchange_type t))
      (thenS (declare_exchange amqp (resolved_retry_dead_letter_exchange t) (bt_retry_exchange_type t))
      (thenS (on_channel amqp (DeclareQueue (bt_primary_queue t) []))
      (thenS (perform amqp (BindQueue (bt_primary_queue t) (bt_primary_exchange t) (bt_primary_binding_key t)))
      (thenS (perform amqp (BindQueue (bt_primary_queue t) (resolved_primary_retry_binding_exchange t)
                (resolved_primary_retry_binding_key t)))
      (thenS (on_channel amqp (DeclareQueue (bt_retry_queue t) (retry_queue_arguments t)))
      (thenS (perform amqp (BindQueue (bt_retry_queue t) (bt_retry_exchange t) (bt_retry_binding_key t)))
      (thenS (on_channel amqp (DeclareQueue (bt_error_queue t) []))
      (thenS (perform amqp (BindQueue (bt_error_queue t) (bt_error_exchange t) (bt_error_routing_key t)))
      (thenS (on_channel amqp (SetQos (bt_prefetch t)))
      (liftS (Inr (bt_primary_queue t))))))))))))))) c)"

section \<open>Publishing\<close>

text \<open>
  \<open>publish\<close>: \<open>dumps\<close> is the JSON encoding of a body, which raises for a value it cannot
  represent. An exchange that is not cached is declared as a topic exchange.
\<close>

definition publish ::
  "'b amqp \<Rightarrow> (pyval dict \<Rightarrow> exc + 8 word list) \<Rightarrow> string \<Rightarrow> string \<Rightarrow> pyval dict \<Rightarrow> string \<Rightarrow> string \<Rightarrow>
   pyval dict option \<Rightarrow> rat option \<Rightarrow> ('b, unit) on_connection" where
  "publish amqp dumps exch key body mid ty headers expiration =
     thenS (declare_exchange amqp exch ''topic'')
     (bindS (liftS (dumps body)) (\<lambda>bytes.
        perform amqp (Publish exch key
          \<lparr>am_body = bytes, am_content_type = Some ''application/json'', am_message_id = Some mid,
           am_type = Some ty, am_headers = (case headers of None \<Rightarrow> [] | Some h \<Rightarrow> h),
           am_expiration = expiration\<rparr>)))"

text \<open>The call of the relay for a row.\<close>

definition publish_row ::
  "'b amqp \<Rightarrow> (pyval dict \<Rightarrow> exc + 8 word list) \<Rightarrow> outbox_message \<Rightarrow> 'b broker_connection \<Rightarrow>
   exc option \<times> 'b broker_connection" where
  "publish_row amqp dumps r c =
     (case publish amqp dumps (ob_exchange r) (ob_routing_key r) (ob_body r) (show_uuid (ob_message_id r))
             (ob_message_type r) (Some (ob_headers r)) None c of
        (Inl e, c') \<Rightarrow> (Some e, c')
      | (Inr u, c') \<Rightarrow> (None, c'))"

section \<open>Recoverability\<close>

text \<open>The copy that waits in the retry queue: one redelivery further along.\<close>

definition retry_copy :: "broker_topology \<Rightarrow> int \<Rightarrow> amqp_message \<Rightarrow> amqp_message" where
  "retry_copy t n m =
     m\<lparr>am_headers := dict_set RETRY_ENDPOINT_HEADER (PStr (bt_app_name t))
                       (dict_set REDELIVERY_COUNT_HEADER (PInt (n + 1)) (am_headers m)),
       am_expiration := None\<rparr>"

definition schedule_retry :: "'b amqp \<Rightarrow> amqp_message \<Rightarrow> ('b, unit) on_connection" where
  "schedule_retry amqp m c =
     (let t = bc_topology c in
      bindS (liftS (read_redelivery_count (am_headers m))) (\<lambda>n.
      thenS (declare_exchange amqp (bt_retry_exchange t) (bt_retry_exchange_type t))
      (perform amqp (Publish (bt_retry_exchange t) (bt_retry_binding_key t) (retry_copy t n m)))) c)"

text \<open>
  \<open>failure_text e\<close> is the name of the class, the text and the time of a failure, none of
  which an error value carries here.
\<close>

definition causes_of :: "exc \<Rightarrow> exc list" where
  "causes_of e = (case e of HandlingError fs \<Rightarrow> if fs = [] then [e] else fs | _ \<Rightarrow> [e])"

definition exception_details :: "(exc \<Rightarrow> string \<times> string \<times> string) \<Rightarrow> exc \<Rightarrow> pyval" where
  "exception_details failure_text e =
     PList (map (\<lambda>cause. case failure_text cause of (ty, text, failed) \<Rightarrow>
        PDict [(PStr ''exception_type'', PStr ty), (PStr ''message'', PStr text), (PStr ''failed_at'', PStr failed)])
      (causes_of e))"

definition endpoint_descriptor :: "broker_topology \<Rightarrow> string option \<Rightarrow> pyval" where
  "endpoint_descriptor t ty =
     PDict [(PStr ''name'', PStr (bt_app_name t)),
            (PStr ''delivery_metadata'',
             PDict [(PStr ''message_type'', PStr (case ty of None \<Rightarrow> [] | Some s \<Rightarrow> s)),
                    (PStr ''exchange'', PStr (resolved_retry_dead_letter_exchange t)),
                    (PStr ''routing_key'', PStr (resolved_retry_dead_letter_routing_key t))])]"

definition dead_letter_copy ::
  "(exc \<Rightarrow> string \<times> string \<times> string) \<Rightarrow> broker_topology \<Rightarrow> exc \<Rightarrow> amqp_message \<Rightarrow> amqp_message" where
  "dead_letter_copy failure_text t e m =
     m\<lparr>am_headers := dict_set ENDPOINT_HEADER (endpoint_descriptor t (am_type m))
                       (dict_set EXCEPTION_DETAILS_HEADER (exception_details failure_text e) (am_headers m)),
       am_expiration := None\<rparr>"

definition dead_letter ::
  "'b amqp \<Rightarrow> (exc \<Rightarrow> string \<times> string \<times> string) \<Rightarrow> amqp_message \<Rightarrow> exc \<Rightarrow> ('b, unit) on_connection" where
  "dead_letter amqp failure_text m e c =
     (let t = bc_topology c in
      thenS (declare_exchange amqp (bt_error_exchange t) (bt_error_exchange_type t))
      (perform amqp (Publish (bt_error_exchange t) (bt_error_routing_key t) (dead_letter_copy failure_text t e m))) c)"

section \<open>What is relied on\<close>

text \<open>
  \<open>record b\<close> is what the broker accepted, in order: a call that returns was accepted once,
  one that raises may or may not have been.
\<close>

locale amqp_channel =
  fixes amqp :: "'b amqp"
    and accepted_calls :: "'b \<Rightarrow> amqp_call list"
  assumes call_returns: "amqp call b = (None, b') \<Longrightarrow> accepted_calls b' = accepted_calls b @ [call]"
    and call_raises: "amqp call b = (Some e, b') \<Longrightarrow>
      accepted_calls b' = accepted_calls b \<or> accepted_calls b' = accepted_calls b @ [call]"

definition is_publication :: "amqp_call \<Rightarrow> bool" where
  "is_publication call \<longleftrightarrow> (case call of Publish ex key m \<Rightarrow> True | _ \<Rightarrow> False)"

lemma is_publication_simps [simp]:
  "is_publication (Publish ex key m)" "\<not> is_publication (DeclareExchange n k)"
  "\<not> is_publication (DeclareQueue q args)" "\<not> is_publication (BindQueue q ex key)"
  "\<not> is_publication (SetQos i)" "\<not> is_publication (Ack tag)"
  by (simp_all add: is_publication_def)

text \<open>The message of a row, with the bytes of its encoded body.\<close>

definition row_message :: "(pyval dict \<Rightarrow> exc + 8 word list) \<Rightarrow> outbox_message \<Rightarrow> amqp_message" where
  "row_message dumps r =
     \<lparr>am_body = (case dumps (ob_body r) of Inl e \<Rightarrow> [] | Inr bytes \<Rightarrow> bytes),
      am_content_type = Some ''application/json'', am_message_id = Some (show_uuid (ob_message_id r)),
      am_type = Some (ob_message_type r), am_headers = ob_headers r, am_expiration = None\<rparr>"

definition row_parcel :: "(pyval dict \<Rightarrow> exc + 8 word list) \<Rightarrow> outbox_message \<Rightarrow> amqp_call" where
  "row_parcel dumps r = Publish (ob_exchange r) (ob_routing_key r) (row_message dumps r)"

definition published_on :: "('b \<Rightarrow> amqp_call list) \<Rightarrow> 'b broker_connection \<Rightarrow> amqp_call list" where
  "published_on accepted_calls c = filter is_publication (accepted_calls (bc_broker c))"

context amqp_channel begin

abbreviation log_of :: "'b broker_connection \<Rightarrow> amqp_call list" where
  "log_of c \<equiv> accepted_calls (bc_broker c)"

lemma perform_log:
  assumes "perform amqp call c = (r, c')"
  shows "log_of c' = log_of c @ [call] \<or> (log_of c' = log_of c \<and> r \<noteq> Inr ())"
    and "bc_topology c' = bc_topology c" "bc_open c' = bc_open c" "bc_exchanges c' = bc_exchanges c"
proof -
  obtain x b where x: "amqp call (bc_broker c) = (x, b)" by fastforce
  show "log_of c' = log_of c @ [call] \<or> (log_of c' = log_of c \<and> r \<noteq> Inr ())"
    and "bc_topology c' = bc_topology c" "bc_open c' = bc_open c" "bc_exchanges c' = bc_exchanges c"
    using assms x call_returns [of call "bc_broker c" b] call_raises [of call "bc_broker c" _ b]
    by (cases x; auto simp: perform_def)+
qed

lemma on_channel_log:
  assumes "on_channel amqp call c = (r, c')"
  shows "log_of c' = log_of c @ [call] \<or> (log_of c' = log_of c \<and> r \<noteq> Inr ())"
    and "bc_topology c' = bc_topology c" "bc_open c' = bc_open c" "bc_exchanges c' = bc_exchanges c"
    and "r = Inr () \<Longrightarrow> bc_open c"
  using assms perform_log by (auto simp: on_channel_def split: if_splits)

text \<open>Declaring an exchange publishes nothing, and a declared exchange is in the cache.\<close>

lemma declare_exchange_log:
  assumes "declare_exchange amqp name ty c = (r, c')"
  shows "log_of c' = log_of c \<or> log_of c' = log_of c @ [DeclareExchange name (exchange_kind_of ty)]"
    and "bc_topology c' = bc_topology c" "bc_open c' = bc_open c"
    and "set (bc_exchanges c) \<subseteq> set (bc_exchanges c')"
    and "r = Inr () \<Longrightarrow> name \<in> set (bc_exchanges c')"
    and "r = Inr () \<Longrightarrow> name \<notin> set (bc_exchanges c) \<Longrightarrow>
      log_of c' = log_of c @ [DeclareExchange name (exchange_kind_of ty)]"
proof -
  let ?call = "DeclareExchange name (exchange_kind_of ty)"
  obtain r1 c1 where o: "on_channel amqp ?call c = (r1, c1)" by fastforce
  note O = on_channel_log [OF o]
  consider (cached) "name \<in> set (bc_exchanges c)" "r = Inr ()" "c' = c"
    | (raised) e where "name \<notin> set (bc_exchanges c)" "r1 = Inl e" "r = Inl e" "c' = c1"
    | (declared) "name \<notin> set (bc_exchanges c)" "r1 = Inr ()" "r = Inr ()"
        "c' = c1\<lparr>bc_exchanges := bc_exchanges c1 @ [name]\<rparr>"
    using assms o by (cases r1) (auto simp: declare_exchange_def bindS_def split: if_splits)
  then have "(log_of c' = log_of c \<or> log_of c' = log_of c @ [?call])
    \<and> bc_topology c' = bc_topology c \<and> bc_open c' = bc_open c \<and> set (bc_exchanges c) \<subseteq> set (bc_exchanges c')
    \<and> (r = Inr () \<longrightarrow> name \<in> set (bc_exchanges c'))
    \<and> (r = Inr () \<longrightarrow> name \<notin> set (bc_exchanges c) \<longrightarrow> log_of c' = log_of c @ [?call])"
  proof cases
    case cached
    then show ?thesis by simp
  next
    case raised
    then show ?thesis using O(1-4) by simp blast
  next
    case declared
    then show ?thesis using O(1-4) by auto
  qed
  then show "log_of c' = log_of c \<or> log_of c' = log_of c @ [?call]"
    and "bc_topology c' = bc_topology c" "bc_open c' = bc_open c"
    and "set (bc_exchanges c) \<subseteq> set (bc_exchanges c')"
    and "r = Inr () \<Longrightarrow> name \<in> set (bc_exchanges c')"
    and "r = Inr () \<Longrightarrow> name \<notin> set (bc_exchanges c) \<Longrightarrow> log_of c' = log_of c @ [?call]" by blast+
qed

text \<open>A declaration followed by a publication, as all four senders do it.\<close>

lemma declare_then_publish:
  assumes "thenS (declare_exchange amqp name ty) (perform amqp (Publish ex key m)) c = (r, c')"
  shows "published_on accepted_calls c' = published_on accepted_calls c @ [Publish ex key m]
      \<or> (published_on accepted_calls c' = published_on accepted_calls c \<and> r \<noteq> Inr ())"
    and "bc_topology c' = bc_topology c" "bc_open c' = bc_open c"
    and "filter (\<lambda>call. call = Ack tag) (log_of c') = filter (\<lambda>call. call = Ack tag) (log_of c)"
proof -
  obtain r1 c1 where d: "declare_exchange amqp name ty c = (r1, c1)" by fastforce
  note D = declare_exchange_log(1-3) [OF d]
  have D1: "published_on accepted_calls c1 = published_on accepted_calls c"
    "filter (\<lambda>call. call = Ack tag) (log_of c1) = filter (\<lambda>call. call = Ack tag) (log_of c)"
    using D(1) by (elim disjE; simp add: published_on_def)+
  consider (raised) e where "r = Inl e" "c' = c1" | (sent) "perform amqp (Publish ex key m) c1 = (r, c')"
    using assms d by (cases r1) (auto simp: thenS_def bindS_def)
  then have "(published_on accepted_calls c' = published_on accepted_calls c @ [Publish ex key m]
      \<or> (published_on accepted_calls c' = published_on accepted_calls c \<and> r \<noteq> Inr ()))
    \<and> bc_topology c' = bc_topology c \<and> bc_open c' = bc_open c
    \<and> filter (\<lambda>call. call = Ack tag) (log_of c') = filter (\<lambda>call. call = Ack tag) (log_of c)"
  proof cases
    case raised
    then show ?thesis using D(2,3) D1 by simp
  next
    case sent
    note P = perform_log [OF sent]
    from P(1) show ?thesis
    proof
      assume "log_of c' = log_of c1 @ [Publish ex key m]"
      then show ?thesis using P(2,3) D(2,3) D1 by (simp add: published_on_def)
    next
      assume "log_of c' = log_of c1 \<and> r \<noteq> Inr ()"
      then show ?thesis using P(2,3) D(2,3) D1 by (simp add: published_on_def)
    qed
  qed
  then show "published_on accepted_calls c' = published_on accepted_calls c @ [Publish ex key m]
      \<or> (published_on accepted_calls c' = published_on accepted_calls c \<and> r \<noteq> Inr ())"
    and "bc_topology c' = bc_topology c" "bc_open c' = bc_open c"
    and "filter (\<lambda>call. call = Ack tag) (log_of c') = filter (\<lambda>call. call = Ack tag) (log_of c)" by blast+
qed

lemma publish_log:
  assumes "publish amqp dumps exch key body mid ty headers expiration c = (r, c')"
  shows "(\<exists>bytes. dumps body = Inr bytes \<and> published_on accepted_calls c' = published_on accepted_calls c @
        [Publish exch key \<lparr>am_body = bytes, am_content_type = Some ''application/json'', am_message_id = Some mid,
           am_type = Some ty, am_headers = (case headers of None \<Rightarrow> [] | Some h \<Rightarrow> h), am_expiration = expiration\<rparr>])
      \<or> (published_on accepted_calls c' = published_on accepted_calls c \<and> r \<noteq> Inr ())"
proof (cases "dumps body")
  case (Inl e)
  then have "r \<noteq> Inr ()" and "\<exists>r1. declare_exchange amqp exch ''topic'' c = (r1, c')"
    using assms by (auto simp: publish_def thenS_def bindS_def liftS_def split: prod.splits sum.splits)
  then show ?thesis using declare_exchange_log(1) by (fastforce simp: published_on_def)
next
  case (Inr bytes)
  have "publish amqp dumps exch key body mid ty headers expiration c =
      thenS (declare_exchange amqp exch ''topic'') (perform amqp (Publish exch key
          \<lparr>am_body = bytes, am_content_type = Some ''application/json'', am_message_id = Some mid,
           am_type = Some ty, am_headers = (case headers of None \<Rightarrow> [] | Some h \<Rightarrow> h),
           am_expiration = expiration\<rparr>)) c"
    by (simp add: publish_def Inr)
  from declare_then_publish(1) [OF assms [unfolded this]] show ?thesis using Inr by blast
qed

end

text \<open>The connection is the publisher that the relay relies on.\<close>

sublocale amqp_channel \<subseteq> publisher "publish_row amqp dumps" "published_on accepted_calls" "row_parcel dumps"
  for dumps
proof unfold_locales
  fix r :: outbox_message and c c' :: "'b broker_connection"
  obtain x c1 where p: "publish amqp dumps (ob_exchange r) (ob_routing_key r) (ob_body r)
      (show_uuid (ob_message_id r)) (ob_message_type r) (Some (ob_headers r)) None c = (x, c1)"
    by fastforce
  note L = publish_log [OF p]
  show "published_on accepted_calls c' = published_on accepted_calls c @ [row_parcel dumps r]"
    if "publish_row amqp dumps r c = (None, c')"
    using that p L by (auto simp: publish_row_def row_parcel_def row_message_def split: sum.splits)
  show "published_on accepted_calls c' = published_on accepted_calls c
      \<or> published_on accepted_calls c' = published_on accepted_calls c @ [row_parcel dumps r]"
    if "publish_row amqp dumps r c = (Some e, c')" for e
    using that p L by (auto simp: publish_row_def row_parcel_def row_message_def split: sum.splits)
qed

text \<open>
  A broker that records what it accepts and refuses the calls that its script marks: the
  state is the record and the outcomes still to come, \<open>None\<close> after the last.
\<close>

type_synonym scripted = "amqp_call list \<times> exc option list"

definition scripted_amqp :: "scripted amqp" where
  "scripted_amqp call b =
     (case snd b of
        Some e # rest \<Rightarrow> (Some e, (fst b, rest))
      | None # rest \<Rightarrow> (None, (fst b @ [call], rest))
      | [] \<Rightarrow> (None, (fst b @ [call], [])))"

interpretation scripted: amqp_channel scripted_amqp fst
  by unfold_locales (auto simp: scripted_amqp_def split: list.splits option.splits)

section \<open>The relay on the connection\<close>

definition relay_declares :: "'b amqp \<Rightarrow> 'b broker_connection \<Rightarrow> exc option \<times> 'b broker_connection" where
  "relay_declares amqp c =
     (case declare_publisher_topology amqp c of (Inl e, c') \<Rightarrow> (Some e, c') | (Inr u, c') \<Rightarrow> (None, c'))"

context amqp_channel begin

lemma relay_declares_publishes_nothing:
  "relay_declares amqp c = (x, c') \<Longrightarrow> published_on accepted_calls c' = published_on accepted_calls c"
proof -
  assume r: "relay_declares amqp c = (x, c')"
  obtain r1 c1 where d: "declare_exchange amqp (bt_primary_exchange (bc_topology c))
      (bt_primary_exchange_type (bc_topology c)) c = (r1, c1)"
    by fastforce
  have "c' = c1" using r d by (simp add: relay_declares_def declare_publisher_topology_def split: sum.splits)
  then show ?thesis using declare_exchange_log(1) [OF d] by (elim disjE; simp add: published_on_def)
qed

lemma connection_publishes: "publisher (publish_row amqp dumps) (published_on accepted_calls) (row_parcel dumps)"
  by unfold_locales

text \<open>An open channel of a broker that raises nothing.\<close>

lemma reliable_declare:
  assumes "\<And>call b. fst (amqp call b) = None" "bc_open c"
  shows "fst (declare_exchange amqp name ty c) = Inr ()"
  using assms(1) [of "DeclareExchange name (exchange_kind_of ty)" "bc_broker c"] assms(2)
  by (cases "amqp (DeclareExchange name (exchange_kind_of ty)) (bc_broker c)")
    (auto simp: declare_exchange_def bindS_def on_channel_def perform_def)

lemma reliable_relay:
  assumes reliable: "\<And>call b. fst (amqp call b) = None" and enc: "\<And>body. \<exists>bytes. dumps body = Inr bytes"
    and op: "bc_open c"
  shows "fst (relay_declares amqp c) = None \<and> bc_open (snd (relay_declares amqp c))"
    and "fst (publish_row amqp dumps r c) = None \<and> bc_open (snd (publish_row amqp dumps r c))"
proof -
  have dec: "\<exists>c'. declare_exchange amqp name ty c = (Inr (), c') \<and> bc_open c'" for name ty
    using reliable_declare [OF reliable op, of name ty] declare_exchange_log(3) op
    by (cases "declare_exchange amqp name ty c") auto
  show "fst (relay_declares amqp c) = None \<and> bc_open (snd (relay_declares amqp c))"
    using dec [of "bt_primary_exchange (bc_topology c)" "bt_primary_exchange_type (bc_topology c)"]
    by (auto simp: relay_declares_def declare_publisher_topology_def)
  have per: "\<exists>c''. perform amqp call c' = (Inr (), c'') \<and> bc_open c'' = bc_open c'" for call c'
    using reliable [of call "bc_broker c'"] by (cases "amqp call (bc_broker c')") (auto simp: perform_def)
  obtain bytes where b: "dumps (ob_body r) = Inr bytes" using enc by blast
  obtain c1 where c1: "declare_exchange amqp (ob_exchange r) ''topic'' c = (Inr (), c1)" "bc_open c1"
    using dec by blast
  let ?call = "Publish (ob_exchange r) (ob_routing_key r) (row_message dumps r)"
  obtain c2 where c2: "perform amqp ?call c1 = (Inr (), c2)" "bc_open c2" using per c1(2) by blast
  have "publish_row amqp dumps r c = (None, c2)"
    using c1(1) c2(1) by (simp add: publish_row_def publish_def thenS_def bindS_def [of "declare_exchange _ _ _"] b row_message_def)
  then show "fst (publish_row amqp dumps r c) = None \<and> bc_open (snd (publish_row amqp dumps r c))"
    using c2(2) by simp
qed

end

text \<open>
  C11. A run of the relay over the connection counts exactly the rows that it marks sent, each
  of them pending and in its batch, changes no other row, and marks a row only after the
  broker accepted its message; what it published are messages of the batch, in order.
\<close>

theorem relay_at_least_once:
  assumes "amqp_channel amqp calls" "distinct (map ob_message_id rows)"
    and "relay_dispatch (relay_declares amqp) (publish_row amqp dumps) commit now locked limit (rows, c)
      = (Inr n, rows', c')"
  shows "\<exists>batch ds. find_pending locked limit rows = Inr batch
    \<and> published_on calls c' = published_on calls c @ ds \<and> subseq ds (map (row_parcel dumps) batch)
    \<and> n = length (sent_rows rows rows')
    \<and> (\<forall>(r, r') \<in> set (zip rows rows').
         r' = r \<or> (r \<in> set batch \<and> r' = mark_as_sent now r \<and> row_parcel dumps r \<in> set ds))"
  using publisher.relay_dispatch_accepted [OF amqp_channel.connection_publishes [OF assms(1)] assms(3)
      amqp_channel.relay_declares_publishes_nothing [OF assms(1)] assms(2)] .


section \<open>The declared topology\<close>

text \<open>The declarations of a list of exchanges that the cache does not hold.\<close>

fun declare_calls :: "string list \<Rightarrow> (string \<times> string) list \<Rightarrow> amqp_call list" where
  "declare_calls cache [] = []"
| "declare_calls cache ((name, ty) # xs) =
     (if name \<in> set cache then declare_calls cache xs
      else DeclareExchange name (exchange_kind_of ty) # declare_calls (cache @ [name]) xs)"

definition topology_exchanges :: "broker_topology \<Rightarrow> (string \<times> string) list" where
  "topology_exchanges t =
     [(bt_primary_exchange t, bt_primary_exchange_type t), (bt_retry_exchange t, bt_retry_exchange_type t),
      (bt_error_exchange t, bt_error_exchange_type t),
      (resolved_primary_retry_binding_exchange t, bt_retry_exchange_type t),
      (resolved_retry_dead_letter_exchange t, bt_retry_exchange_type t)]"

definition topology_queues :: "broker_topology \<Rightarrow> amqp_call list" where
  "topology_queues t =
     [DeclareQueue (bt_primary_queue t) [],
      BindQueue (bt_primary_queue t) (bt_primary_exchange t) (bt_primary_binding_key t),
      BindQueue (bt_primary_queue t) (fst (return_binding t)) (snd (return_binding t)),
      DeclareQueue (bt_retry_queue t) (retry_queue_arguments t),
      BindQueue (bt_retry_queue t) (bt_retry_exchange t) (bt_retry_binding_key t),
      DeclareQueue (bt_error_queue t) [],
      BindQueue (bt_error_queue t) (bt_error_exchange t) (bt_error_routing_key t),
      SetQos (bt_prefetch t)]"

lemma thenS_Inr: "thenS m k s = (Inr y, s'') \<longleftrightarrow> (\<exists>x s'. m s = (Inr x, s') \<and> k s' = (Inr y, s''))"
  by (simp add: thenS_def bindS_Inr)

definition cached :: "string \<times> string \<Rightarrow> string list \<Rightarrow> string list" where
  "cached x cache = (if fst x \<in> set cache then cache else cache @ [fst x])"

lemma declare_calls_Cons:
  "declare_calls cache (x # y # xs) = declare_calls cache [x] @ declare_calls (cached x cache) (y # xs)"
  by (cases x) (simp add: cached_def)

lemma declare_calls_names: "DeclareExchange n k \<in> set (declare_calls cache xs) \<Longrightarrow> n \<in> fst ` set xs"
  by (induction cache xs rule: declare_calls.induct) (auto split: if_splits)

lemma declare_calls_all:
  "n \<in> fst ` set xs \<Longrightarrow> n \<in> set cache \<or> (\<exists>k. DeclareExchange n k \<in> set (declare_calls cache xs))"
  by (induction cache xs rule: declare_calls.induct) auto

context amqp_channel begin

lemma declare_exchange_Inr:
  assumes "declare_exchange amqp name ty c = (Inr x, c')"
  shows "log_of c' = log_of c @ declare_calls (bc_exchanges c) [(name, ty)]"
    and "bc_exchanges c' = cached (name, ty) (bc_exchanges c)"
proof -
  show "log_of c' = log_of c @ declare_calls (bc_exchanges c) [(name, ty)]"
  proof (cases "name \<in> set (bc_exchanges c)")
    case True
    then show ?thesis using assms by (simp add: declare_exchange_def)
  next
    case False
    then show ?thesis using declare_exchange_log(6) [OF assms] by simp
  qed
  show "bc_exchanges c' = cached (name, ty) (bc_exchanges c)"
    using assms on_channel_log(4) by (auto simp: declare_exchange_def bindS_Inr cached_def split: if_splits)
qed

lemma perform_Inr: "perform amqp call c = (Inr x, c') \<Longrightarrow> log_of c' = log_of c @ [call]"
  using perform_log(1) by fastforce

lemma on_channel_Inr: "on_channel amqp call c = (Inr x, c') \<Longrightarrow> log_of c' = log_of c @ [call]"
  using on_channel_log(1) by fastforce

lemma declare_exchanges_Inr:
  assumes "thenS (declare_exchange amqp name ty) k c = (Inr y, c'')"
  obtains c' where "k c' = (Inr y, c'')" and "log_of c' = log_of c @ declare_calls (bc_exchanges c) [(name, ty)]"
    and "bc_exchanges c' = cached (name, ty) (bc_exchanges c)"
  using assms declare_exchange_Inr by (auto simp: thenS_Inr simp del: declare_calls.simps)

lemma perform_then:
  assumes "thenS (perform amqp call) k c = (Inr y, c'')"
  obtains c' where "k c' = (Inr y, c'')" and "log_of c' = log_of c @ [call]"
  using assms perform_Inr by (auto simp: thenS_Inr)

lemma on_channel_then:
  assumes "thenS (on_channel amqp call) k c = (Inr y, c'')"
  obtains c' where "k c' = (Inr y, c'')" and "log_of c' = log_of c @ [call]"
  using assms on_channel_Inr by (auto simp: thenS_Inr)

lemma declare_consumer_topology_calls:
  assumes "declare_consumer_topology amqp c = (Inr q, c')" and t: "bc_topology c = t"
  shows "q = bt_primary_queue t
    \<and> log_of c' = log_of c @ declare_calls (bc_exchanges c) (topology_exchanges t) @ topology_queues t"
  using assms(1) unfolding declare_consumer_topology_def Let_def t
  by (elim declare_exchanges_Inr perform_then on_channel_then)
    (simp add: topology_exchanges_def topology_queues_def return_binding_def declare_calls_Cons
      del: declare_calls.simps)

end


section \<open>Witnesses\<close>

definition default_topology :: broker_topology where
  "default_topology = from_settings default_settings"

definition open_connection :: "scripted broker_connection" where
  "open_connection = (new_connection default_topology ([], []))\<lparr>bc_open := True\<rparr>"

definition sample_row :: outbox_message where
  "sample_row = init_outbox_message 1 ''ShipmentManifestFinalized'' ''trade-logistics.topic'' ''k'' [] None 10"


theorem relay_at_least_once_witness:
  "\<exists>n rows' c'. relay_dispatch (relay_declares scripted_amqp) (publish_row scripted_amqp (\<lambda>_. Inr [1])) (\<lambda>_. None)
       20 {} 5 ([sample_row], open_connection) = (Inr n, rows', c') \<and> n = length (sent_rows [sample_row] rows')"
proof -
  let ?run = "relay_dispatch (relay_declares scripted_amqp) (publish_row scripted_amqp (\<lambda>_. Inr [1])) (\<lambda>_. None)
       20 {} 5 ([sample_row], open_connection)"
  have "\<not> isl (fst ?run)" by code_simp
  then obtain n rows' c' where r: "?run = (Inr n, rows', c')" by (cases ?run; cases "fst ?run") auto
  have ids: "distinct (map ob_message_id [sample_row])" by simp
  from relay_at_least_once [OF scripted.amqp_channel_axioms ids r] r show ?thesis by blast
qed

definition obedient :: "scripted amqp" where
  "obedient call b = (None, (fst b @ [call], snd b))"

interpretation obedient: amqp_channel obedient fst
  by unfold_locales (simp_all add: obedient_def)


end
