(* ===== verification/Bus_Consumer.thy ===== *)
theory Bus_Consumer
  imports Bus_Broker Bus_Inbox
begin

text \<open>
  The consumer behind \<open>handle-messages\<close> (\<open>modules/shared/message_bus/rabbitmq/consumer.py\<close>):
  whether a delivery is for this worker, the dispatch to its handlers, and the recovery of a
  failed one through the retry queue or the error queue. The connection and the schema of the
  module are two states; a delivery changes both.
\<close>

section \<open>One delivery\<close>

record delivery =
  dl_tag :: nat
  dl_message :: amqp_message

text \<open>A property of the message that is missing or empty is false.\<close>

definition set_text :: "string option \<Rightarrow> string option" where
  "set_text s = (case s of None \<Rightarrow> None | Some t \<Rightarrow> if t = [] then None else Some t)"

definition should_process :: "broker_topology \<Rightarrow> handler_registry \<Rightarrow> amqp_message \<Rightarrow> bool res" where
  "should_process t reg m =
     (case set_text (am_message_id m) of
        None \<Rightarrow> Inr False
      | Some mid \<Rightarrow>
          (case set_text (am_type m) of
             None \<Rightarrow> Inr False
           | Some ty \<Rightarrow>
               if ty \<notin> set (subscribed_types reg) then Inr False
               else bindE (read_redelivery_count (am_headers m)) (\<lambda>n.
                    Inr (\<not> (0 < n \<and> dict_get RETRY_ENDPOINT_HEADER PNone (am_headers m) \<noteq> PStr (bt_app_name t))))))"

text \<open>
  \<open>_decode\<close>: no bytes count as an empty object, a \<open>ValueError\<close> (or \<open>TypeError\<close>) as an
  empty body, and a document that is not an object is wrapped. The keys of a JSON object are
  strings.
\<close>

definition object_items :: "(pyval \<times> pyval) list \<Rightarrow> pyval dict" where
  "object_items kvs = concat (map (\<lambda>(k, v). case k of PStr s \<Rightarrow> [(s, v)] | _ \<Rightarrow> []) kvs)"

definition decode_body :: "(8 word list \<Rightarrow> json_error + pyval) \<Rightarrow> 8 word list \<Rightarrow> pyval dict res" where
  "decode_body loads bytes =
     (case (if bytes = [] then Inr (PDict []) else loads bytes) of
        Inl (OtherJsonError n) \<Rightarrow> if n = ''TypeError'' then Inr [] else Inl (PyError n)
      | Inl e \<Rightarrow> Inr []
      | Inr (PDict kvs) \<Rightarrow> Inr (object_items kvs)
      | Inr v \<Rightarrow> Inr [(''value'', v)])"

definition recover ::
  "'b amqp \<Rightarrow> (exc \<Rightarrow> string \<times> string \<times> string) \<Rightarrow> amqp_message \<Rightarrow> message_envelope \<Rightarrow> exc \<Rightarrow>
   ('b, unit) on_connection" where
  "recover amqp failure_text m env e c =
     bindS (liftS (redelivery_count env)) (\<lambda>n.
       if bt_delayed_retries (bc_topology c) \<le> n then dead_letter amqp failure_text m e
       else schedule_retry amqp m) c"

text \<open>The envelope, or the exception its construction raises.\<close>

definition envelope_of :: "(8 word list \<Rightarrow> json_error + pyval) \<Rightarrow> amqp_message \<Rightarrow> message_envelope res" where
  "envelope_of loads m =
     (case parse_uuid (case am_message_id m of None \<Rightarrow> ''None'' | Some s \<Rightarrow> s) of
        None \<Rightarrow> Inl (PyError ''ValueError'')
      | Some mid \<Rightarrow>
          bindE (decode_body loads (am_body m)) (\<lambda>body.
          Inr \<lparr>env_message_id = mid, env_message_type = (case am_type m of None \<Rightarrow> ''None'' | Some s \<Rightarrow> s),
               env_body = body, env_headers = am_headers m\<rparr>))"

text \<open>
  \<open>handle_delivery\<close>: what is not for this worker is acknowledged; otherwise the handlers
  run, a failure is recovered, and the acknowledgement comes last whatever happened
  (\<open>finally\<close>), its own exception replacing another.
\<close>

definition handle_delivery ::
  "'b amqp \<Rightarrow> (exc \<Rightarrow> string \<times> string \<times> string) \<Rightarrow> (8 word list \<Rightarrow> json_error + pyval) \<Rightarrow>
   'a handler_run \<Rightarrow> 'a commit_run \<Rightarrow> handler_registry \<Rightarrow> int \<Rightarrow> nat \<Rightarrow> delivery \<Rightarrow>
   'b broker_connection \<times> 'a module_db \<Rightarrow>
   unit res \<times> ('b broker_connection \<times> 'a module_db) \<times> nat \<times> inbox_log" where
  "handle_delivery amqp failure_text loads run commit reg retries t d st =
     (let m = dl_message d; c = fst st; db = snd st in
      case should_process (bc_topology c) reg m of
        Inl e \<Rightarrow> (Inl e, st, t, [])
      | Inr False \<Rightarrow> (let (r, c') = perform amqp (Ack (dl_tag d)) c in (r, (c', db), t, []))
      | Inr True \<Rightarrow>
          (case envelope_of loads m of
             Inl e \<Rightarrow> (Inl e, st, t, [])
           | Inr env \<Rightarrow>
               (let (r, db', t', ks) = dispatch run commit reg retries t env db;
                    (r1, c1) = (case r of Inr u \<Rightarrow> (Inr (), c) | Inl e \<Rightarrow> recover amqp failure_text m env e c);
                    (r2, c2) = perform amqp (Ack (dl_tag d)) c1
                in (case r2 of Inl e \<Rightarrow> Inl e | Inr u \<Rightarrow> r1, (c2, db'), t', ks))))"

text \<open>The loop over the deliveries of the queue ends at the first exception.\<close>

fun consume_deliveries ::
  "'b amqp \<Rightarrow> (exc \<Rightarrow> string \<times> string \<times> string) \<Rightarrow> (8 word list \<Rightarrow> json_error + pyval) \<Rightarrow>
   'a handler_run \<Rightarrow> 'a commit_run \<Rightarrow> handler_registry \<Rightarrow> int \<Rightarrow> nat \<Rightarrow> delivery list \<Rightarrow>
   'b broker_connection \<times> 'a module_db \<Rightarrow>
   unit res \<times> ('b broker_connection \<times> 'a module_db) \<times> nat \<times> inbox_log" where
  "consume_deliveries amqp failure_text loads run commit reg retries t [] st = (Inr (), st, t, [])"
| "consume_deliveries amqp failure_text loads run commit reg retries t (d # ds) st =
     (case handle_delivery amqp failure_text loads run commit reg retries t d st of
        (Inl e, st1, t1, ks1) \<Rightarrow> (Inl e, st1, t1, ks1)
      | (Inr u, st1, t1, ks1) \<Rightarrow>
          (let (r, st2, t2, ks2) = consume_deliveries amqp failure_text loads run commit reg retries t1 ds st1
           in (r, st2, t2, ks1 @ ks2)))"

definition consume ::
  "'b amqp \<Rightarrow> (exc \<Rightarrow> string \<times> string \<times> string) \<Rightarrow> (8 word list \<Rightarrow> json_error + pyval) \<Rightarrow>
   'a handler_run \<Rightarrow> 'a commit_run \<Rightarrow> handler_registry \<Rightarrow> int \<Rightarrow> delivery list \<Rightarrow>
   'b broker_connection \<times> 'a module_db \<Rightarrow>
   unit res \<times> ('b broker_connection \<times> 'a module_db) \<times> nat \<times> inbox_log" where
  "consume amqp failure_text loads run commit reg retries ds st =
     (case declare_consumer_topology amqp (fst st) of
        (Inl e, c) \<Rightarrow> (Inl e, (c, snd st), 0, [])
      | (Inr q, c) \<Rightarrow> consume_deliveries amqp failure_text loads run commit reg retries 0 ds (c, snd st))"

section \<open>What happens to a delivery\<close>

lemma should_process_True:
  assumes "should_process t reg m = Inr True"
  shows "\<exists>n. read_redelivery_count (am_headers m) = Inr n" "am_message_id m \<noteq> None" "am_type m \<noteq> None"
    "the (am_type m) \<in> set (subscribed_types reg)"
  using assms by (auto simp: should_process_def set_text_def bindE_Inr_iff split: option.splits if_splits)

lemma envelope_of_Inr:
  assumes "envelope_of loads m = Inr env"
  shows "env_headers env = am_headers m" "am_type m = Some ty \<Longrightarrow> env_message_type env = ty"
    "decode_body loads (am_body m) = Inr (env_body env)"
    "am_message_id m = Some i \<Longrightarrow> parse_uuid i = Some (env_message_id env)"
  using assms by (auto simp: envelope_of_def bindE_Inr_iff split: option.splits)

text \<open>The copy that a failure with \<open>n\<close> redeliveries is sent on as.\<close>

definition recovery_call ::
  "(exc \<Rightarrow> string \<times> string \<times> string) \<Rightarrow> broker_topology \<Rightarrow> amqp_message \<Rightarrow> exc \<Rightarrow> int \<Rightarrow> amqp_call" where
  "recovery_call failure_text t m e n =
     (if n < bt_delayed_retries t
      then Publish (bt_retry_exchange t) (bt_retry_binding_key t) (retry_copy t n m)
      else Publish (bt_error_exchange t) (bt_error_routing_key t) (dead_letter_copy failure_text t e m))"

context amqp_channel begin

definition acks :: "nat \<Rightarrow> 'b broker_connection \<Rightarrow> amqp_call list" where
  "acks tag c = filter (\<lambda>call. call = Ack tag) (log_of c)"

lemma recover_published:
  assumes "recover amqp failure_text m env e c = (r, c')" "env_headers env = am_headers m"
    and "read_redelivery_count (am_headers m) = Inr n"
  shows "published_on accepted_calls c' = published_on accepted_calls c @ [recovery_call failure_text (bc_topology c) m e n]
      \<or> (published_on accepted_calls c' = published_on accepted_calls c \<and> r \<noteq> Inr ())"
    and "acks tag c' = acks tag c"
proof -
  let ?t = "bc_topology c"
  have count: "redelivery_count env = Inr n" using assms(2,3) by (simp add: redelivery_count_def)
  have "(published_on accepted_calls c' = published_on accepted_calls c @ [recovery_call failure_text ?t m e n]
      \<or> (published_on accepted_calls c' = published_on accepted_calls c \<and> r \<noteq> Inr ())) \<and> acks tag c' = acks tag c"
  proof (cases "n < bt_delayed_retries ?t")
    case True
    then have "thenS (declare_exchange amqp (bt_retry_exchange ?t) (bt_retry_exchange_type ?t))
        (perform amqp (Publish (bt_retry_exchange ?t) (bt_retry_binding_key ?t) (retry_copy ?t n m))) c = (r, c')"
      using assms(1,3) count by (simp add: recover_def schedule_retry_def Let_def)
    note D = declare_then_publish(1,4) [OF this]
    show ?thesis using D True by (simp add: recovery_call_def acks_def)
  next
    case False
    then have "thenS (declare_exchange amqp (bt_error_exchange ?t) (bt_error_exchange_type ?t))
        (perform amqp (Publish (bt_error_exchange ?t) (bt_error_routing_key ?t)
          (dead_letter_copy failure_text ?t e m))) c = (r, c')"
      using assms(1) count by (simp add: recover_def dead_letter_def Let_def not_less)
    note D = declare_then_publish(1,4) [OF this]
    show ?thesis using D False by (simp add: recovery_call_def acks_def)
  qed
  then show "published_on accepted_calls c' = published_on accepted_calls c @ [recovery_call failure_text ?t m e n]
      \<or> (published_on accepted_calls c' = published_on accepted_calls c \<and> r \<noteq> Inr ())"
    and "acks tag c' = acks tag c" by blast+
qed

lemma ack_log:
  assumes "perform amqp (Ack tag) c = (r, c')"
  shows "published_on accepted_calls c' = published_on accepted_calls c"
    and "r = Inr () \<Longrightarrow> acks tag c' = acks tag c @ [Ack tag]"
proof -
  note P = perform_log(1) [OF assms]
  show "published_on accepted_calls c' = published_on accepted_calls c"
    using P by (elim disjE conjE; simp add: published_on_def)
  show "acks tag c' = acks tag c @ [Ack tag]" if "r = Inr ()"
    using P that by (elim disjE conjE; simp add: acks_def)
qed

end

text \<open>The ways through one delivery, whatever is raised.\<close>

lemma handle_delivery_cases:
  assumes "handle_delivery amqp failure_text loads run commit reg retries t d (c, db) = (r, (c', db'), t', ks)"
  obtains (refused) e where "should_process (bc_topology c) reg (dl_message d) = Inl e \<or>
        (should_process (bc_topology c) reg (dl_message d) = Inr True \<and> envelope_of loads (dl_message d) = Inl e)"
      "r = Inl e" "c' = c" "db' = db" "ks = []"
    | (ignored) "should_process (bc_topology c) reg (dl_message d) = Inr False"
      "perform amqp (Ack (dl_tag d)) c = (r, c')" "db' = db" "ks = []"
    | (handled) env where "should_process (bc_topology c) reg (dl_message d) = Inr True"
      "envelope_of loads (dl_message d) = Inr env"
      "dispatch run commit reg retries t env db = (Inr (), db', t', ks)"
      "perform amqp (Ack (dl_tag d)) c = (r, c')"
    | (failed) env e r1 c1 r2 where "should_process (bc_topology c) reg (dl_message d) = Inr True"
      "envelope_of loads (dl_message d) = Inr env"
      "dispatch run commit reg retries t env db = (Inl e, db', t', ks)"
      "recover amqp failure_text (dl_message d) env e c = (r1, c1)"
      "perform amqp (Ack (dl_tag d)) c1 = (r2, c')" "r = (case r2 of Inl e2 \<Rightarrow> Inl e2 | Inr u \<Rightarrow> r1)"
proof (cases "should_process (bc_topology c) reg (dl_message d)")
  case (Inl e)
  show thesis by (rule refused [of e]) (use assms Inl in \<open>simp_all add: handle_delivery_def\<close>)
next
  case (Inr b)
  show thesis
  proof (cases b)
    case False
    obtain r1 c1 where "perform amqp (Ack (dl_tag d)) c = (r1, c1)" by fastforce
    then show thesis
      by (intro ignored) (use assms Inr False in \<open>simp_all add: handle_delivery_def\<close>)
  next
    case True
    show thesis
    proof (cases "envelope_of loads (dl_message d)")
      case (Inl e)
      show thesis
        by (rule refused [of e]) (use assms Inr True Inl in \<open>simp_all add: handle_delivery_def\<close>)
    next
      case env: (Inr env)
      obtain x db1 t1 ks1 where x: "dispatch run commit reg retries t env db = (x, db1, t1, ks1)"
        by (cases "dispatch run commit reg retries t env db")
      obtain r1 c1 where rc: "recover amqp failure_text (dl_message d) env e c = (r1 e, c1 e)" for e
        by (meson surj_pair)
      obtain r2 c2 where ack: "perform amqp (Ack (dl_tag d)) (case x of Inr u \<Rightarrow> c | Inl e \<Rightarrow> c1 e) = (r2, c2)"
        by fastforce
      show thesis
      proof (cases x)
        case (Inl e)
        show thesis
          by (rule failed [of env e "r1 e" "c1 e" r2])
            (use assms Inr True env x rc ack Inl in \<open>simp_all add: handle_delivery_def Let_def\<close>)
      next
        case (Inr u)
        show thesis
          by (rule handled [of env])
            (use assms \<open>should_process _ _ _ = Inr b\<close> True env x ack Inr in
              \<open>auto simp: handle_delivery_def Let_def split: sum.splits\<close>)
      qed
    qed
  qed
qed

section \<open>Delayed retries\<close>

text \<open>
  A message as the retry queue gives it back: the same body, identifier and type, and the two
  headers that the worker set; the broker may have added others.
\<close>

definition same_delivery :: "amqp_message \<Rightarrow> amqp_message \<Rightarrow> bool" where
  "same_delivery m m' \<longleftrightarrow>
     am_body m' = am_body m \<and> am_message_id m' = am_message_id m \<and> am_type m' = am_type m
     \<and> map_of (am_headers m') REDELIVERY_COUNT_HEADER = map_of (am_headers m) REDELIVERY_COUNT_HEADER
     \<and> map_of (am_headers m') RETRY_ENDPOINT_HEADER = map_of (am_headers m) RETRY_ENDPOINT_HEADER"

text \<open>\<open>m'\<close> is \<open>m\<close> after \<open>k\<close> trips through the retry queue of a worker.\<close>

inductive retried :: "broker_topology \<Rightarrow> amqp_message \<Rightarrow> nat \<Rightarrow> amqp_message \<Rightarrow> bool"
  for t :: broker_topology and m :: amqp_message where
  first_delivery: "retried t m 0 m"
| redelivery: "retried t m k m1 \<Longrightarrow> read_redelivery_count (am_headers m1) = Inr n \<Longrightarrow>
    recovery_call failure_text t m1 e n = Publish (bt_retry_exchange t) (bt_retry_binding_key t) m2 \<Longrightarrow>
    n < bt_delayed_retries t \<Longrightarrow> same_delivery m2 m3 \<Longrightarrow> retried t m (Suc k) m3"

inductive_cases retried_ZeroE [elim!]: "retried t m 0 m'"
inductive_cases retried_SucE: "retried t m (Suc k) m'"

lemma same_delivery_count:
  "same_delivery m m' \<Longrightarrow> read_redelivery_count (am_headers m') = read_redelivery_count (am_headers m)
   \<and> dict_get RETRY_ENDPOINT_HEADER PNone (am_headers m') = dict_get RETRY_ENDPOINT_HEADER PNone (am_headers m)"
  by (simp add: same_delivery_def read_redelivery_count_def dict_get_def)

lemma header_names [simp]: "REDELIVERY_COUNT_HEADER \<noteq> RETRY_ENDPOINT_HEADER"
  "RETRY_ENDPOINT_HEADER \<noteq> REDELIVERY_COUNT_HEADER"
  by (simp_all add: REDELIVERY_COUNT_HEADER_def RETRY_ENDPOINT_HEADER_def)

lemma retry_copy_headers:
  "read_redelivery_count (am_headers (retry_copy t n m)) = Inr (n + 1)"
  "dict_get RETRY_ENDPOINT_HEADER PNone (am_headers (retry_copy t n m)) = PStr (bt_app_name t)"
  by (simp_all add: retry_copy_def read_redelivery_count_other dict_get_set)



section \<open>Properties of the consumer\<close>


text \<open>
  C25. When a delivery raises: it was left alone, unacknowledged, because its headers or its
  identifier could not be read; or the acknowledgement itself failed; or the failed message
  could not be handed on, and it was acknowledged all the same.
\<close>

theorem delivery_raises:
  assumes "amqp_channel amqp calls"
    and "handle_delivery amqp failure_text loads run commit reg retries t d (c, db) = (Inl e, (c', db'), t', ks)"
  shows "(c' = c \<and> db' = db
        \<and> (should_process (bc_topology c) reg (dl_message d) = Inl e \<or> envelope_of loads (dl_message d) = Inl e))
    \<or> (\<exists>c1. perform amqp (Ack (dl_tag d)) c1 = (Inl e, c'))
    \<or> (\<exists>env e1 c1. envelope_of loads (dl_message d) = Inr env
        \<and> dispatch run commit reg retries t env db = (Inl e1, db', t', ks)
        \<and> recover amqp failure_text (dl_message d) env e1 c = (Inl e, c1)
        \<and> perform amqp (Ack (dl_tag d)) c1 = (Inr (), c')
        \<and> Ack (dl_tag d) \<in> set (calls (bc_broker c')))"
  using assms(2)
proof (cases rule: handle_delivery_cases)
  case (failed env e1 r1 c1 r2)
  show ?thesis
  proof (cases r2)
    case (Inl e2)
    then show ?thesis using failed(5,6) by auto
  next
    case (Inr u)
    have "Ack (dl_tag d) \<in> set (calls (bc_broker c'))"
      using amqp_channel.perform_Inr [OF assms(1)] failed(5) Inr by fastforce
    then show ?thesis using failed Inr by auto
  qed
qed auto

section \<open>Witnesses\<close>

definition sample_handler :: handler_class where
  "sample_handler = init_handler_class ''SampleHandler'' ''ShipmentManifestFinalized'' []"

definition sample_delivery :: delivery where
  "sample_delivery = \<lparr>dl_tag = 1, dl_message = row_message (\<lambda>_. Inr [1]) sample_row\<rparr>"

definition empty_schema :: "unit module_db" where
  "empty_schema = \<lparr>md_store = (), md_outbox = [], md_inbox = []\<rparr>"

text \<open>The handler fails at every attempt; the broker answers as its script says.\<close>

definition failing_delivery ::
  "exc option list \<Rightarrow> unit res \<times> (scripted broker_connection \<times> unit module_db) \<times> nat \<times> inbox_log" where
  "failing_delivery script =
     handle_delivery scripted_amqp (\<lambda>_. ([], [], [])) (\<lambda>_. Inr (PDict [])) (\<lambda>t h env db. Inl (PyError ''OSError''))
       (\<lambda>t db. None) (register_handler sample_handler []) 1 0 sample_delivery
       (open_connection\<lparr>bc_broker := ([], script)\<rparr>, empty_schema)"


text \<open>
  The retry exchange cannot be declared: the failed message is acknowledged, although no copy
  was published and no handler has processed it.
\<close>

theorem delivery_raises_witness:
  "\<exists>e c' db' t' ks. failing_delivery [Some (PyError ''AMQPError'')] = (Inl e, (c', db'), t', ks)
     \<and> Ack 1 \<in> set (fst (bc_broker c')) \<and> published_on fst c' = [] \<and> md_inbox db' = []"
proof -
  let ?run = "failing_delivery [Some (PyError ''AMQPError'')]"
  have e: "isl (fst ?run)" "fst (bc_broker (fst (fst (snd ?run)))) = [Ack 1]"
    "length (published_on fst (fst (fst (snd ?run)))) = 0" "length (md_inbox (snd (fst (snd ?run)))) = 0"
    "isl (should_process default_topology (register_handler sample_handler []) (dl_message sample_delivery)) = False"
    "isl (envelope_of (\<lambda>_. Inr (PDict [])) (dl_message sample_delivery)) = False"
    by code_simp+
  obtain r c' db' t' ks where f: "?run = (r, (c', db'), t', ks)" by (cases ?run) auto
  obtain x where r: "r = Inl x" using e(1) f by (cases r) auto
  have t: "bc_topology open_connection = default_topology" by (simp add: open_connection_def new_connection_def)
  have acked: "Ack 1 \<in> set (fst (bc_broker c'))"
    using delivery_raises [OF scripted.amqp_channel_axioms f [unfolded r failing_delivery_def]]
  proof (elim disjE exE conjE)
    fix c1 assume "perform scripted_amqp (Ack (dl_tag sample_delivery)) c1 = (Inl x, c')"
    show ?thesis using e(2) f by simp
  qed (use e(5,6) t in \<open>auto simp: sample_delivery_def\<close>)
  then show ?thesis using f r e by auto
qed

end
