(* ===== verification/Bus_Cli.thy ===== *)
theory Bus_Cli
  imports Bus_Consumer
begin

text \<open>
  The worker commands (\<open>modules/shared/message_bus/cli\<close>): the registry of modules a worker
  can be pointed at, what \<open>dispatch-messages\<close> and \<open>handle-messages\<close> make of their options,
  and one run of each over a fresh connection. Parsing the command line and the engine of the
  module's schema are the libraries'; a run takes the schema's tables as its state.
\<close>

section \<open>The modules\<close>

record module_binding =
  mb_name :: string
  mb_schema :: string
  mb_handlers :: handler_registry

type_synonym module_registry = "module_binding dict"

definition module_registry_of :: "module_binding list \<Rightarrow> module_registry" where
  "module_registry_of bindings = fold (\<lambda>b reg. dict_set (mb_name b) b reg) bindings []"

definition get_module :: "module_registry \<Rightarrow> string \<Rightarrow> module_binding res" where
  "get_module reg name =
     (case map_of reg name of None \<Rightarrow> Inl (bus_exc UnknownModuleError) | Some b \<Rightarrow> Inr b)"

definition module_names :: "module_registry \<Rightarrow> string list" where
  "module_names reg = sort (map fst reg)"

section \<open>The commands\<close>

definition default_dispatch_limit :: "settings \<Rightarrow> int" where
  "default_dispatch_limit s = rabbitmq_dispatch_limit s"

text \<open>\<open>limit or default\<close>: zero counts as not given.\<close>

definition effective_limit :: "settings \<Rightarrow> int option \<Rightarrow> int" where
  "effective_limit s limit =
     (case limit of None \<Rightarrow> default_dispatch_limit s | Some i \<Rightarrow> if i = 0 then default_dispatch_limit s else i)"

text \<open>The schema, the topology and the limit of one dispatch pass.\<close>

definition dispatch_messages ::
  "module_registry \<Rightarrow> settings \<Rightarrow> string \<Rightarrow> int option \<Rightarrow> string option \<Rightarrow> string option \<Rightarrow> string option \<Rightarrow>
   (string \<times> broker_topology \<times> int) res" where
  "dispatch_messages modules s name limit primary_exchange primary_exchange_type app =
     bindE (get_module modules name) (\<lambda>binding.
     Inr (mb_schema binding,
          overridden_with (no_overrides\<lparr>ov_primary_exchange := primary_exchange,
                                        ov_primary_exchange_type := primary_exchange_type,
                                        ov_app_name := app\<rparr>) (from_settings s),
          effective_limit s limit))"

text \<open>The binding and the topology of a consumer; \<open>--limit\<close> is the prefetch.\<close>

definition handle_messages ::
  "module_registry \<Rightarrow> settings \<Rightarrow> string \<Rightarrow> int option \<Rightarrow> topology_overrides \<Rightarrow>
   (module_binding \<times> broker_topology) res" where
  "handle_messages modules s name limit options =
     bindE (get_module modules name) (\<lambda>binding.
     Inr (binding, overridden_with (options\<lparr>ov_prefetch := limit\<rparr>) (from_settings s)))"

section \<open>The runs\<close>

definition run_dispatch ::
  "('b \<Rightarrow> exc option \<times> 'b) \<Rightarrow> 'b amqp \<Rightarrow> (pyval dict \<Rightarrow> exc + 8 word list) \<Rightarrow>
   (outbox_message list \<Rightarrow> exc option) \<Rightarrow> int \<Rightarrow> uuid set \<Rightarrow> broker_topology \<Rightarrow> int \<Rightarrow>
   outbox_message list \<times> 'b \<Rightarrow> nat res \<times> outbox_message list \<times> 'b" where
  "run_dispatch opening amqp dumps commit now locked topology limit st =
     (case connect opening (new_connection topology (snd st)) of
        (Inl e, c) \<Rightarrow> (Inl e, fst st, bc_broker c)
      | (Inr u, c) \<Rightarrow>
          (let (r, rows, c') = relay_dispatch (relay_declares amqp) (publish_row amqp dumps) commit now locked
                                 limit (fst st, c)
           in (r, rows, bc_broker (close_connection c'))))"

definition run_consumer ::
  "('b \<Rightarrow> exc option \<times> 'b) \<Rightarrow> 'b amqp \<Rightarrow> (exc \<Rightarrow> string \<times> string \<times> string) \<Rightarrow>
   (8 word list \<Rightarrow> json_error + pyval) \<Rightarrow> 'a handler_run \<Rightarrow> 'a commit_run \<Rightarrow> module_binding \<Rightarrow>
   broker_topology \<Rightarrow> delivery list \<Rightarrow> 'b \<times> 'a module_db \<Rightarrow> unit res \<times> 'b \<times> 'a module_db" where
  "run_consumer opening amqp failure_text loads run commit binding topology deliveries st =
     (case connect opening (new_connection topology (fst st)) of
        (Inl e, c) \<Rightarrow> (Inl e, bc_broker c, snd st)
      | (Inr u, c) \<Rightarrow>
          (let (r, (c', db), t, ks) = consume amqp failure_text loads run commit (mb_handlers binding)
                                        (bt_immediate_retries topology) deliveries (c, snd st)
           in (r, bc_broker (close_connection c'), db)))"

section \<open>What the registry and the options give\<close>

lemma module_registry_of_get:
  assumes "distinct (map mb_name bs)"
  shows "get_module (module_registry_of bs) name =
     (case find (\<lambda>b. mb_name b = name) bs of None \<Rightarrow> Inl (bus_exc UnknownModuleError) | Some b \<Rightarrow> Inr b)"
proof -
  have keep: "map_of (fold (\<lambda>b reg. dict_set (mb_name b) b reg) bs reg) name = map_of reg name"
    if "name \<notin> mb_name ` set bs" for bs :: "module_binding list" and reg
    using that by (induction bs arbitrary: reg) auto
  have absent: "find (\<lambda>b. mb_name b = n) bs = None" if "n \<notin> mb_name ` set bs" for n and bs :: "module_binding list"
    using that by (induction bs) auto
  have "map_of (fold (\<lambda>b reg. dict_set (mb_name b) b reg) bs reg) name =
      (case find (\<lambda>b. mb_name b = name) bs of None \<Rightarrow> map_of reg name | Some b \<Rightarrow> Some b)" for reg
    using assms
  proof (induction bs arbitrary: reg)
    case (Cons a bs)
    then show ?case by (cases "name = mb_name a") (auto simp: absent split: option.splits)
  qed simp
  then show ?thesis by (simp add: get_module_def module_registry_of_def split: option.splits)
qed

lemma run_dispatch_unchanged:
  assumes "run_dispatch opening amqp dumps commit now locked topology limit (rows, b) = (Inl e, rows', b')"
  shows "rows' = rows"
  using assms
  by (auto simp: run_dispatch_def relay_dispatch_def Let_def split: prod.splits sum.splits option.splits if_splits)

end
