(* ===== verification/Shipment_Slices.thy ===== *)
theory Shipment_Slices
  imports Shipment_Aggregate Module_Db Http_Problem
begin

text \<open>
  The vertical slices of the Shipment module (\<open>modules/shipment/src/features\<close>): commands,
  handlers and controllers of \<open>create_draft_shipment\<close>, \<open>assign_route\<close> and
  \<open>finalize_manifest\<close>, and the router that mounts them. A handler takes its collaborators
  as arguments, as its constructor does: \<open>find_by_id\<close> and \<open>persist\<close> of the repository,
  \<open>put_message\<close> of the outbox, \<open>next_waybill\<close> of the waybill series.
\<close>

section \<open>Commands\<close>

text \<open>
  The commands and what the declared fields admit; the framework builds a command from the
  request body and answers 422 itself when the body does not fit.
\<close>

record create_draft_command =
  cd_origin_port_code :: string
  cd_destination_port_code :: string

record assign_route_command =
  ar_origin_port_code :: string
  ar_destination_port_code :: string
  ar_transit_legs :: "string list"

record finalize_manifest_command =
  fm_total_weight_kg :: pyfloat
  fm_total_volume_cbm :: pyfloat
  fm_commodity_code :: string

definition field_ok :: "nat \<Rightarrow> nat \<Rightarrow> string \<Rightarrow> bool" where
  "field_ok lo hi s \<longleftrightarrow> strip s = s \<and> lo \<le> length s \<and> length s \<le> hi"

definition create_draft_command_ok :: "create_draft_command \<Rightarrow> bool" where
  "create_draft_command_ok c \<longleftrightarrow>
     field_ok 5 5 (cd_origin_port_code c) \<and> field_ok 5 5 (cd_destination_port_code c)"

definition assign_route_command_ok :: "assign_route_command \<Rightarrow> bool" where
  "assign_route_command_ok c \<longleftrightarrow>
     field_ok 5 5 (ar_origin_port_code c) \<and> field_ok 5 5 (ar_destination_port_code c)
     \<and> list_all (\<lambda>s. strip s = s) (ar_transit_legs c)"

definition finalize_manifest_command_ok :: "finalize_manifest_command \<Rightarrow> bool" where
  "finalize_manifest_command_ok c \<longleftrightarrow> field_ok 1 16 (fm_commodity_code c)"

section \<open>Handlers\<close>

text \<open>
  \<open>CreateDraftShipmentHandler.handle\<close>. The series keeps what it has drawn whether or not
  the transaction commits, so it is returned beside the result. \<open>fresh\<close> is \<open>uuid4()\<close>.
\<close>

definition create_draft_handle ::
  "('q \<Rightarrow> waybill_number res \<times> 'q) \<Rightarrow> (shipment \<Rightarrow> 'db \<Rightarrow> 'db res) \<Rightarrow> uuid \<Rightarrow> create_draft_command \<Rightarrow>
   'q \<Rightarrow> 'db \<Rightarrow> (shipment \<times> 'db) res \<times> 'q" where
  "create_draft_handle next_waybill persist fresh command q db =
     (let (drawn, q') = next_waybill q in
      (bindE drawn (\<lambda>waybill.
       bindE (create (ShipmentId fresh) waybill (PStr (cd_origin_port_code command))
                (PStr (cd_destination_port_code command))) (\<lambda>s.
       bindE (persist s db) (\<lambda>db'. Inr (s, db')))), q'))"

definition assign_route_handle ::
  "(shipment_id \<Rightarrow> 'db \<Rightarrow> shipment option res) \<Rightarrow> (shipment \<Rightarrow> 'db \<Rightarrow> 'db res) \<Rightarrow> string \<Rightarrow>
   assign_route_command \<Rightarrow> 'db \<Rightarrow> (shipment \<times> 'db) res" where
  "assign_route_handle find_by_id persist shipment_id command db =
     bindE (mk_shipment_id (PStr shipment_id)) (\<lambda>identity.
     bindE (find_by_id identity db) (\<lambda>found.
     case found of
       None \<Rightarrow> Inl (shipment_exc ShipmentNotFoundError)
     | Some s \<Rightarrow>
         bindE (mk_shipment_route (PStr (ar_origin_port_code command))
                  (PStr (ar_destination_port_code command))
                  (PList (map PStr (ar_transit_legs command)))) (\<lambda>route.
         bindE (assign_route route s) (\<lambda>s'.
         bindE (persist s' db) (\<lambda>db'. Inr (s', db'))))))"

definition finalize_manifest_handle ::
  "(shipment_id \<Rightarrow> 'db \<Rightarrow> shipment option res) \<Rightarrow> (shipment \<Rightarrow> 'db \<Rightarrow> 'db res) \<Rightarrow>
   (integration_message \<Rightarrow> 'db \<Rightarrow> 'db res) \<Rightarrow> string \<Rightarrow> finalize_manifest_command \<Rightarrow> 'db \<Rightarrow>
   (shipment \<times> 'db) res" where
  "finalize_manifest_handle find_by_id persist put_message shipment_id command db =
     bindE (mk_shipment_id (PStr shipment_id)) (\<lambda>identity.
     bindE (find_by_id identity db) (\<lambda>found.
     case found of
       None \<Rightarrow> Inl (shipment_exc ShipmentNotFoundError)
     | Some s \<Rightarrow>
         bindE (mk_cargo_manifest (PFloat (fm_total_weight_kg command))
                  (PFloat (fm_total_volume_cbm command)) (PStr (fm_commodity_code command))) (\<lambda>m.
         bindE (finalize_manifest m s) (\<lambda>(s', event).
         bindE (persist s' db) (\<lambda>db1.
         bindE (put_message event db1) (\<lambda>db2. Inr (s', db2)))))))"

section \<open>Controllers\<close>

record create_draft_response =
  cr_shipment_id :: string
  cr_waybill_number :: string
  cr_status :: tracking_status
  cr_links :: "link list"

definition create_draft_next_tasks :: "string \<Rightarrow> link list" where
  "create_draft_next_tasks shipment_id =
     [Link ''assign-route'' (path_of [''shipments'', shipment_id, ''route'']) ''PUT'',
      Link ''finalize-manifest'' (path_of [''shipments'', shipment_id, ''finalize-manifest'']) ''POST'']"

definition create_draft_response_of :: "shipment \<Rightarrow> create_draft_response" where
  "create_draft_response_of s =
     \<lparr>cr_shipment_id = str_shipment_id (sh_id s), cr_waybill_number = waybill_value (sh_waybill s),
      cr_status = sh_status s, cr_links = create_draft_next_tasks (str_shipment_id (sh_id s))\<rparr>"

record route_view =
  rv_origin_port_code :: string
  rv_destination_port_code :: string
  rv_transit_legs :: "string list"

record assign_route_response =
  as_shipment_id :: string
  as_waybill_number :: string
  as_status :: tracking_status
  as_route :: route_view
  as_links :: "link list"

definition assign_route_next_tasks :: "shipment \<Rightarrow> link list" where
  "assign_route_next_tasks s =
     (let shipment_id = str_shipment_id (sh_id s) in
      [Link ''assign-route'' (path_of [''shipments'', shipment_id, ''route'']) ''PUT'']
      @ (if sh_status s = DRAFT
         then [Link ''finalize-manifest''
                 (path_of [''shipments'', shipment_id, ''finalize-manifest'']) ''POST'']
         else []))"

definition assign_route_response_of :: "shipment \<Rightarrow> assign_route_response" where
  "assign_route_response_of s =
     \<lparr>as_shipment_id = str_shipment_id (sh_id s), as_waybill_number = waybill_value (sh_waybill s),
      as_status = sh_status s,
      as_route = \<lparr>rv_origin_port_code = origin_port_code (sh_route s),
                  rv_destination_port_code = destination_port_code (sh_route s),
                  rv_transit_legs = transit_legs (sh_route s)\<rparr>,
      as_links = assign_route_next_tasks s\<rparr>"

record finalize_manifest_response =
  fr_shipment_id :: string
  fr_waybill_number :: string
  fr_status :: tracking_status
  fr_manifest :: cargo_manifest
  fr_links :: "link list"

definition finalize_manifest_next_tasks :: "shipment \<Rightarrow> link list" where
  "finalize_manifest_next_tasks s =
     (let shipment_id = str_shipment_id (sh_id s) in
      (if sh_status s \<notin> ROUTE_LOCKED_STATUSES
       then [Link ''assign-route'' (path_of [''shipments'', shipment_id, ''route'']) ''PUT'']
       else [])
      @ [Link ''flag-exception'' (path_of [''shipments'', shipment_id, ''flag-exception'']) ''POST''])"

text \<open>The view reads the attributes of \<open>shipment.manifest\<close>: \<open>AttributeError\<close> of \<open>None\<close>.\<close>

definition finalize_manifest_response_of :: "shipment \<Rightarrow> finalize_manifest_response res" where
  "finalize_manifest_response_of s =
     (case sh_manifest s of
        None \<Rightarrow> Inl (PyError ''AttributeError'')
      | Some m \<Rightarrow> Inr
          \<lparr>fr_shipment_id = str_shipment_id (sh_id s), fr_waybill_number = waybill_value (sh_waybill s),
           fr_status = sh_status s, fr_manifest = m, fr_links = finalize_manifest_next_tasks s\<rparr>)"

text \<open>
  The endpoints: the handler inside the request's transaction, then the response. The
  methods and paths are those of the decorators, mounted by \<open>api.py\<close>.
\<close>

definition create_draft_shipment ::
  "('q \<Rightarrow> waybill_number res \<times> 'q) \<Rightarrow> (shipment \<Rightarrow> 'db \<Rightarrow> 'db res) \<Rightarrow> ('db \<Rightarrow> exc option) \<Rightarrow> uuid \<Rightarrow>
   create_draft_command \<Rightarrow> 'q \<Rightarrow> 'db \<Rightarrow> create_draft_response res \<times> 'db \<times> 'q" where
  "create_draft_shipment next_waybill persist commit fresh command q db =
     (let (r, q') = create_draft_handle next_waybill persist fresh command q db;
          (resp, db') = request_scope commit
             (\<lambda>_. bindE r (\<lambda>(s, db1). Inr (create_draft_response_of s, db1))) db
      in (resp, db', q'))"

definition assign_route_endpoint ::
  "(shipment_id \<Rightarrow> 'db \<Rightarrow> shipment option res) \<Rightarrow> (shipment \<Rightarrow> 'db \<Rightarrow> 'db res) \<Rightarrow> ('db \<Rightarrow> exc option) \<Rightarrow>
   string \<Rightarrow> assign_route_command \<Rightarrow> 'db \<Rightarrow> assign_route_response res \<times> 'db" where
  "assign_route_endpoint find_by_id persist commit shipment_id command db =
     request_scope commit
       (\<lambda>db. bindE (assign_route_handle find_by_id persist shipment_id command db)
               (\<lambda>(s, db'). Inr (assign_route_response_of s, db'))) db"

definition finalize_manifest_endpoint ::
  "(shipment_id \<Rightarrow> 'db \<Rightarrow> shipment option res) \<Rightarrow> (shipment \<Rightarrow> 'db \<Rightarrow> 'db res) \<Rightarrow>
   (integration_message \<Rightarrow> 'db \<Rightarrow> 'db res) \<Rightarrow> ('db \<Rightarrow> exc option) \<Rightarrow> string \<Rightarrow>
   finalize_manifest_command \<Rightarrow> 'db \<Rightarrow> finalize_manifest_response res \<times> 'db" where
  "finalize_manifest_endpoint find_by_id persist put_message commit shipment_id command db =
     request_scope commit
       (\<lambda>db. bindE (finalize_manifest_handle find_by_id persist put_message shipment_id command db)
               (\<lambda>(s, db'). bindE (finalize_manifest_response_of s) (\<lambda>resp. Inr (resp, db')))) db"

definition shipment_routes :: route_table where
  "shipment_routes =
     [(''POST'', ''/shipments''),
      (''PUT'', ''/shipments/{shipment_id}/route''),
      (''POST'', ''/shipments/{shipment_id}/finalize-manifest'')]"

section \<open>Destinations\<close>

definition SHIPMENT_MANIFEST_FINALIZED_ROUTING_KEY :: string where
  "SHIPMENT_MANIFEST_FINALIZED_ROUTING_KEY = ''trade-logistics.shipment.manifest-finalized''"

text \<open>
  \<open>register_shipment_message_destinations\<close> with its flag; \<open>primary\<close> is the configured
  primary exchange.
\<close>

definition register_shipment_message_destinations ::
  "string \<Rightarrow> bool \<times> destination_registry \<Rightarrow> bool \<times> destination_registry" where
  "register_shipment_message_destinations primary st =
     (if fst st then st
      else (True, register_destination ShipmentManifestFinalized
              \<lparr>exchange = primary, routing_key = SHIPMENT_MANIFEST_FINALIZED_ROUTING_KEY\<rparr> (snd st)))"

section \<open>What the handlers do\<close>

lemma bindE_request_scope:
  "request_scope commit (\<lambda>db. bindE (h db) f) db =
   (case h db of Inl e \<Rightarrow> (Inl e, db) | Inr x \<Rightarrow> request_scope commit (\<lambda>_. f x) db)"
  by (auto simp: request_scope_def split: sum.splits)

lemma mk_cargo_manifest_floats:
  "mk_cargo_manifest (PFloat w) (PFloat v) (PStr c) = Inl e \<Longrightarrow> e = shipment_exc InvalidCargoManifestError"
  by (auto simp: mk_cargo_manifest_def bindE_Inl_iff validated_measure_def validated_commodity_def Let_def
      split: if_splits)

text \<open>The errors of the domain: the classes a handler can raise by itself.\<close>

definition shipment_domain_error :: "exc \<Rightarrow> bool" where
  "shipment_domain_error e \<longleftrightarrow> (\<exists>c. e = shipment_exc c)"

lemma shipment_domain_error_exc [simp]: "shipment_domain_error (shipment_exc c)"
  by (auto simp: shipment_domain_error_def)

lemma shipment_domain_error_status: "shipment_domain_error e \<Longrightarrow> exc_status e \<in> {404, 409, 422}"
proof -
  assume "shipment_domain_error e"
  then obtain c where "e = shipment_exc c" by (auto simp: shipment_domain_error_def)
  then show ?thesis using shipment_status [of c] by simp
qed

named_theorems domain_errors \<open>the errors that the constructors of the module raise\<close>

lemma mk_shipment_id_domain [domain_errors]: "mk_shipment_id raw = Inl e \<Longrightarrow> shipment_domain_error e"
  by (drule mk_shipment_id_error) simp

lemma mk_shipment_route_domain [domain_errors]:
  "mk_shipment_route a b l = Inl e \<Longrightarrow> shipment_domain_error e"
  by (drule mk_shipment_route_error) simp

lemma mk_cargo_manifest_domain [domain_errors]:
  "mk_cargo_manifest (PFloat w) (PFloat v) (PStr c) = Inl e \<Longrightarrow> shipment_domain_error e"
  by (drule mk_cargo_manifest_floats) simp

lemma assign_route_domain [domain_errors]: "assign_route r s = Inl e \<Longrightarrow> shipment_domain_error e"
  by (auto simp: assign_route_Inl)

lemma finalize_manifest_domain [domain_errors]: "finalize_manifest m s = Inl e \<Longrightarrow> shipment_domain_error e"
  by (auto simp: finalize_manifest_Inl)

lemma assign_route_handle_error:
  assumes "assign_route_handle find_id persist sid c db = Inl e"
  shows "shipment_domain_error e \<or> (\<exists>i. find_id i db = Inl e) \<or> (\<exists>s. persist s db = Inl e)"
  using assms unfolding assign_route_handle_def bindE_Inl_iff
  by (elim disjE exE conjE; (simp split: option.splits)?)
    (auto simp: bindE_Inl_iff split: option.splits dest: domain_errors)

lemma finalize_manifest_handle_error:
  assumes "finalize_manifest_handle find_id persist put sid c db = Inl e"
  shows "shipment_domain_error e \<or> (\<exists>i. find_id i db = Inl e) \<or> (\<exists>s. persist s db = Inl e)
   \<or> (\<exists>m db'. put m db' = Inl e)"
  using assms unfolding finalize_manifest_handle_def bindE_Inl_iff
  by (elim disjE exE conjE; (simp split: option.splits)?)
    (auto simp: bindE_Inl_iff split: option.splits prod.splits dest: domain_errors)

section \<open>The slices on a session\<close>

text \<open>What the handlers rely on: one session for the repository and the outbox.\<close>

locale shipment_session = unit_of_work persist find_by_id sh_id storable dests put_message outbox
  for persist :: "shipment \<Rightarrow> 'db \<Rightarrow> 'db res"
    and find_by_id :: "shipment_id \<Rightarrow> 'db \<Rightarrow> shipment option res"
    and storable :: "shipment \<Rightarrow> bool"
    and dests :: destination_registry
    and put_message :: "integration_message \<Rightarrow> 'db \<Rightarrow> 'db res"
    and outbox :: "'db \<Rightarrow> outbox_message list"
begin

lemma finalize_endpoint_success:
  assumes "finalize_manifest_endpoint find_by_id persist put_message commit sid c db = (Inr resp, db')"
  obtains i s m r where
    "mk_shipment_id (PStr sid) = Inr i" "find_by_id i db = Inr (Some s)" "sh_status s = DRAFT"
    "mk_cargo_manifest (PFloat (fm_total_weight_kg c)) (PFloat (fm_total_volume_cbm c))
       (PStr (fm_commodity_code c)) = Inr m"
    "\<not> float_le0 (total_weight_kg m)" "commit db' = None"
    "finalize_manifest_response_of (s\<lparr>sh_manifest := Some m, sh_status := READY_FOR_MANIFEST\<rparr>) = Inr resp"
    "outbox db' = outbox db @ [r]" "announces dests (finalized_event s m) r"
    "\<And>k. storable (s\<lparr>sh_manifest := Some m, sh_status := READY_FOR_MANIFEST\<rparr>) \<Longrightarrow>
       find_by_id k db' = (if k = sh_id s
         then Inr (Some (s\<lparr>sh_manifest := Some m, sh_status := READY_FOR_MANIFEST\<rparr>)) else find_by_id k db)"
proof -
  obtain s' where h: "finalize_manifest_handle find_by_id persist put_message sid c db = Inr (s', db')"
    and resp: "finalize_manifest_response_of s' = Inr resp" and cm: "commit db' = None"
    using assms by (auto simp: finalize_manifest_endpoint_def request_scope_Inr bindE_Inr_iff)
  obtain i s m ev db1 where i: "mk_shipment_id (PStr sid) = Inr i" and f: "find_by_id i db = Inr (Some s)"
    and m: "mk_cargo_manifest (PFloat (fm_total_weight_kg c)) (PFloat (fm_total_volume_cbm c))
       (PStr (fm_commodity_code c)) = Inr m"
    and fin: "finalize_manifest m s = Inr (s', ev)" and p: "persist s' db = Inr db1"
    and put: "put_message ev db1 = Inr db'"
    using h unfolding finalize_manifest_handle_def
    by (auto simp: bindE_Inr_iff split: option.splits prod.splits)
  have s': "s' = s\<lparr>sh_manifest := Some m, sh_status := READY_FOR_MANIFEST\<rparr>"
    and d: "sh_status s = DRAFT" and w: "\<not> float_le0 (total_weight_kg m)" and ev: "ev = finalized_event s m"
    using fin by (simp_all add: finalize_manifest_Inr)
  obtain r where r: "outbox db' = outbox db @ [r]" "announces dests ev r"
    using put_message_outbox [OF put] persist_outbox [OF p] by auto
  have find: "find_by_id k db' = (if k = sh_id s then Inr (Some s') else find_by_id k db)" if "storable s'" for k
    using find_persist [OF that p] put_message_find [OF put] by (simp add: s')
  show thesis
    using that [OF i f d m w cm _ r(1)] resp r(2) find ev s' by simp
qed

lemma assign_endpoint_success:
  assumes "assign_route_endpoint find_by_id persist commit sid c db = (Inr resp, db')"
  obtains i s r where
    "mk_shipment_id (PStr sid) = Inr i" "find_by_id i db = Inr (Some s)"
    "sh_status s \<notin> ROUTE_LOCKED_STATUSES"
    "mk_shipment_route (PStr (ar_origin_port_code c)) (PStr (ar_destination_port_code c))
       (PList (map PStr (ar_transit_legs c))) = Inr r"
    "resp = assign_route_response_of (s\<lparr>sh_route := r\<rparr>)" "outbox db' = outbox db"
    "\<And>k. storable (s\<lparr>sh_route := r\<rparr>) \<Longrightarrow>
       find_by_id k db' = (if k = sh_id s then Inr (Some (s\<lparr>sh_route := r\<rparr>)) else find_by_id k db)"
proof -
  obtain s' where h: "assign_route_handle find_by_id persist sid c db = Inr (s', db')"
    and resp: "resp = assign_route_response_of s'"
    using assms by (auto simp: assign_route_endpoint_def request_scope_Inr bindE_Inr_iff)
  obtain i s r where i: "mk_shipment_id (PStr sid) = Inr i" and f: "find_by_id i db = Inr (Some s)"
    and r: "mk_shipment_route (PStr (ar_origin_port_code c)) (PStr (ar_destination_port_code c))
       (PList (map PStr (ar_transit_legs c))) = Inr r"
    and a: "assign_route r s = Inr s'" and p: "persist s' db = Inr db'"
    using h unfolding assign_route_handle_def by (auto simp: bindE_Inr_iff split: option.splits)
  have s': "s' = s\<lparr>sh_route := r\<rparr>" and st: "sh_status s \<notin> ROUTE_LOCKED_STATUSES"
    using a by (simp_all add: assign_route_Inr)
  have find: "find_by_id k db' = (if k = sh_id s then Inr (Some s') else find_by_id k db)" if "storable s'" for k
    using find_persist [OF that p] by (simp add: s')
  show thesis using that [OF i f st r _ persist_outbox [OF p]] resp find s' by simp
qed

end

text \<open>A failed request leaves the database as it found it.\<close>

lemma finalize_endpoint_failure:
  "finalize_manifest_endpoint find_id persist put commit sid c db = (Inl e, db') \<Longrightarrow> db' = db"
  unfolding finalize_manifest_endpoint_def by (rule request_scope_Inl)

lemma assign_endpoint_failure:
  "assign_route_endpoint find_id persist commit sid c db = (Inl e, db') \<Longrightarrow> db' = db"
  unfolding assign_route_endpoint_def by (rule request_scope_Inl)

section \<open>Creating drafts\<close>

text \<open>The promise of the series: a number that was never issued before.\<close>

locale waybill_series =
  fixes next_waybill :: "'q \<Rightarrow> waybill_number res \<times> 'q"
    and issued :: "'q \<Rightarrow> waybill_number set"
  assumes next_fresh: "next_waybill q = (Inr w, q') \<Longrightarrow> w \<notin> issued q \<and> issued q' = insert w (issued q)"
    and next_failed: "next_waybill q = (Inl e, q') \<Longrightarrow> issued q \<subseteq> issued q'"
    and next_wf: "next_waybill q = (Inr w, q') \<Longrightarrow> wf_waybill w"

text \<open>A sequence of \<open>POST /shipments\<close> requests; the responses of those that succeeded.\<close>

fun create_drafts ::
  "('q \<Rightarrow> waybill_number res \<times> 'q) \<Rightarrow> (shipment \<Rightarrow> 'db \<Rightarrow> 'db res) \<Rightarrow> ('db \<Rightarrow> exc option) \<Rightarrow>
   (uuid \<times> create_draft_command) list \<Rightarrow> 'q \<Rightarrow> 'db \<Rightarrow> create_draft_response list \<times> 'db \<times> 'q" where
  "create_drafts next_waybill persist commit [] q db = ([], db, q)"
| "create_drafts next_waybill persist commit ((fresh, c) # cs) q db =
     (let (resp, db1, q1) = create_draft_shipment next_waybill persist commit fresh c q db;
          (resps, db2, q2) = create_drafts next_waybill persist commit cs q1 db1
      in ((case resp of Inl e \<Rightarrow> resps | Inr r \<Rightarrow> r # resps), db2, q2))"

lemma create_draft_success:
  assumes "create_draft_shipment next_waybill persist commit fresh c q db = (Inr resp, db', q')"
  obtains w s where "next_waybill q = (Inr w, q')"
    "create (ShipmentId fresh) w (PStr (cd_origin_port_code c)) (PStr (cd_destination_port_code c)) = Inr s"
    "persist s db = Inr db'" "resp = create_draft_response_of s"
  using assms
  by (auto simp: create_draft_shipment_def create_draft_handle_def request_scope_Inr bindE_Inr_iff
      split: prod.splits)

lemma create_draft_series:
  "create_draft_shipment next_waybill persist commit fresh c q db = (resp, db', q') \<Longrightarrow>
   q' = snd (next_waybill q)"
  by (auto simp: create_draft_shipment_def create_draft_handle_def split: prod.splits)

lemma create_draft_failure:
  "create_draft_shipment next_waybill persist commit fresh c q db = (Inl e, db', q') \<Longrightarrow> db' = db"
  by (auto simp: create_draft_shipment_def split: prod.splits dest: request_scope_Inl)

context waybill_series begin

lemma issued_grows: "issued q \<subseteq> issued (snd (next_waybill q))"
proof -
  obtain r q' where n: "next_waybill q = (r, q')" by (cases "next_waybill q")
  show ?thesis
  proof (cases r)
    case (Inl e)
    with next_failed n show ?thesis by simp
  next
    case (Inr w)
    with next_fresh n show ?thesis by auto
  qed
qed

lemma create_drafts_waybills:
  "create_drafts next_waybill persist commit cs q db = (resps, db', q') \<Longrightarrow>
   distinct (map cr_waybill_number resps)
   \<and> set (map cr_waybill_number resps) \<inter> waybill_value ` issued q = {} \<and> issued q \<subseteq> issued q'"
proof (induction cs arbitrary: q db resps db' q')
  case Nil
  then show ?case by simp
next
  case (Cons fc cs)
  obtain fresh c where fc: "fc = (fresh, c)" by (cases fc)
  obtain resp db1 q1 where one: "create_draft_shipment next_waybill persist commit fresh c q db = (resp, db1, q1)"
    by (cases "create_draft_shipment next_waybill persist commit fresh c q db")
  obtain resps2 db2 q2 where rest: "create_drafts next_waybill persist commit cs q1 db1 = (resps2, db2, q2)"
    by (cases "create_drafts next_waybill persist commit cs q1 db1")
  have q1: "issued q \<subseteq> issued q1" using create_draft_series [OF one] issued_grows by simp
  have eqs: "resps = (case resp of Inl e \<Rightarrow> resps2 | Inr r \<Rightarrow> r # resps2)" "q' = q2"
    using Cons.prems fc one rest by simp_all
  note IH = Cons.IH [OF rest]
  show ?case
  proof (cases resp)
    case (Inl e)
    then show ?thesis using IH q1 eqs by auto
  next
    case (Inr r)
    obtain w s where w: "next_waybill q = (Inr w, q1)"
      and s: "create (ShipmentId fresh) w (PStr (cd_origin_port_code c)) (PStr (cd_destination_port_code c)) = Inr s"
      and r: "r = create_draft_response_of s"
      using create_draft_success [OF one [unfolded Inr]] by metis
    have "cr_waybill_number r = waybill_value w"
      using s r by (auto simp: create_def create_draft_response_of_def bindE_Inr_iff)
    moreover have "w \<in> issued q1" "w \<notin> issued q" using next_fresh [OF w] by auto
    moreover have "inj waybill_value" by (auto intro: injI waybill_number.expand)
    ultimately show ?thesis using IH q1 eqs Inr by (auto dest: injD)
  qed
qed

end

section \<open>Properties\<close>

lemma segments_no_slash: "list_all (\<lambda>p. CHR ''/'' \<notin> set p) [''shipments'', ''route'', ''finalize-manifest'', ''flag-exception'']"
  by code_simp

lemma shipment_link_served:
  assumes "verb l = m" "href l = path_of [''shipments'', str_shipment_id i, s]"
    and "(m, s) \<in> {(''PUT'', ''route''), (''POST'', ''finalize-manifest'')}"
  shows "served shipment_routes l"
proof -
  have segs: "split_on (CHR ''/'') (href l) = [[], ''shipments'', str_shipment_id i, s]"
    unfolding assms(2) using assms(3) segments_no_slash show_uuid_segment(1) [of "sid_value i"]
    by (subst split_path_of) (auto simp: str_shipment_id_def)
  have t: "split_on (CHR ''/'') ''/shipments/{shipment_id}/route'' = [[], ''shipments'', ''{shipment_id}'', ''route'']"
    "split_on (CHR ''/'') ''/shipments/{shipment_id}/finalize-manifest'' = [[], ''shipments'', ''{shipment_id}'', ''finalize-manifest'']"
    "is_param ''{shipment_id}''" "\<not> is_param ''shipments''" "\<not> is_param ''route''" "\<not> is_param ''finalize-manifest''"
    "\<not> is_param []"
    by code_simp+
  show ?thesis
    using assms(1,3) show_uuid_segment(2) [of "sid_value i"]
    by (auto simp: served_def shipment_routes_def path_matches_def segs t str_shipment_id_def)
qed

text \<open>
  The hypermedia links that creating a draft and assigning a route hand out are served:
  each names a method and a path that the module's router mounts.
\<close>

theorem shipment_links_served:
  "list_all (served shipment_routes) (create_draft_next_tasks (str_shipment_id (sh_id s)) @ assign_route_next_tasks s)"
  by (auto simp: create_draft_next_tasks_def assign_route_next_tasks_def Let_def Link_def
      intro!: shipment_link_served [of _ _ "sh_id s"])

text \<open>
  Finalizing a manifest always advertises a link that nothing serves: no route of the
  module matches \<open>flag-exception\<close>.
\<close>

theorem flag_exception_link_dangles:
  "\<exists>l \<in> set (finalize_manifest_next_tasks s). rel l = ''flag-exception'' \<and> \<not> served shipment_routes l"
proof -
  let ?l = "Link ''flag-exception'' (path_of [''shipments'', str_shipment_id (sh_id s), ''flag-exception'']) ''POST''"
  have segs: "split_on (CHR ''/'') (href ?l) = [[], ''shipments'', str_shipment_id (sh_id s), ''flag-exception'']"
    unfolding Link_def link.simps using segments_no_slash show_uuid_segment(1) [of "sid_value (sh_id s)"]
    by (subst split_path_of) (auto simp: str_shipment_id_def)
  have t: "split_on (CHR ''/'') ''/shipments/{shipment_id}/route'' = [[], ''shipments'', ''{shipment_id}'', ''route'']"
    "split_on (CHR ''/'') ''/shipments/{shipment_id}/finalize-manifest'' = [[], ''shipments'', ''{shipment_id}'', ''finalize-manifest'']"
    "split_on (CHR ''/'') ''/shipments'' = [[], ''shipments'']" "\<not> is_param ''finalize-manifest''" "\<not> is_param []"
    "\<not> is_param ''shipments''"
    by code_simp+
  have "\<not> served shipment_routes ?l"
    unfolding served_def shipment_routes_def path_matches_def segs by (simp add: t Link_def)
  then show ?thesis by (auto simp: finalize_manifest_next_tasks_def Let_def Link_def)
qed

text \<open>
  The handlers of the module turn every refusal of the domain into an error with status
  404, 409 or 422; anything else they raise came out of the repository or the outbox.
\<close>

theorem shipment_handler_errors:
  "(assign_route_handle find_id persist sid c db = Inl e \<longrightarrow>
      exc_status e \<in> {404, 409, 422} \<or> (\<exists>i. find_id i db = Inl e) \<or> (\<exists>s. persist s db = Inl e))
   \<and> (finalize_manifest_handle find_id persist put sid d db = Inl e \<longrightarrow>
      exc_status e \<in> {404, 409, 422} \<or> (\<exists>i. find_id i db = Inl e) \<or> (\<exists>s. persist s db = Inl e)
      \<or> (\<exists>m db'. put m db' = Inl e))"
proof (intro conjI impI)
  note status = shipment_domain_error_status [of e]
  assume "assign_route_handle find_id persist sid c db = Inl e"
  from assign_route_handle_error [OF this] status
  show "exc_status e \<in> {404, 409, 422} \<or> (\<exists>i. find_id i db = Inl e) \<or> (\<exists>s. persist s db = Inl e)"
    by argo
next
  note status = shipment_domain_error_status [of e]
  assume "finalize_manifest_handle find_id persist put sid d db = Inl e"
  from finalize_manifest_handle_error [OF this] status
  show "exc_status e \<in> {404, 409, 422} \<or> (\<exists>i. find_id i db = Inl e) \<or> (\<exists>s. persist s db = Inl e)
      \<or> (\<exists>m db'. put m db' = Inl e)"
    by argo
qed

lemma shipment_handler_errors_witness:
  "\<exists>e. assign_route_handle (\<lambda>i db. Inr None) (\<lambda>s db. Inr db) (str_shipment_id (ShipmentId 1))
        \<lparr>ar_origin_port_code = ''ESVLC'', ar_destination_port_code = ''USNYC'', ar_transit_legs = []\<rparr> () = Inl e
     \<and> exc_status e \<in> {404, 409, 422}"
proof -
  let ?c = "\<lparr>ar_origin_port_code = ''ESVLC'', ar_destination_port_code = ''USNYC'', ar_transit_legs = []\<rparr>"
  have h: "assign_route_handle (\<lambda>i db. Inr None) (\<lambda>s db. Inr db) (str_shipment_id (ShipmentId 1)) ?c ()
      = Inl (shipment_exc ShipmentNotFoundError)"
    by (simp add: assign_route_handle_def)
  have "exc_status (shipment_exc ShipmentNotFoundError) \<in> {404, 409, 422}"
    using shipment_handler_errors [THEN conjunct1, THEN mp, OF h] by (elim disjE) simp_all
  then show ?thesis using h by blast
qed

end
