(* ===== verification/Shipment_Storage.thy ===== *)
theory Shipment_Storage
  imports Shipment_Slices
begin

text \<open>
  Persistence of shipments (\<open>modules/shipment/src/infrastructure\<close>): the imperative mapping
  of the aggregate to the row of \<open>shipment.shipments\<close>, the constraints of the table, the
  PostgreSQL repository and the waybill sequence. The locales of the slices are interpreted
  here on the module's own schema. How the driver and the \<open>Numeric(14, 3)\<close> columns store a
  float is an argument: \<open>numeric\<close> gives the float that is read back, \<open>fits\<close> says whether
  the database accepts it.
\<close>

section \<open>The mapping\<close>

record shipment_row =
  sr_id :: uuid
  sr_waybill_number :: string
  sr_total_weight_kg :: "pyfloat option"
  sr_total_volume_cbm :: "pyfloat option"
  sr_commodity_code :: "string option"
  sr_origin_port_code :: string
  sr_destination_port_code :: string
  sr_transit_legs :: "string list"
  sr_status :: string
  sr_exception_reason :: "string option"

text \<open>The composite values of the aggregate, spread over the columns.\<close>

definition shipment_to_row :: "shipment \<Rightarrow> shipment_row" where
  "shipment_to_row s =
     \<lparr>sr_id = sid_value (sh_id s),
      sr_waybill_number = waybill_value (sh_waybill s),
      sr_total_weight_kg = map_option total_weight_kg (sh_manifest s),
      sr_total_volume_cbm = map_option total_volume_cbm (sh_manifest s),
      sr_commodity_code = map_option commodity_code (sh_manifest s),
      sr_origin_port_code = origin_port_code (sh_route s),
      sr_destination_port_code = destination_port_code (sh_route s),
      sr_transit_legs = transit_legs (sh_route s),
      sr_status = tracking_status_value (sh_status s),
      sr_exception_reason = sh_exception_reason s\<rparr>"

definition null_or :: "('a \<Rightarrow> pyval) \<Rightarrow> 'a option \<Rightarrow> pyval" where
  "null_or f v = (case v of None \<Rightarrow> PNone | Some x \<Rightarrow> f x)"

text \<open>Loading: every composite runs the constructor of its value object again.\<close>

definition shipment_of_row :: "shipment_row \<Rightarrow> shipment res" where
  "shipment_of_row r =
     bindE (case tracking_status_of (sr_status r) of
              None \<Rightarrow> Inl (PyError ''LookupError'') | Some st \<Rightarrow> Inr st) (\<lambda>status.
     bindE (mk_shipment_id (PUuid (sr_id r))) (\<lambda>i.
     bindE (mk_waybill_number (PStr (sr_waybill_number r))) (\<lambda>w.
     bindE (manifest_from_columns (null_or PFloat (sr_total_weight_kg r))
              (null_or PFloat (sr_total_volume_cbm r)) (null_or PStr (sr_commodity_code r))) (\<lambda>m.
     bindE (mk_shipment_route (PStr (sr_origin_port_code r)) (PStr (sr_destination_port_code r))
              (PList (map PStr (sr_transit_legs r)))) (\<lambda>route.
     Inr \<lparr>sh_id = i, sh_waybill = w, sh_route = route, sh_status = status, sh_manifest = m,
          sh_exception_reason = sr_exception_reason r\<rparr>)))))"

section \<open>The table\<close>

text \<open>The constraints of the migration, in the order the database evaluates them.\<close>

definition shipment_row_types_ok :: "(pyfloat \<Rightarrow> bool) \<Rightarrow> shipment_row \<Rightarrow> bool" where
  "shipment_row_types_ok fits r \<longleftrightarrow>
     column_text 12 (sr_waybill_number r)
     \<and> (case sr_commodity_code r of None \<Rightarrow> True | Some c \<Rightarrow> column_text 16 c)
     \<and> column_text 5 (sr_origin_port_code r) \<and> column_text 5 (sr_destination_port_code r)
     \<and> list_all (column_text 5) (sr_transit_legs r) \<and> column_text 32 (sr_status r)
     \<and> (case sr_exception_reason r of None \<Rightarrow> True | Some t \<Rightarrow> nul_free t)
     \<and> (case sr_total_weight_kg r of None \<Rightarrow> True | Some w \<Rightarrow> fits w)
     \<and> (case sr_total_volume_cbm r of None \<Rightarrow> True | Some v \<Rightarrow> fits v)"

definition shipment_check ::
  "(pyfloat \<Rightarrow> bool) \<Rightarrow> shipment_row \<Rightarrow> shipment_row list \<Rightarrow> exc option" where
  "shipment_check fits r others =
     (if \<not> shipment_row_types_ok fits r then Some (PyError ''DBAPIError'')
      else if sr_status r \<notin> set (map tracking_status_value all_tracking_statuses)
      then Some (IntegrityError ''tracking_status'')
      else if sr_origin_port_code r = sr_destination_port_code r
      then Some (IntegrityError ''route_endpoints_differ'')
      else if list_ex (\<lambda>x. sr_waybill_number x = sr_waybill_number r) others
      then Some (IntegrityError ''uq_shipments_waybill_number'')
      else None)"

text \<open>What the column types keep of a row.\<close>

definition shipment_column :: "(pyfloat \<Rightarrow> pyfloat) \<Rightarrow> shipment_row \<Rightarrow> shipment_row" where
  "shipment_column numeric r =
     r\<lparr>sr_total_weight_kg := map_option numeric (sr_total_weight_kg r),
       sr_total_volume_cbm := map_option numeric (sr_total_volume_cbm r)\<rparr>"

section \<open>The repository\<close>

type_synonym shipment_table = "(shipment_id, shipment_row) table"

definition postgres_persist ::
  "(pyfloat \<Rightarrow> pyfloat) \<Rightarrow> (pyfloat \<Rightarrow> bool) \<Rightarrow> shipment \<Rightarrow> shipment_table \<Rightarrow> shipment_table res" where
  "postgres_persist numeric fits s =
     table_save (shipment_column numeric) (shipment_check fits) (\<lambda>r. ShipmentId (sr_id r)) (shipment_to_row s)"

definition postgres_find_by_id :: "shipment_id \<Rightarrow> shipment_table \<Rightarrow> shipment option res" where
  "postgres_find_by_id i rows = load_mapped shipment_of_row (table_load i rows)"

text \<open>A shipment with well-formed parts whose measures the columns keep exactly.\<close>

definition storable_shipment :: "(pyfloat \<Rightarrow> pyfloat) \<Rightarrow> shipment \<Rightarrow> bool" where
  "storable_shipment numeric s \<longleftrightarrow>
     wf_waybill (sh_waybill s) \<and> wf_route (sh_route s)
     \<and> (case sh_manifest s of None \<Rightarrow> True
        | Some m \<Rightarrow> wf_manifest m \<and> numeric (total_weight_kg m) = total_weight_kg m
                    \<and> numeric (total_volume_cbm m) = total_volume_cbm m)"

lemma shipment_row_round_trip:
  assumes "storable_shipment numeric s"
  shows "shipment_of_row (shipment_column numeric (shipment_to_row s)) = Inr s"
proof -
  have w: "mk_waybill_number (PStr (waybill_value (sh_waybill s))) = Inr (sh_waybill s)"
    and r: "mk_shipment_route (PStr (origin_port_code (sh_route s))) (PStr (destination_port_code (sh_route s)))
              (PList (map PStr (transit_legs (sh_route s)))) = Inr (sh_route s)"
    using assms by (simp_all add: storable_shipment_def mk_waybill_of_wf mk_shipment_route_of_wf)
  have m: "manifest_from_columns
      (null_or PFloat (map_option numeric (map_option total_weight_kg (sh_manifest s))))
      (null_or PFloat (map_option numeric (map_option total_volume_cbm (sh_manifest s))))
      (null_or PStr (map_option commodity_code (sh_manifest s))) = Inr (sh_manifest s)"
    using assms
    by (auto simp: storable_shipment_def manifest_from_columns_def null_or_def mk_cargo_manifest_of_wf
        split: option.splits)
  show ?thesis
    by (simp add: shipment_of_row_def shipment_column_def shipment_to_row_def w m r mk_shipment_id_def)
qed

interpretation shipments: mapped_store "shipment_column numeric"
  "table_save (shipment_column numeric) (shipment_check fits) (\<lambda>r. ShipmentId (sr_id r))" table_load
  "\<lambda>r. ShipmentId (sr_id r)" shipment_to_row shipment_of_row sh_id "storable_shipment numeric"
  for numeric :: "pyfloat \<Rightarrow> pyfloat" and fits :: "pyfloat \<Rightarrow> bool"
  by unfold_locales (simp add: shipment_row_round_trip, simp add: shipment_to_row_def)

lemma postgres_repository:
  "repository (postgres_persist numeric fits) postgres_find_by_id sh_id (storable_shipment numeric)"
proof -
  have "postgres_persist numeric fits = (\<lambda>s. table_save (shipment_column numeric) (shipment_check fits)
      (\<lambda>r. ShipmentId (sr_id r)) (shipment_to_row s))"
    "postgres_find_by_id = (\<lambda>k rows. load_mapped shipment_of_row (table_load k rows))"
    by (auto simp: postgres_persist_def postgres_find_by_id_def fun_eq_iff)
  then show ?thesis using shipments.repository_axioms [of numeric fits] by simp
qed

interpretation shipment_db: shipment_session
  "\<lambda>s. on_store (postgres_persist numeric fits s)" "\<lambda>i db. postgres_find_by_id i (md_store db)"
  "storable_shipment numeric" dests "schedule dests fresh now" md_outbox
  for numeric :: "pyfloat \<Rightarrow> pyfloat" and fits :: "pyfloat \<Rightarrow> bool" and dests :: destination_registry
    and fresh :: uuid and now :: int
  unfolding shipment_session_def by (rule unit_of_work_on_store [OF postgres_repository])

text \<open>A shipment the domain built violates no constraint of its own row.\<close>

lemma tracking_status_text: "column_text 32 (tracking_status_value s)"
  by (cases s) (simp_all add: column_text_def)

lemma shipment_row_accepted:
  assumes "wf_waybill (sh_waybill s)" "wf_route (sh_route s)" "sh_exception_reason s = None"
    and "\<And>m. sh_manifest s = Some m \<Longrightarrow>
      wf_manifest m \<and> nul_free (commodity_code m) \<and> fits (numeric (total_weight_kg m)) \<and> fits (numeric (total_volume_cbm m))"
    and "\<And>x. x \<in> set others \<Longrightarrow> sr_waybill_number x \<noteq> waybill_value (sh_waybill s)"
  shows "shipment_check fits (shipment_column numeric (shipment_to_row s)) others = None"
proof -
  have hop: "column_text 5 l" if "l \<in> set (hops (sh_route s))" for l
  proof -
    have "port_code_pattern l" using assms(2) that by (simp add: wf_route_def list_all_iff)
    then show ?thesis
      using nul_free_if [OF port_code_chars] not_nul by (auto simp: column_text_def port_code_pattern_def)
  qed
  have waybill: "column_text 12 (waybill_value (sh_waybill s))"
    using assms(1) nul_free_if [of is_digit] not_nul
    by (auto simp: wf_waybill_def waybill_pattern_split column_text_def)
  have types: "shipment_row_types_ok fits (shipment_column numeric (shipment_to_row s))"
    using assms(3,4) hop waybill tracking_status_text [of "sh_status s"]
    by (auto simp: shipment_row_types_ok_def shipment_column_def shipment_to_row_def column_text_def [of 16]
        wf_manifest_def MAX_COMMODITY_CODE_LENGTH_def hops_def list_all_iff split: option.splits)
  have "origin_port_code (sh_route s) \<noteq> destination_port_code (sh_route s)"
    using assms(2) by (auto simp: wf_route_def hops_def)
  then show ?thesis
    using types assms(5) tracking_status_complete [of "sh_status s"]
    by (auto simp: shipment_check_def shipment_column_def shipment_to_row_def list_ex_iff)
qed

section \<open>The waybill sequence\<close>

text \<open>
  \<open>shipment.waybill_serial\<close>: it starts at 1, ends at 9,999,999 and does not cycle; its
  state is the last value drawn. \<open>None\<close> is the error of an exhausted sequence.
\<close>

definition waybill_serial_next :: "int \<Rightarrow> int option \<times> int" where
  "waybill_serial_next last_value =
     (if last_value < 9999999 then (Some (last_value + 1), last_value + 1) else (None, last_value))"

definition postgres_next_waybill :: "int \<Rightarrow> waybill_number res \<times> int" where
  "postgres_next_waybill last_value =
     (case waybill_serial_next last_value of
        (None, v) \<Rightarrow> (Inl (PyError ''DBAPIError''), v)
      | (Some serial, v) \<Rightarrow> (from_serial serial, v))"

definition issued_waybills :: "int \<Rightarrow> waybill_number set" where
  "issued_waybills v = {w. \<exists>n. 0 \<le> n \<and> n \<le> v \<and> n < 10 ^ 7 \<and> from_serial n = Inr w}"

lemma from_serial_inj:
  assumes "0 \<le> m" "m < 10 ^ 7" "0 \<le> n" "n < 10 ^ 7" "from_serial m = from_serial n"
  shows "m = n"
proof -
  have "low_digits 10 7 (nat m) = low_digits 10 7 (nat n)"
    using assms by (simp only: from_serial_in_range sum.inject waybill_number.inject same_append_eq)
  then have "nat m = nat n"
    by (rule low_digits_inj [rotated 2]) (use assms in \<open>simp_all add: nat_less_iff\<close>)
  then show ?thesis using assms by (simp add: nat_eq_iff)
qed

lemma from_serial_Inr: "from_serial n = Inr w \<Longrightarrow> 0 \<le> n \<and> n < 10 ^ 7"
  using from_serial_out_of_range [of n] by (cases "n < 0 \<or> 10 ^ 7 \<le> n") auto

interpretation waybills: waybill_series postgres_next_waybill issued_waybills
proof
  fix q q' w assume n: "postgres_next_waybill q = (Inr w, q')"
  then have q': "q' = q + 1" and w: "from_serial (q + 1) = Inr w"
    by (auto simp: postgres_next_waybill_def waybill_serial_next_def split: if_splits)
  note range = from_serial_Inr [OF w]
  have "w \<notin> issued_waybills q"
  proof
    assume "w \<in> issued_waybills q"
    then obtain n where n: "0 \<le> n" "n \<le> q" "n < 10 ^ 7" "from_serial n = Inr w"
      by (auto simp: issued_waybills_def)
    then have "q + 1 = n" using range w by (intro from_serial_inj) simp_all
    then show False using n(2) by simp
  qed
  moreover have "issued_waybills q' = insert w (issued_waybills q)"
  proof -
    have "(n \<le> q') = (n = q + 1 \<or> n \<le> q)" for n :: int using q' by linarith
    then show ?thesis using range w by (auto simp: issued_waybills_def)
  qed
  ultimately show "w \<notin> issued_waybills q \<and> issued_waybills q' = insert w (issued_waybills q)" ..
next
  fix q q' e assume "postgres_next_waybill q = (Inl e, q')"
  then show "issued_waybills q \<subseteq> issued_waybills q'"
    by (auto simp: postgres_next_waybill_def waybill_serial_next_def issued_waybills_def split: if_splits)
next
  fix q q' w assume "postgres_next_waybill q = (Inr w, q')"
  then have "from_serial (q + 1) = Inr w"
    by (auto simp: postgres_next_waybill_def waybill_serial_next_def split: if_splits)
  then show "wf_waybill w" unfolding from_serial_def by (rule mk_waybill_wf)
qed

section \<open>The requests of the module\<close>

text \<open>
  The dependencies of the controllers: \<open>get_\<dots>_handler\<close> builds the handler over the
  repository and the outbox of the request's own session.
\<close>

type_synonym shipment_db = "shipment_table module_db"

definition finalize_manifest_request ::
  "(pyfloat \<Rightarrow> pyfloat) \<Rightarrow> (pyfloat \<Rightarrow> bool) \<Rightarrow> destination_registry \<Rightarrow> uuid \<Rightarrow> int \<Rightarrow>
   (shipment_db \<Rightarrow> exc option) \<Rightarrow> string \<Rightarrow> finalize_manifest_command \<Rightarrow> shipment_db \<Rightarrow>
   finalize_manifest_response res \<times> shipment_db" where
  "finalize_manifest_request numeric fits dests fresh now commit =
     finalize_manifest_endpoint (\<lambda>i db. postgres_find_by_id i (md_store db))
       (\<lambda>s. on_store (postgres_persist numeric fits s)) (schedule dests fresh now) commit"

definition assign_route_request ::
  "(pyfloat \<Rightarrow> pyfloat) \<Rightarrow> (pyfloat \<Rightarrow> bool) \<Rightarrow> (shipment_db \<Rightarrow> exc option) \<Rightarrow> string \<Rightarrow>
   assign_route_command \<Rightarrow> shipment_db \<Rightarrow> assign_route_response res \<times> shipment_db" where
  "assign_route_request numeric fits commit =
     assign_route_endpoint (\<lambda>i db. postgres_find_by_id i (md_store db))
       (\<lambda>s. on_store (postgres_persist numeric fits s)) commit"

definition create_draft_requests ::
  "(pyfloat \<Rightarrow> pyfloat) \<Rightarrow> (pyfloat \<Rightarrow> bool) \<Rightarrow> (shipment_db \<Rightarrow> exc option) \<Rightarrow>
   (uuid \<times> create_draft_command) list \<Rightarrow> int \<Rightarrow> shipment_db \<Rightarrow>
   create_draft_response list \<times> shipment_db \<times> int" where
  "create_draft_requests numeric fits commit =
     create_drafts postgres_next_waybill (\<lambda>s. on_store (postgres_persist numeric fits s)) commit"

text \<open>A loaded shipment is well formed: its composites were validated again.\<close>

lemma shipment_of_row_wf:
  "shipment_of_row r = Inr s \<Longrightarrow> wf_waybill (sh_waybill s) \<and> wf_route (sh_route s)
   \<and> (case sh_manifest s of None \<Rightarrow> True | Some m \<Rightarrow> wf_manifest m)"
  by (auto simp: shipment_of_row_def bindE_Inr_iff manifest_from_columns_def
      intro: mk_waybill_wf mk_shipment_route_wf mk_cargo_manifest_wf split: if_splits option.splits)

lemma found_shipment_wf:
  "postgres_find_by_id i rows = Inr (Some s) \<Longrightarrow> wf_waybill (sh_waybill s) \<and> wf_route (sh_route s)"
  by (auto simp: postgres_find_by_id_def load_mapped_def bindE_Inr_iff dest: shipment_of_row_wf split: option.splits)

section \<open>Properties\<close>

text \<open>
  C6. Finalizing a manifest over HTTP is all or nothing. A failed request leaves the database
  as it was. A successful one found a draft, accepted a manifest with weight, stores the
  shipment ready for manifest with that manifest (as far as the numeric columns keep its
  measures) and puts exactly one pending message in the outbox: the announcement of this
  shipment, addressed to the registered destination.
\<close>

theorem finalize_manifest_atomic:
  "case finalize_manifest_request numeric fits dests fresh now commit sid c db of
     (Inl e, db') \<Rightarrow> db' = db
   | (Inr resp, db') \<Rightarrow>
       (\<exists>i s m r. mk_shipment_id (PStr sid) = Inr i \<and> postgres_find_by_id i (md_store db) = Inr (Some s)
          \<and> sh_status s = DRAFT
          \<and> mk_cargo_manifest (PFloat (fm_total_weight_kg c)) (PFloat (fm_total_volume_cbm c))
              (PStr (fm_commodity_code c)) = Inr m
          \<and> \<not> float_le0 (total_weight_kg m) \<and> commit db' = None
          \<and> md_outbox db' = md_outbox db @ [r] \<and> announces dests (finalized_event s m) r
          \<and> (numeric (total_weight_kg m) = total_weight_kg m \<and> numeric (total_volume_cbm m) = total_volume_cbm m
             \<longrightarrow> postgres_find_by_id (sh_id s) (md_store db') =
                 Inr (Some (s\<lparr>sh_manifest := Some m, sh_status := READY_FOR_MANIFEST\<rparr>))))"
proof (cases "finalize_manifest_request numeric fits dests fresh now commit sid c db")
  case (Pair res db')
  show ?thesis
  proof (cases res)
    case (Inl e)
    then show ?thesis
      using Pair finalize_endpoint_failure unfolding finalize_manifest_request_def by fastforce
  next
    case (Inr resp)
    have h: "finalize_manifest_endpoint (\<lambda>i db. postgres_find_by_id i (md_store db))
       (\<lambda>s. on_store (postgres_persist numeric fits s)) (schedule dests fresh now) commit sid c db = (Inr resp, db')"
      using Pair Inr by (simp add: finalize_manifest_request_def)
    show ?thesis
    proof (rule shipment_db.finalize_endpoint_success [OF h], goal_cases)
      case (1 i s m r)
      note found = 1
      let ?s' = "s\<lparr>sh_manifest := Some m, sh_status := READY_FOR_MANIFEST\<rparr>"
      have "storable_shipment numeric ?s'"
        if "numeric (total_weight_kg m) = total_weight_kg m \<and> numeric (total_volume_cbm m) = total_volume_cbm m"
        using that found_shipment_wf [OF found(2)] mk_cargo_manifest_wf [OF found(4)]
        by (simp add: storable_shipment_def)
      note find = found(10) [OF this, of "sh_id s"]
      show ?case unfolding Pair Inr prod.case sum.case
        by (intro exI [of _ i] exI [of _ s] exI [of _ m] exI [of _ r] conjI impI)
          (use found(1-9) find in \<open>simp_all only: simp_thms if_True\<close>)
    qed
  qed
qed

definition draft_row :: shipment_row where
  "draft_row =
     \<lparr>sr_id = 7, sr_waybill_number = ''MUST-0000042'', sr_total_weight_kg = None,
      sr_total_volume_cbm = None, sr_commodity_code = None, sr_origin_port_code = ''ESVLC'',
      sr_destination_port_code = ''USNYC'', sr_transit_legs = [], sr_status = ''Draft'',
      sr_exception_reason = None\<rparr>"

definition draft_db :: shipment_db where
  "draft_db = \<lparr>md_store = [(ShipmentId 7, draft_row)], md_outbox = [], md_inbox = []\<rparr>"

definition sample_finalize :: finalize_manifest_command where
  "sample_finalize = \<lparr>fm_total_weight_kg = Fin 10, fm_total_volume_cbm = Fin 1, fm_commodity_code = ''8471''\<rparr>"

definition shipment_destinations :: destination_registry where
  "shipment_destinations = snd (register_shipment_message_destinations ''trade-logistics.topic'' (False, []))"

lemma finalize_manifest_atomic_witness:
  "\<exists>resp db'. finalize_manifest_request (\<lambda>x. x) (\<lambda>_. True) shipment_destinations 1 0 (\<lambda>_. None)
       (str_shipment_id (ShipmentId 7)) sample_finalize draft_db = (Inr resp, db')
     \<and> length (md_outbox db') = 1
     \<and> (\<exists>s. postgres_find_by_id (sh_id s) (md_store db') = Inr (Some s) \<and> sh_status s = READY_FOR_MANIFEST)"
proof -
  let ?r = "finalize_manifest_request (\<lambda>x. x) (\<lambda>_. True) shipment_destinations 1 0 (\<lambda>_. None)
       (str_shipment_id (ShipmentId 7)) sample_finalize draft_db"
  have "isl (fst ?r) = False" by code_simp
  then obtain resp db' where r: "?r = (Inr resp, db')" by (cases ?r; cases "fst ?r") auto
  from finalize_manifest_atomic [where numeric = "\<lambda>x. x" and fits = "\<lambda>_. True" and dests = shipment_destinations
      and fresh = 1 and now = 0 and commit = "\<lambda>_. None" and sid = "str_shipment_id (ShipmentId 7)"
      and c = sample_finalize and db = draft_db, unfolded r prod.case sum.case]
  obtain s m r where "md_outbox db' = md_outbox draft_db @ [r]"
    and f: "postgres_find_by_id (sh_id s) (md_store db') =
      Inr (Some (s\<lparr>sh_manifest := Some m, sh_status := READY_FOR_MANIFEST\<rparr>))"
    by blast
  then show ?thesis using r
    by (intro exI [of _ resp] exI [of _ db'] conjI exI [of _ "s\<lparr>sh_manifest := Some m, sh_status := READY_FOR_MANIFEST\<rparr>"])
      (simp_all add: draft_db_def)
qed



text \<open>
  C22. No waybill number is ever handed out twice: over any sequence of requests to create a
  draft, with failures and rolled back transactions in between, the responses carry pairwise
  different numbers, and none that an earlier request drew.
\<close>

theorem draft_waybills_distinct:
  assumes "create_draft_requests numeric fits commit cs v db = (resps, db', v')"
  shows "distinct (map cr_waybill_number resps)
    \<and> set (map cr_waybill_number resps) \<inter> waybill_value ` issued_waybills v = {}
    \<and> issued_waybills v \<subseteq> issued_waybills v'"
  by (rule waybills.create_drafts_waybills [OF assms [unfolded create_draft_requests_def]])

definition sample_draft :: "string \<Rightarrow> create_draft_command" where
  "sample_draft dest = \<lparr>cd_origin_port_code = ''ESVLC'', cd_destination_port_code = dest\<rparr>"

definition empty_shipment_db :: shipment_db where
  "empty_shipment_db = \<lparr>md_store = [], md_outbox = [], md_inbox = []\<rparr>"

lemma draft_waybills_distinct_witness:
  "\<exists>resp db' v'. create_draft_requests (\<lambda>x. x) (\<lambda>_. True) (\<lambda>_. None)
       [(1, sample_draft ''ESVLC''), (2, sample_draft ''USNYC'')] 41 empty_shipment_db = ([resp], db', v')
     \<and> cr_waybill_number resp \<notin> waybill_value ` issued_waybills 41"
proof -
  let ?p = "\<lambda>s. on_store (postgres_persist (\<lambda>x. x) (\<lambda>_. True) s)"
  let ?h = "\<lambda>i d v. create_draft_handle postgres_next_waybill ?p i (sample_draft d) v empty_shipment_db"
  have "isl (fst (?h 1 ''ESVLC'' 41)) = True" "snd (?h 1 ''ESVLC'' 41) = 42" "isl (fst (?h 2 ''USNYC'' 42)) = False"
    by code_simp+
  then obtain e s db' v' where one: "?h 1 ''ESVLC'' 41 = (Inl e, 42)" and two: "?h 2 ''USNYC'' 42 = (Inr (s, db'), v')"
    by (cases "?h 1 ''ESVLC'' 41"; cases "fst (?h 1 ''ESVLC'' 41)"; cases "?h 2 ''USNYC'' 42";
        cases "fst (?h 2 ''USNYC'' 42)") auto
  have r: "create_draft_requests (\<lambda>x. x) (\<lambda>_. True) (\<lambda>_. None)
       [(1, sample_draft ''ESVLC''), (2, sample_draft ''USNYC'')] 41 empty_shipment_db
     = ([create_draft_response_of s], db', v')"
    by (simp add: create_draft_requests_def create_draft_shipment_def request_scope_def one two)
  then show ?thesis using draft_waybills_distinct [OF r] by auto
qed

end
