(* ===== verification/Money.thy ===== *)
theory Money
  imports App_Errors
begin

text \<open>
  Monetary amounts (\<open>modules/customs_clearance/src/domain/value_objects/money.py\<close>) on the
  decimal arithmetic of the standard library: a finite decimal is a sign, a coefficient and
  an exponent, results are rounded to the 28 digits of the default context, and
  \<open>quantize\<close> raises \<open>InvalidOperation\<close> when the result needs more digits than that.
  A \<open>Money\<close> is its amount in cents (the two zeros are one value) and its currency.
\<close>

section \<open>Decimals\<close>

datatype pydecimal = DNaN | DInf bool | DFin bool nat int

text \<open>The precision of the default context.\<close>

definition decimal_prec :: nat where
  "decimal_prec = 28"

definition half_up :: "nat \<Rightarrow> nat \<Rightarrow> nat" where
  "half_up n d = (2 * n + d) div (2 * d)"

text \<open>The coefficient at exponent -2, rounded half-up.\<close>

definition cents_of :: "nat \<Rightarrow> int \<Rightarrow> nat" where
  "cents_of c e = (if - 2 \<le> e then c * 10 ^ nat (e + 2) else half_up c (10 ^ nat (- e - 2)))"

text \<open>\<open>amount.quantize(Decimal("0.01"), rounding=ROUND_HALF_UP)\<close> of a finite amount.\<close>

definition quantize_cents :: "nat \<Rightarrow> int \<Rightarrow> nat res" where
  "quantize_cents c e =
     (let q = cents_of c e in
      if 10 ^ decimal_prec \<le> q then Inl (PyError ''InvalidOperation'') else Inr q)"

text \<open>
  Rounding of a result to the context, half to even: as many low digits go as are too many
  (a coefficient that rounds up to one more digit drops that one too).
\<close>

definition digits10 :: "nat \<Rightarrow> nat" where
  "digits10 n = length (show_nat n)"

definition context_round :: "nat \<times> int \<Rightarrow> nat \<times> int" where
  "context_round ce =
     (let (c, e) = ce; k = digits10 c - decimal_prec;
          q = round_half_even c (10 ^ k)
      in if 10 ^ decimal_prec \<le> q then (q div 10, e + int k + 1) else (q, e + int k))"

section \<open>Construction\<close>

record money =
  cents :: nat
  currency :: string

definition CURRENCY_CODE_LENGTH :: nat where
  "CURRENCY_CODE_LENGTH = 3"

definition validated_currency :: "pyval \<Rightarrow> string res" where
  "validated_currency value =
     (case value of
        PStr s \<Rightarrow>
          (let code = upper (strip s) in
           if length code \<noteq> CURRENCY_CODE_LENGTH \<or> \<not> isalpha code
           then Inl (customs_exc InvalidMoneyError) else Inr code)
      | _ \<Rightarrow> Inl (customs_exc InvalidMoneyError))"

text \<open>
  The raw amount: a decimal, an integer, a float, a text, or a value of any other type
  (a \<open>bool\<close> among them). \<open>text_decimal\<close> is \<open>Decimal(text)\<close>, \<open>None\<close> where it
  raises, and \<open>float_text\<close> is \<open>str\<close> of a float: both of the standard library.
\<close>

datatype raw_amount =
    RawDecimal pydecimal
  | RawInt int
  | RawFloat pyfloat
  | RawText string
  | RawOther

definition decimal_of_int :: "int \<Rightarrow> pydecimal" where
  "decimal_of_int i = DFin (i < 0) (nat \<bar>i\<bar>) 0"

definition decimal_of_raw ::
  "(string \<Rightarrow> pydecimal option) \<Rightarrow> (pyfloat \<Rightarrow> string) \<Rightarrow> raw_amount \<Rightarrow> pydecimal option" where
  "decimal_of_raw text_decimal float_text raw =
     (case raw of
        RawDecimal d \<Rightarrow> Some d
      | RawInt i \<Rightarrow> Some (decimal_of_int i)
      | RawFloat f \<Rightarrow> text_decimal (float_text f)
      | RawText s \<Rightarrow> text_decimal s
      | RawOther \<Rightarrow> None)"

text \<open>What follows \<open>Decimal(str(value))\<close>: finite, not negative, quantized.\<close>

definition accepted_amount :: "pydecimal \<Rightarrow> nat res" where
  "accepted_amount d =
     (case d of
        DNaN \<Rightarrow> Inl (customs_exc InvalidMoneyError)
      | DInf s \<Rightarrow> Inl (customs_exc InvalidMoneyError)
      | DFin s c e \<Rightarrow>
          if s \<and> c \<noteq> 0 then Inl (customs_exc InvalidMoneyError) else quantize_cents c e)"

definition validated_amount ::
  "(string \<Rightarrow> pydecimal option) \<Rightarrow> (pyfloat \<Rightarrow> string) \<Rightarrow> raw_amount \<Rightarrow> nat res" where
  "validated_amount text_decimal float_text raw =
     (case decimal_of_raw text_decimal float_text raw of
        None \<Rightarrow> Inl (customs_exc InvalidMoneyError)
      | Some d \<Rightarrow> accepted_amount d)"

definition mk_money ::
  "(string \<Rightarrow> pydecimal option) \<Rightarrow> (pyfloat \<Rightarrow> string) \<Rightarrow> raw_amount \<Rightarrow> pyval \<Rightarrow> money res" where
  "mk_money text_decimal float_text amount ccy =
     bindE (validated_currency ccy) (\<lambda>code.
     bindE (validated_amount text_decimal float_text amount) (\<lambda>q.
     Inr \<lparr>cents = q, currency = code\<rparr>))"

text \<open>The constructor on a decimal amount, as the arithmetic and the columns call it.\<close>

definition money_of_decimal :: "pydecimal \<Rightarrow> pyval \<Rightarrow> money res" where
  "money_of_decimal d ccy =
     bindE (validated_currency ccy) (\<lambda>code.
     bindE (accepted_amount d) (\<lambda>q. Inr \<lparr>cents = q, currency = code\<rparr>))"

definition money_zero :: "string \<Rightarrow> money res" where
  "money_zero ccy = money_of_decimal (DFin False 0 0) (PStr ccy)"

text \<open>
  \<open>from_columns\<close>: both columns \<open>NULL\<close> is no amount. An amount \<open>NULL\<close> alone, or a
  currency \<open>NULL\<close> alone, reaches the constructor and is refused there.
\<close>

definition money_from_columns :: "pydecimal option \<Rightarrow> string option \<Rightarrow> money option res" where
  "money_from_columns amount ccy =
     (if amount = None \<and> ccy = None then Inr None
      else
        bindE (validated_currency (case ccy of None \<Rightarrow> PNone | Some c \<Rightarrow> PStr c)) (\<lambda>code.
        bindE (case amount of None \<Rightarrow> Inl (customs_exc InvalidMoneyError)
                 | Some d \<Rightarrow> accepted_amount d) (\<lambda>q.
        Inr (Some \<lparr>cents = q, currency = code\<rparr>))))"

definition amount_of :: "money \<Rightarrow> pydecimal" where
  "amount_of m = DFin False (cents m) (- 2)"

section \<open>Arithmetic\<close>

definition same_currency :: "money \<Rightarrow> money \<Rightarrow> unit res" where
  "same_currency a b =
     (if currency a \<noteq> currency b then Inl (customs_exc CurrencyMismatchError) else Inr ())"

definition rounded :: "bool \<Rightarrow> nat \<Rightarrow> int \<Rightarrow> pydecimal" where
  "rounded s c e = (let (c', e') = context_round (c, e) in DFin s c' e')"

definition money_add :: "money \<Rightarrow> money \<Rightarrow> money res" where
  "money_add a b =
     bindE (same_currency a b) (\<lambda>_.
     money_of_decimal (rounded False (cents a + cents b) (- 2)) (PStr (currency a)))"

definition money_subtract :: "money \<Rightarrow> money \<Rightarrow> money res" where
  "money_subtract a b =
     bindE (same_currency a b) (\<lambda>_.
     money_of_decimal
       (if cents b \<le> cents a then rounded False (cents a - cents b) (- 2)
        else rounded True (cents b - cents a) (- 2)) (PStr (currency a)))"

definition money_covers :: "money \<Rightarrow> money \<Rightarrow> bool res" where
  "money_covers a b = bindE (same_currency a b) (\<lambda>_. Inr (cents b \<le> cents a))"

text \<open>
  The product and the quotient are rounded to the context; dividing by one hundred lowers
  the exponent. A product of zero and an infinity is \<open>InvalidOperation\<close>.
\<close>

definition money_percentage :: "money \<Rightarrow> pydecimal \<Rightarrow> money res" where
  "money_percentage m percent =
     (case percent of
        DNaN \<Rightarrow> money_of_decimal DNaN (PStr (currency m))
      | DInf s \<Rightarrow> if cents m = 0 then Inl (PyError ''InvalidOperation'')
                  else money_of_decimal (DInf s) (PStr (currency m))
      | DFin s c e \<Rightarrow>
          (let (c', e') = context_round (cents m * c, e - 2)
           in money_of_decimal (DFin s c' (e' - 2)) (PStr (currency m))))"

text \<open>\<open>str\<close>: \<open>123.45 EUR\<close>.\<close>

definition str_money :: "money \<Rightarrow> string" where
  "str_money m =
     show_nat (cents m div 100) @ ''.'' @ low_digits 10 2 (cents m mod 100) @ '' '' @ currency m"

section \<open>Well-formed amounts\<close>

definition wf_money :: "money \<Rightarrow> bool" where
  "wf_money m \<longleftrightarrow> cents m < 10 ^ decimal_prec
     \<and> length (currency m) = CURRENCY_CODE_LENGTH \<and> isalpha (currency m) \<and> upper (strip (currency m)) = currency m"

lemma quantize_cents_Inr:
  "quantize_cents c e = Inr q \<longleftrightarrow> q = cents_of c e \<and> cents_of c e < 10 ^ decimal_prec"
  by (auto simp: quantize_cents_def Let_def)

lemma cents_of_cents [simp]: "cents_of q (- 2) = q"
  by (simp add: cents_of_def)

lemma validated_currency_Inr:
  "validated_currency v = Inr code \<longleftrightarrow>
   (\<exists>s. v = PStr s \<and> code = upper (strip s) \<and> length code = CURRENCY_CODE_LENGTH \<and> isalpha code)"
  by (auto simp: validated_currency_def Let_def split: pyval.splits)

lemma accepted_amount_Inr:
  "accepted_amount d = Inr q \<longleftrightarrow>
   (\<exists>s c e. d = DFin s c e \<and> (s \<longrightarrow> c = 0) \<and> q = cents_of c e \<and> q < 10 ^ decimal_prec)"
  by (auto simp: accepted_amount_def quantize_cents_Inr split: pydecimal.splits)

lemma mk_money_wf: "mk_money td ft a c = Inr m \<Longrightarrow> wf_money m"
  by (auto simp: mk_money_def bindE_Inr_iff validated_currency_Inr validated_amount_def
      accepted_amount_Inr wf_money_def py_str split: option.splits)

lemma money_of_decimal_wf: "money_of_decimal d c = Inr m \<Longrightarrow> wf_money m"
  by (auto simp: money_of_decimal_def bindE_Inr_iff validated_currency_Inr accepted_amount_Inr
      wf_money_def py_str)

text \<open>Rebuilding from the columns, and constructing again, changes nothing.\<close>

lemma money_of_wf: "wf_money m \<Longrightarrow> money_of_decimal (amount_of m) (PStr (currency m)) = Inr m"
  by (cases m) (simp add: money_of_decimal_def amount_of_def wf_money_def validated_currency_def
      accepted_amount_def quantize_cents_def Let_def)

lemma money_columns_of_wf:
  "wf_money m \<Longrightarrow> money_from_columns (Some (amount_of m)) (Some (currency m)) = Inr (Some m)"
  by (cases m) (simp add: money_from_columns_def amount_of_def wf_money_def validated_currency_def
      accepted_amount_def quantize_cents_def Let_def)

text \<open>Rounding half-up: the amount is within half a cent, ties go up.\<close>

lemma half_up_bounds: "0 < d \<Longrightarrow> 2 * n < (2 * half_up n d + 1) * d \<and> (2 * half_up n d) * d \<le> 2 * n + d"
proof -
  assume d: "0 < d"
  have e: "2 * n + d = half_up n d * (2 * d) + (2 * n + d) mod (2 * d)"
    unfolding half_up_def by (rule div_mult_mod_eq [symmetric])
  have "(2 * n + d) mod (2 * d) < 2 * d" using d by simp
  then show ?thesis using e by (simp add: algebra_simps)
qed

lemma context_round_id: "c < 10 ^ decimal_prec \<Longrightarrow> context_round (c, e) = (c, e)"
proof -
  assume c: "c < 10 ^ decimal_prec"
  have "digits10 c \<le> decimal_prec" using c show_nat_length_le by (simp add: digits10_def decimal_prec_def)
  then show ?thesis using c by (simp add: context_round_def)
qed

lemma wf_money_currency: "wf_money m \<Longrightarrow> validated_currency (PStr (currency m)) = Inr (currency m)"
  by (simp add: wf_money_def validated_currency_def Let_def)

lemma money_of_cents:
  "wf_money m \<Longrightarrow> q < 10 ^ decimal_prec \<Longrightarrow>
   money_of_decimal (DFin False q (- 2)) (PStr (currency m)) = Inr \<lparr>cents = q, currency = currency m\<rparr>"
  by (simp add: money_of_decimal_def wf_money_currency accepted_amount_def quantize_cents_def Let_def)

lemma rounded_id: "q < 10 ^ decimal_prec \<Longrightarrow> rounded s q e = DFin s q e"
  by (simp add: rounded_def context_round_id)

text \<open>A sum of 29 digits loses its last one and can no longer be quantized.\<close>

lemma rounded_overflow:
  assumes "10 ^ 28 \<le> c" "c < 2 * 10 ^ 28"
  shows "accepted_amount (rounded False c (- 2)) = Inl (PyError ''InvalidOperation'')"
proof -
  have "digits10 c \<le> 29" using show_nat_length_le [of 29 c] assms(2) by (simp add: digits10_def)
  moreover have "28 < digits10 c" using show_nat_length [of 28 c] assms(1) by (simp add: digits10_def)
  ultimately have k: "digits10 c - decimal_prec = 1" by (simp add: decimal_prec_def)
  obtain q where q: "q = round_half_even c 10" by blast
  have lo: "10 ^ 27 \<le> q" and hi: "q < 10 ^ 28"
    using assms by (auto simp: q round_half_even_def Let_def)
  have "rounded False c (- 2) = DFin False q (- 1)"
    using hi k by (simp add: rounded_def context_round_def Let_def q decimal_prec_def)
  moreover have "cents_of q (- 1) = q * 10" by (simp add: cents_of_def)
  ultimately show ?thesis
    using lo by (simp add: accepted_amount_def quantize_cents_def Let_def decimal_prec_def)
qed

lemma money_add_total:
  assumes "wf_money a" "wf_money b"
  shows "money_add a b =
    (if currency a \<noteq> currency b then Inl (customs_exc CurrencyMismatchError)
     else if cents a + cents b < 10 ^ decimal_prec
     then Inr \<lparr>cents = cents a + cents b, currency = currency a\<rparr>
     else Inl (PyError ''InvalidOperation''))"
proof (cases "cents a + cents b < 10 ^ decimal_prec")
  case True
  then show ?thesis using assms(1)
    by (simp add: money_add_def same_currency_def rounded_id money_of_cents)
next
  case False
  have "accepted_amount (rounded False (cents a + cents b) (- 2)) = Inl (PyError ''InvalidOperation'')"
    using assms False by (intro rounded_overflow) (simp_all add: wf_money_def decimal_prec_def)
  then show ?thesis using False assms(1)
    by (simp add: money_add_def same_currency_def money_of_decimal_def wf_money_currency)
qed

lemma money_subtract_total:
  assumes "wf_money a" "wf_money b"
  shows "money_subtract a b =
    (if currency a \<noteq> currency b then Inl (customs_exc CurrencyMismatchError)
     else if cents b \<le> cents a then Inr \<lparr>cents = cents a - cents b, currency = currency a\<rparr>
     else Inl (customs_exc InvalidMoneyError))"
proof -
  have a: "cents a < 10 ^ decimal_prec" and b: "cents b < 10 ^ decimal_prec"
    using assms by (simp_all add: wf_money_def)
  then have "cents a - cents b < 10 ^ decimal_prec" "cents b - cents a < 10 ^ decimal_prec" by simp_all
  then show ?thesis using assms(1)
    by (auto simp: money_subtract_def same_currency_def rounded_id money_of_cents
        money_of_decimal_def wf_money_currency accepted_amount_def quantize_cents_def)
qed

section \<open>Properties\<close>

lemma floor_half_up: "0 < d \<Longrightarrow> \<lfloor>(of_nat n :: rat) / of_nat d + 1 / 2\<rfloor> = int (half_up n d)"
proof -
  assume d: "0 < d"
  have "(of_nat n :: rat) / of_nat d + 1 / 2 = of_nat (2 * n + d) / of_nat (2 * d)"
    using d by (simp add: field_simps)
  then show ?thesis by (simp only: floor_divide_of_nat_eq half_up_def)
qed

lemma cents_of_half_up: "\<lfloor>(of_nat c :: rat) * 10 powi (e + 2) + 1 / 2\<rfloor> = int (cents_of c e)"
proof (cases "- 2 \<le> e")
  case True
  then have "(of_nat c :: rat) * 10 powi (e + 2) = of_nat (cents_of c e)"
    by (simp add: cents_of_def power_int_def)
  moreover have "\<lfloor>(of_nat k :: rat) + 1 / 2\<rfloor> = int k" for k
    by (rule floor_unique) auto
  ultimately show ?thesis by (simp only:)
next
  case False
  define k where "k = nat (- e - 2)"
  have e: "e + 2 = - int k" using False by (simp add: k_def)
  have "(of_nat c :: rat) * 10 powi (e + 2) = of_nat c / of_nat (10 ^ k)"
    unfolding e power_int_minus power_int_of_nat by (simp add: divide_inverse)
  then show ?thesis using False floor_half_up [of "10 ^ k" c]
    by (simp only: cents_of_def k_def if_False zero_less_power zero_less_numeral)
qed

text \<open>
  C31. An accepted amount is the decimal rounded half-up to cents, with no float in between;
  a negative amount is refused as \<open>InvalidMoneyError\<close>, and a result of more than 28 digits
  escapes as \<open>InvalidOperation\<close>.
\<close>

theorem amount_rounds_half_up:
  "accepted_amount (DFin s c e) =
   (let q = nat \<lfloor>(of_nat c :: rat) * 10 powi (e + 2) + 1 / 2\<rfloor>
    in if s \<and> c \<noteq> 0 then Inl (customs_exc InvalidMoneyError)
       else if 10 ^ 28 \<le> q then Inl (PyError ''InvalidOperation'') else Inr q)"
  unfolding cents_of_half_up by (simp add: accepted_amount_def quantize_cents_def decimal_prec_def Let_def)

text \<open>
  Arithmetic on amounts of one currency is exact: a sum is the sum of the cents while it
  fits 28 digits, a difference is refused when it would be negative, and subtracting what was
  added gives the amount back. Amounts of different currencies never mix.
\<close>

theorem money_arithmetic:
  assumes "wf_money a" "wf_money b"
  shows "if currency a \<noteq> currency b
    then money_add a b = Inl (customs_exc CurrencyMismatchError)
      \<and> money_subtract a b = Inl (customs_exc CurrencyMismatchError)
      \<and> money_covers a b = Inl (customs_exc CurrencyMismatchError)
    else money_covers a b = Inr (cents b \<le> cents a)
      \<and> (money_subtract a b = (if cents b \<le> cents a then Inr (a\<lparr>cents := cents a - cents b\<rparr>)
                               else Inl (customs_exc InvalidMoneyError)))
      \<and> (if cents a + cents b < 10 ^ 28
         then money_add a b = Inr (a\<lparr>cents := cents a + cents b\<rparr>)
           \<and> bindE (money_add a b) (\<lambda>s. money_subtract s b) = Inr a
         else money_add a b = Inl (PyError ''InvalidOperation''))"
proof -
  have s: "wf_money (a\<lparr>cents := cents a + cents b\<rparr>)" if "cents a + cents b < 10 ^ 28"
    using assms that by (simp add: wf_money_def decimal_prec_def)
  have eq: "a\<lparr>cents := k\<rparr> = \<lparr>cents = k, currency = currency a\<rparr>" for k
    by (cases a) simp
  show ?thesis
    using money_add_total [OF assms] money_subtract_total [OF assms] money_subtract_total [OF s assms(2)]
    by (auto simp: money_covers_def same_currency_def decimal_prec_def eq)
qed

lemma money_arithmetic_witness:
  "money_subtract \<lparr>cents = 1050, currency = ''EUR''\<rparr> \<lparr>cents = 50, currency = ''EUR''\<rparr>
     = Inr \<lparr>cents = 1000, currency = ''EUR''\<rparr>"
proof -
  have "isalpha ''EUR''" "upper (strip ''EUR'') = ''EUR''" by code_simp+
  then have "wf_money \<lparr>cents = 1050, currency = ''EUR''\<rparr>" "wf_money \<lparr>cents = 50, currency = ''EUR''\<rparr>"
    by (simp_all add: wf_money_def decimal_prec_def CURRENCY_CODE_LENGTH_def)
  from money_arithmetic [OF this] show ?thesis by simp
qed

end
