(* ===== verification/Clearance_Case.thy ===== *)
theory Clearance_Case
  imports Money Bus_Messages
begin

text \<open>
  The ClearanceCase aggregate of the Customs module
  (\<open>modules/customs_clearance/src/domain\<close>): identifier, document registry item, status,
  the operations \<open>open_for_shipment\<close>, \<open>attach_document\<close> and \<open>verify_document\<close>, the
  invariant they keep and the history of a case.
\<close>

section \<open>Identifier and enumerations\<close>

datatype case_id = CaseId (cid_value: uuid)

definition mk_case_id :: "pyval \<Rightarrow> case_id res" where
  "mk_case_id raw =
     (case raw of
        PUuid u \<Rightarrow> Inr (CaseId u)
      | PStr s \<Rightarrow> (case parse_uuid s of
                     None \<Rightarrow> Inl (customs_exc InvalidCaseIdError)
                   | Some u \<Rightarrow> Inr (CaseId u))
      | _ \<Rightarrow> Inl (customs_exc InvalidCaseIdError))"

definition str_case_id :: "case_id \<Rightarrow> string" where
  "str_case_id i = show_uuid (cid_value i)"

lemma mk_str_case_id [simp]: "mk_case_id (PStr (str_case_id i)) = Inr i"
  by (simp add: mk_case_id_def str_case_id_def parse_show_uuid)

lemma mk_case_id_error: "mk_case_id raw = Inl e \<Longrightarrow> e = customs_exc InvalidCaseIdError"
  by (auto simp: mk_case_id_def split: pyval.splits option.splits)

datatype document_type = COMMERCIAL_INVOICE | BILL_OF_LADING

fun document_type_value :: "document_type \<Rightarrow> string" where
  "document_type_value COMMERCIAL_INVOICE = ''COMMERCIAL_INVOICE''"
| "document_type_value BILL_OF_LADING = ''BILL_OF_LADING''"

definition all_document_types :: "document_type list" where
  "all_document_types = [COMMERCIAL_INVOICE, BILL_OF_LADING]"

text \<open>\<open>DocumentType(value)\<close>.\<close>

definition document_type_of :: "string \<Rightarrow> document_type option" where
  "document_type_of v = find (\<lambda>t. document_type_value t = v) all_document_types"

lemma document_type_of_value [simp]: "document_type_of (document_type_value t) = Some t"
  by (cases t) (simp_all add: document_type_of_def all_document_types_def)

lemma document_type_complete: "t \<in> set all_document_types"
  by (cases t) (simp_all add: all_document_types_def)

datatype assessment_status =
    OPENED
  | DOCUMENT_VERIFICATION
  | RISK_ASSESSMENT
  | DUTY_PAYMENT_PENDING
  | RELEASED
  | REJECTED

fun assessment_status_value :: "assessment_status \<Rightarrow> string" where
  "assessment_status_value OPENED = ''Opened''"
| "assessment_status_value DOCUMENT_VERIFICATION = ''DocumentVerification''"
| "assessment_status_value RISK_ASSESSMENT = ''RiskAssessment''"
| "assessment_status_value DUTY_PAYMENT_PENDING = ''DutyPaymentPending''"
| "assessment_status_value RELEASED = ''Released''"
| "assessment_status_value REJECTED = ''Rejected''"

definition all_assessment_statuses :: "assessment_status list" where
  "all_assessment_statuses =
     [OPENED, DOCUMENT_VERIFICATION, RISK_ASSESSMENT, DUTY_PAYMENT_PENDING, RELEASED, REJECTED]"

definition assessment_status_of :: "string \<Rightarrow> assessment_status option" where
  "assessment_status_of v = find (\<lambda>s. assessment_status_value s = v) all_assessment_statuses"

lemma assessment_status_of_value [simp]: "assessment_status_of (assessment_status_value s) = Some s"
  by (cases s) (simp_all add: assessment_status_of_def all_assessment_statuses_def)

lemma assessment_status_complete: "s \<in> set all_assessment_statuses"
  by (cases s) (simp_all add: all_assessment_statuses_def)

text \<open>The regulatory order of the statuses, as the enumeration lists them.\<close>

fun stage :: "assessment_status \<Rightarrow> nat" where
  "stage OPENED = 0"
| "stage DOCUMENT_VERIFICATION = 1"
| "stage RISK_ASSESSMENT = 2"
| "stage DUTY_PAYMENT_PENDING = 3"
| "stage RELEASED = 4"
| "stage REJECTED = 5"

lemma stage_inj: "stage a = stage b \<longleftrightarrow> a = b"
  by (cases a; cases b) simp_all

instantiation assessment_status :: linorder
begin

definition less_eq_assessment_status :: "assessment_status \<Rightarrow> assessment_status \<Rightarrow> bool" where
  "less_eq_assessment_status a b \<longleftrightarrow> stage a \<le> stage b"

definition less_assessment_status :: "assessment_status \<Rightarrow> assessment_status \<Rightarrow> bool" where
  "less_assessment_status a b \<longleftrightarrow> stage a < stage b"

instance
  by standard (auto simp: less_eq_assessment_status_def less_assessment_status_def stage_inj)

end

definition DECIDED_STATUSES :: "assessment_status set" where
  "DECIDED_STATUSES = {RELEASED, REJECTED}"

definition REQUIRED_DOCUMENT_TYPES :: "document_type set" where
  "REQUIRED_DOCUMENT_TYPES = set all_document_types"

section \<open>Documents\<close>

definition MAX_INSPECTOR_ID_LENGTH :: nat where
  "MAX_INSPECTOR_ID_LENGTH = 128"

record document_registry_item =
  doc_id :: uuid
  doc_type :: document_type
  doc_file_uuid :: uuid
  doc_is_verified :: bool
  doc_inspector :: "string option"

text \<open>The argument is a \<open>DocumentType\<close> or anything else.\<close>

definition validated_type :: "document_type + pyval \<Rightarrow> document_type res" where
  "validated_type value =
     (case value of
        Inl t \<Rightarrow> Inr t
      | Inr (PStr s) \<Rightarrow> (case document_type_of (upper (strip s)) of
                           Some t \<Rightarrow> Inr t
                         | None \<Rightarrow> Inl (customs_exc InvalidDocumentReferenceError))
      | Inr _ \<Rightarrow> Inl (customs_exc InvalidDocumentReferenceError))"

definition validated_file_uuid :: "pyval \<Rightarrow> uuid res" where
  "validated_file_uuid value =
     (case value of
        PUuid u \<Rightarrow> Inr u
      | PStr s \<Rightarrow> (case parse_uuid (strip s) of
                     Some u \<Rightarrow> Inr u
                   | None \<Rightarrow> Inl (customs_exc InvalidDocumentReferenceError))
      | _ \<Rightarrow> Inl (customs_exc InvalidDocumentReferenceError))"

definition validated_inspector_id :: "pyval \<Rightarrow> string res" where
  "validated_inspector_id value =
     (case value of
        PStr s \<Rightarrow>
          (let inspector_id = strip s in
           if inspector_id = [] then Inl (customs_exc InvalidInspectorError)
           else if length inspector_id > MAX_INSPECTOR_ID_LENGTH
           then Inl (customs_exc InvalidInspectorError)
           else Inr inspector_id)
      | _ \<Rightarrow> Inl (customs_exc InvalidInspectorError))"

text \<open>\<open>DocumentRegistryItem.attach\<close>; \<open>fresh\<close> is \<open>uuid4()\<close>.\<close>

definition attach_item :: "uuid \<Rightarrow> document_type + pyval \<Rightarrow> pyval \<Rightarrow> document_registry_item res" where
  "attach_item fresh ty file_uuid =
     bindE (validated_type ty) (\<lambda>t.
     bindE (validated_file_uuid file_uuid) (\<lambda>f.
     Inr \<lparr>doc_id = fresh, doc_type = t, doc_file_uuid = f, doc_is_verified = False,
          doc_inspector = None\<rparr>))"

definition verify_item :: "pyval \<Rightarrow> document_registry_item \<Rightarrow> document_registry_item res" where
  "verify_item inspector_id d =
     (if doc_is_verified d then Inl (customs_exc DocumentAlreadyVerifiedError)
      else bindE (validated_inspector_id inspector_id) (\<lambda>i.
           Inr (d\<lparr>doc_inspector := Some i, doc_is_verified := True\<rparr>)))"

text \<open>An item: an inspector is recorded exactly when it is verified.\<close>

definition wf_item :: "document_registry_item \<Rightarrow> bool" where
  "wf_item d \<longleftrightarrow>
     (case doc_inspector d of
        None \<Rightarrow> \<not> doc_is_verified d
      | Some i \<Rightarrow> doc_is_verified d \<and> i \<noteq> [] \<and> strip i = i \<and> length i \<le> MAX_INSPECTOR_ID_LENGTH)"

lemma validated_inspector_id_Inr:
  "validated_inspector_id v = Inr i \<longleftrightarrow>
   (\<exists>s. v = PStr s \<and> i = strip s \<and> i \<noteq> [] \<and> length i \<le> MAX_INSPECTOR_ID_LENGTH)"
  by (auto simp: validated_inspector_id_def Let_def split: pyval.splits)

lemma validated_inspector_id_Inl:
  "validated_inspector_id v = Inl e \<Longrightarrow> e = customs_exc InvalidInspectorError"
  by (auto simp: validated_inspector_id_def Let_def split: pyval.splits if_splits)

lemma attach_item_Inr:
  "attach_item fresh ty f = Inr d \<longleftrightarrow>
   (\<exists>t u. validated_type ty = Inr t \<and> validated_file_uuid f = Inr u
     \<and> d = \<lparr>doc_id = fresh, doc_type = t, doc_file_uuid = u, doc_is_verified = False, doc_inspector = None\<rparr>)"
  by (auto simp: attach_item_def bindE_Inr_iff)

lemma attach_item_Inl: "attach_item fresh ty f = Inl e \<Longrightarrow> e = customs_exc InvalidDocumentReferenceError"
  by (auto simp: attach_item_def bindE_Inl_iff validated_type_def validated_file_uuid_def
      split: sum.splits pyval.splits option.splits)

lemma verify_item_Inr:
  "verify_item i d = Inr d' \<longleftrightarrow>
   \<not> doc_is_verified d \<and> (\<exists>n. validated_inspector_id i = Inr n
     \<and> d' = d\<lparr>doc_inspector := Some n, doc_is_verified := True\<rparr>)"
  by (auto simp: verify_item_def bindE_Inr_iff)

lemma verify_item_Inl:
  "verify_item i d = Inl e \<Longrightarrow>
   e \<in> {customs_exc DocumentAlreadyVerifiedError, customs_exc InvalidInspectorError}"
  by (auto simp: verify_item_def bindE_Inl_iff dest: validated_inspector_id_Inl split: if_splits)

lemma attach_item_wf: "attach_item fresh ty f = Inr d \<Longrightarrow> wf_item d \<and> \<not> doc_is_verified d \<and> doc_id d = fresh"
  by (auto simp: attach_item_Inr wf_item_def)

lemma verify_item_wf: "verify_item i d = Inr d' \<Longrightarrow> wf_item d'"
  by (auto simp: verify_item_Inr wf_item_def validated_inspector_id_Inr py_str)

section \<open>The aggregate\<close>

record clearance_case =
  cc_id :: case_id
  cc_shipment_id :: string
  cc_status :: assessment_status
  cc_declaration_value :: "money option"
  cc_duty_fee :: "money option"
  cc_documents :: "document_registry_item list"

definition DocumentVerificationCompleted :: message_class where
  "DocumentVerificationCompleted =
     init_message_class ''DocumentVerificationCompleted'' [] [''case_id'', ''shipment_id'']"

definition validated_shipment_id :: "pyval \<Rightarrow> string res" where
  "validated_shipment_id value =
     (case value of
        PStr s \<Rightarrow> (let reference = strip s in
                   if reference = [] then Inl (customs_exc InvalidShipmentReferenceError)
                   else Inr reference)
      | _ \<Rightarrow> Inl (customs_exc InvalidShipmentReferenceError))"

definition open_for_shipment :: "case_id \<Rightarrow> pyval \<Rightarrow> clearance_case res" where
  "open_for_shipment i shipment_id =
     bindE (validated_shipment_id shipment_id) (\<lambda>ref.
     Inr \<lparr>cc_id = i, cc_shipment_id = ref, cc_status = OPENED, cc_declaration_value = None,
          cc_duty_fee = None, cc_documents = []\<rparr>)"

definition has_complete_paperwork :: "clearance_case \<Rightarrow> bool" where
  "has_complete_paperwork c \<longleftrightarrow>
     (let cleared_types = set (map doc_type (filter doc_is_verified (cc_documents c)))
      in REQUIRED_DOCUMENT_TYPES \<subseteq> cleared_types)"

definition holds_file :: "uuid \<Rightarrow> clearance_case \<Rightarrow> bool" where
  "holds_file f c = list_ex (\<lambda>d. doc_file_uuid d = f) (cc_documents c)"

definition find_document :: "uuid \<Rightarrow> clearance_case \<Rightarrow> document_registry_item option" where
  "find_document i c = find (\<lambda>d. doc_id d = i) (cc_documents c)"

definition attach_document ::
  "uuid \<Rightarrow> document_type + pyval \<Rightarrow> pyval \<Rightarrow> clearance_case \<Rightarrow> (clearance_case \<times> document_registry_item) res" where
  "attach_document fresh ty file_uuid c =
     (if cc_status c \<in> DECIDED_STATUSES then Inl (customs_exc DocumentsNotAttachableError)
      else
        bindE (attach_item fresh ty file_uuid) (\<lambda>document.
        if holds_file (doc_file_uuid document) c then Inl (customs_exc DocumentAlreadyAttachedError)
        else
          (let c' = c\<lparr>cc_documents := cc_documents c @ [document]\<rparr>
           in Inr (if cc_status c = OPENED then c'\<lparr>cc_status := DOCUMENT_VERIFICATION\<rparr> else c', document))))"

text \<open>The document found is changed in place: the first one with the identifier.\<close>

fun update_first :: "('a \<Rightarrow> bool) \<Rightarrow> 'a \<Rightarrow> 'a list \<Rightarrow> 'a list" where
  "update_first P y [] = []"
| "update_first P y (x # xs) = (if P x then y # xs else x # update_first P y xs)"

definition verify_document ::
  "uuid \<Rightarrow> pyval \<Rightarrow> clearance_case \<Rightarrow> (clearance_case \<times> integration_message option) res" where
  "verify_document document_id inspector_id c =
     (if cc_status c \<in> DECIDED_STATUSES then Inl (customs_exc DocumentNotVerifiableError)
      else
        (case find_document document_id c of
           None \<Rightarrow> Inl (customs_exc DocumentNotFoundError)
         | Some document \<Rightarrow>
             bindE (verify_item inspector_id document) (\<lambda>cleared.
             let c' = c\<lparr>cc_documents := update_first (\<lambda>d. doc_id d = document_id) cleared (cc_documents c)\<rparr>
             in if cc_status c' \<noteq> DOCUMENT_VERIFICATION then Inr (c', None)
                else if \<not> has_complete_paperwork c' then Inr (c', None)
                else
                  bindE (new_message DocumentVerificationCompleted
                           [PStr (str_case_id (cc_id c')), PStr (cc_shipment_id c')]) (\<lambda>event.
                  Inr (c'\<lparr>cc_status := RISK_ASSESSMENT\<rparr>, Some event)))))"

definition completed_event :: "clearance_case \<Rightarrow> integration_message" where
  "completed_event c =
     \<lparr>msg_class = DocumentVerificationCompleted,
      msg_fields = [(''case_id'', PStr (str_case_id (cc_id c))), (''shipment_id'', PStr (cc_shipment_id c))]\<rparr>"

lemma new_completed_event:
  "new_message DocumentVerificationCompleted [PStr (str_case_id (cc_id c)), PStr (cc_shipment_id c)]
   = Inr (completed_event c)"
  by (simp add: new_message_def DocumentVerificationCompleted_def init_message_class_def completed_event_def)

section \<open>The invariant\<close>

definition case_inv :: "clearance_case \<Rightarrow> bool" where
  "case_inv c \<longleftrightarrow>
     cc_shipment_id c \<noteq> [] \<and> strip (cc_shipment_id c) = cc_shipment_id c
     \<and> list_all wf_item (cc_documents c)
     \<and> distinct (map doc_file_uuid (cc_documents c))
     \<and> (cc_status c = OPENED \<longleftrightarrow> cc_documents c = [])
     \<and> (cc_status c = DOCUMENT_VERIFICATION \<longrightarrow> \<not> has_complete_paperwork c)
     \<and> (cc_status c = RISK_ASSESSMENT \<longrightarrow> has_complete_paperwork c)"

lemma attach_document_Inr:
  "attach_document fresh ty f c = Inr (c', d) \<longleftrightarrow>
   cc_status c \<notin> DECIDED_STATUSES \<and> attach_item fresh ty f = Inr d \<and> \<not> holds_file (doc_file_uuid d) c
   \<and> c' = c\<lparr>cc_documents := cc_documents c @ [d],
            cc_status := (if cc_status c = OPENED then DOCUMENT_VERIFICATION else cc_status c)\<rparr>"
  by (auto simp: attach_document_def bindE_Inr_iff Let_def)

lemma attach_document_Inl:
  "attach_document fresh ty f c = Inl e \<longleftrightarrow>
   (cc_status c \<in> DECIDED_STATUSES \<and> e = customs_exc DocumentsNotAttachableError)
   \<or> (cc_status c \<notin> DECIDED_STATUSES \<and>
      (attach_item fresh ty f = Inl e
       \<or> (\<exists>d. attach_item fresh ty f = Inr d \<and> holds_file (doc_file_uuid d) c
             \<and> e = customs_exc DocumentAlreadyAttachedError)))"
  by (auto simp: attach_document_def bindE_Inl_iff Let_def)

lemma find_document_Some:
  "find_document i c = Some d \<Longrightarrow> d \<in> set (cc_documents c) \<and> doc_id d = i"
  by (auto simp: find_document_def find_Some_iff)

definition with_document :: "uuid \<Rightarrow> document_registry_item \<Rightarrow> clearance_case \<Rightarrow> clearance_case" where
  "with_document i d c = c\<lparr>cc_documents := update_first (\<lambda>x. doc_id x = i) d (cc_documents c)\<rparr>"

lemma completed_event_documents [simp]: "completed_event (c\<lparr>cc_documents := ds\<rparr>) = completed_event c"
  by (simp add: completed_event_def)

lemma verify_document_found:
  assumes "cc_status c \<notin> DECIDED_STATUSES" "find_document i c = Some d" "verify_item n d = Inr d'"
  shows "verify_document i n c =
    (if cc_status c = DOCUMENT_VERIFICATION \<and> has_complete_paperwork (with_document i d' c)
     then Inr ((with_document i d' c)\<lparr>cc_status := RISK_ASSESSMENT\<rparr>, Some (completed_event c))
     else Inr (with_document i d' c, None))"
  using assms
  by (simp add: verify_document_def with_document_def [symmetric] Let_def new_completed_event)
    (simp add: with_document_def)

lemma verify_document_Inr:
  "verify_document i n c = Inr (c', ev) \<longleftrightarrow>
   cc_status c \<notin> DECIDED_STATUSES \<and> (\<exists>d d'. find_document i c = Some d \<and> verify_item n d = Inr d'
     \<and> (if cc_status c = DOCUMENT_VERIFICATION \<and> has_complete_paperwork (with_document i d' c)
        then c' = (with_document i d' c)\<lparr>cc_status := RISK_ASSESSMENT\<rparr> \<and> ev = Some (completed_event c)
        else c' = with_document i d' c \<and> ev = None))"
proof (cases "cc_status c \<in> DECIDED_STATUSES")
  case True
  then show ?thesis by (simp add: verify_document_def)
next
  case open_case: False
  show ?thesis
  proof (cases "find_document i c")
    case None
    then show ?thesis using open_case by (simp add: verify_document_def)
  next
    case (Some d)
    show ?thesis
    proof (cases "verify_item n d")
      case (Inl e)
      then show ?thesis using open_case Some by (simp add: verify_document_def)
    next
      case (Inr d')
      show ?thesis using open_case Some Inr
        by (simp add: verify_document_found [OF open_case Some Inr]) metis
    qed
  qed
qed

lemma verify_document_Inl:
  "verify_document i n c = Inl e \<longleftrightarrow>
   (cc_status c \<in> DECIDED_STATUSES \<and> e = customs_exc DocumentNotVerifiableError)
   \<or> (cc_status c \<notin> DECIDED_STATUSES \<and>
      ((find_document i c = None \<and> e = customs_exc DocumentNotFoundError)
       \<or> (\<exists>d. find_document i c = Some d \<and> verify_item n d = Inl e)))"
  by (auto simp: verify_document_def bindE_Inl_iff Let_def new_completed_event split: option.splits)

lemma map_update_first:
  "find P xs = Some x \<Longrightarrow> f y = f x \<Longrightarrow> map f (update_first P y xs) = map f xs"
  by (induction xs) (auto split: if_splits)

lemma set_update_first: "set (update_first P y xs) \<subseteq> insert y (set xs)"
  by (induction xs) auto

lemma length_update_first [simp]: "length (update_first P y xs) = length xs"
  by (induction xs) auto

lemma update_first_find:
  "find P xs = Some x \<Longrightarrow> P y \<Longrightarrow> find P (update_first P y xs) = Some y"
  by (induction xs) (auto split: if_splits)

lemma verify_item_keeps:
  "verify_item n d = Inr d' \<Longrightarrow> doc_id d' = doc_id d \<and> doc_type d' = doc_type d \<and> doc_file_uuid d' = doc_file_uuid d"
  by (auto simp: verify_item_Inr)

lemma with_document_files:
  assumes "find_document i c = Some d" "verify_item n d = Inr d'"
  shows "map doc_file_uuid (cc_documents (with_document i d' c)) = map doc_file_uuid (cc_documents c)"
  using assms verify_item_keeps [OF assms(2)]
  by (simp add: with_document_def find_document_def map_update_first)

lemma open_for_shipment_inv: "open_for_shipment i v = Inr c \<Longrightarrow> case_inv c \<and> cc_id c = i \<and> cc_status c = OPENED"
  by (auto simp: open_for_shipment_def bindE_Inr_iff validated_shipment_id_def Let_def case_inv_def py_str
      split: pyval.splits if_splits)

lemma paperwork_snoc_unverified:
  "\<not> doc_is_verified d \<Longrightarrow>
   has_complete_paperwork (c\<lparr>cc_documents := cc_documents c @ [d], cc_status := st\<rparr>) = has_complete_paperwork c"
  by (simp add: has_complete_paperwork_def)

lemma paperwork_status [simp]: "has_complete_paperwork (c\<lparr>cc_status := st\<rparr>) = has_complete_paperwork c"
  by (simp add: has_complete_paperwork_def)

lemma no_documents_incomplete: "cc_documents c = [] \<Longrightarrow> \<not> has_complete_paperwork c"
  by (simp add: has_complete_paperwork_def REQUIRED_DOCUMENT_TYPES_def all_document_types_def)

lemma attach_document_inv:
  assumes "attach_document fresh ty f c = Inr (c', d)" "case_inv c"
  shows "case_inv c'"
proof -
  have d: "wf_item d" "\<not> doc_is_verified d" and nf: "\<not> holds_file (doc_file_uuid d) c"
    and c': "c' = c\<lparr>cc_documents := cc_documents c @ [d],
       cc_status := (if cc_status c = OPENED then DOCUMENT_VERIFICATION else cc_status c)\<rparr>"
    using assms(1) attach_item_wf by (auto simp: attach_document_Inr)
  have "has_complete_paperwork c' = has_complete_paperwork c"
    unfolding c' by (rule paperwork_snoc_unverified [OF d(2)])
  then show ?thesis
    using assms(2) d(1) nf no_documents_incomplete [of c]
    by (auto simp: case_inv_def c' holds_file_def list_ex_iff)
qed

text \<open>Clearing a document never takes paperwork away.\<close>

lemma update_first_verified:
  assumes "find P xs = Some x" "doc_type y = doc_type x" "doc_is_verified y"
  shows "set (map doc_type (filter doc_is_verified xs)) \<subseteq> set (map doc_type (filter doc_is_verified (update_first P y xs)))"
  using assms by (induction xs) (auto simp: image_iff split: if_splits)

lemma verify_keeps_paperwork:
  assumes "find_document i c = Some d" "verify_item n d = Inr d'" "has_complete_paperwork c"
  shows "has_complete_paperwork (with_document i d' c)"
proof -
  have "doc_type d' = doc_type d" "doc_is_verified d'" using assms(2) by (auto simp: verify_item_Inr)
  then show ?thesis
    using assms(3) update_first_verified [OF assms(1) [unfolded find_document_def]]
    by (simp add: has_complete_paperwork_def with_document_def) blast
qed

lemma verify_document_inv:
  assumes "verify_document i n c = Inr (c', ev)" "case_inv c"
  shows "case_inv c'"
proof -
  obtain d d' where f: "find_document i c = Some d" and v: "verify_item n d = Inr d'"
    and c': "if cc_status c = DOCUMENT_VERIFICATION \<and> has_complete_paperwork (with_document i d' c)
        then c' = (with_document i d' c)\<lparr>cc_status := RISK_ASSESSMENT\<rparr> \<and> ev = Some (completed_event c)
        else c' = with_document i d' c \<and> ev = None"
    using assms(1) unfolding verify_document_Inr by blast
  have ne: "cc_documents c \<noteq> []" using find_document_Some [OF f] by auto
  have "set (cc_documents (with_document i d' c)) \<subseteq> insert d' (set (cc_documents c))"
    by (simp add: with_document_def set_update_first)
  moreover have "\<forall>x \<in> set (cc_documents c). wf_item x" using assms(2) by (simp add: case_inv_def list_all_iff)
  ultimately have docs: "list_all wf_item (cc_documents (with_document i d' c))"
    using verify_item_wf [OF v] by (auto simp: list_all_iff)
  note files = with_document_files [OF f v]
  have "length (cc_documents (with_document i d' c)) = length (cc_documents c)"
    by (simp add: with_document_def)
  then have ne': "cc_documents (with_document i d' c) \<noteq> []" using ne by (metis length_0_conv)
  have keep: "cc_status (with_document i d' c) = cc_status c"
    "cc_shipment_id (with_document i d' c) = cc_shipment_id c"
    by (simp_all add: with_document_def)
  have inv: "cc_shipment_id c \<noteq> []" "strip (cc_shipment_id c) = cc_shipment_id c"
    "distinct (map doc_file_uuid (cc_documents c))" "cc_status c \<noteq> OPENED"
    "cc_status c = RISK_ASSESSMENT \<Longrightarrow> has_complete_paperwork c"
    using assms(2) ne by (simp_all add: case_inv_def)
  show ?thesis
  proof (cases "cc_status c = DOCUMENT_VERIFICATION \<and> has_complete_paperwork (with_document i d' c)")
    case True
    then show ?thesis using c' inv docs files ne' keep by (simp add: case_inv_def)
  next
    case False
    then have eq: "c' = with_document i d' c" using c' by simp
    have "cc_status c = RISK_ASSESSMENT \<Longrightarrow> has_complete_paperwork (with_document i d' c)"
      using inv(5) verify_keeps_paperwork [OF f v] by blast
    then show ?thesis unfolding eq case_inv_def keep files
      using False inv(1-4) docs ne' by simp
  qed
qed

section \<open>The history of a case\<close>

datatype case_op = Attach uuid "document_type + pyval" pyval | Verify uuid pyval

fun apply_case_op :: "case_op \<Rightarrow> clearance_case \<Rightarrow> (clearance_case \<times> integration_message list) res" where
  "apply_case_op (Attach fresh ty f) c = bindE (attach_document fresh ty f c) (\<lambda>(c', d). Inr (c', []))"
| "apply_case_op (Verify i n) c =
     bindE (verify_document i n c) (\<lambda>(c', ev). Inr (c', case ev of None \<Rightarrow> [] | Some m \<Rightarrow> [m]))"

text \<open>A sequence of requests: one that raises leaves the case as it was.\<close>

fun run_case_ops :: "case_op list \<Rightarrow> clearance_case \<Rightarrow> clearance_case \<times> integration_message list" where
  "run_case_ops [] c = (c, [])"
| "run_case_ops (op # ops) c =
     (case apply_case_op op c of
        Inl e \<Rightarrow> run_case_ops ops c
      | Inr (c', evs) \<Rightarrow> (let (c'', evs') = run_case_ops ops c' in (c'', evs @ evs')))"

inductive case_step :: "clearance_case \<Rightarrow> integration_message list \<Rightarrow> clearance_case \<Rightarrow> bool" where
  step_attach: "attach_document fresh ty f c = Inr (c', d) \<Longrightarrow> case_step c [] c'"
| step_verify: "verify_document i n c = Inr (c', None) \<Longrightarrow> case_step c [] c'"
| step_complete: "verify_document i n c = Inr (c', Some ev) \<Longrightarrow> case_step c [ev] c'"

inductive case_reachable :: "clearance_case \<Rightarrow> integration_message list \<Rightarrow> clearance_case \<Rightarrow> bool"
  for c0 :: clearance_case where
  case_start: "case_reachable c0 [] c0"
| case_next: "case_reachable c0 evs c \<Longrightarrow> case_step c evs' c' \<Longrightarrow> case_reachable c0 (evs @ evs') c'"

lemma apply_case_op_step: "apply_case_op op c = Inr (c', evs) \<Longrightarrow> case_step c evs c'"
  by (cases op) (auto simp: bindE_Inr_iff intro: case_step.intros split: option.splits)

lemma run_case_ops_reachable:
  "case_reachable c0 evs c \<Longrightarrow> run_case_ops ops c = (c', evs') \<Longrightarrow> case_reachable c0 (evs @ evs') c'"
proof (induction ops arbitrary: c evs evs')
  case Nil
  then show ?case by simp
next
  case (Cons op ops)
  show ?case
  proof (cases "apply_case_op op c")
    case (Inl e)
    then show ?thesis using Cons by simp
  next
    case (Inr r)
    obtain c1 evs1 where r: "r = (c1, evs1)" by (cases r)
    obtain evs2 where rest: "run_case_ops ops c1 = (c', evs2)" and evs': "evs' = evs1 @ evs2"
      using Cons.prems(2) Inr r by (auto split: prod.splits)
    have "case_reachable c0 (evs @ evs1) c1"
      using Cons.prems(1) apply_case_op_step [OF Inr [unfolded r]] by (rule case_next)
    from Cons.IH [OF this rest] show ?thesis using evs' by simp
  qed
qed

lemma case_step_inv: "case_step c evs c' \<Longrightarrow> case_inv c \<Longrightarrow> case_inv c'"
  by (induction rule: case_step.induct) (auto intro: attach_document_inv verify_document_inv)

text \<open>What a step keeps: identity, shipment and amounts; the status never goes back.\<close>

lemma case_step_frame:
  "case_step c evs c' \<Longrightarrow> cc_id c' = cc_id c \<and> cc_shipment_id c' = cc_shipment_id c
   \<and> cc_declaration_value c' = cc_declaration_value c \<and> cc_duty_fee c' = cc_duty_fee c
   \<and> cc_status c \<le> cc_status c'"
  by (induction rule: case_step.induct)
    (auto simp: attach_document_Inr verify_document_Inr with_document_def less_eq_assessment_status_def
      split: if_splits)

text \<open>
  The audit trail: a document keeps its place, identifier, type and file, and a cleared one
  does not change at all.
\<close>

definition item_kept :: "document_registry_item \<Rightarrow> document_registry_item \<Rightarrow> bool" where
  "item_kept d d' \<longleftrightarrow>
     doc_id d' = doc_id d \<and> doc_type d' = doc_type d \<and> doc_file_uuid d' = doc_file_uuid d
     \<and> (doc_is_verified d \<longrightarrow> d' = d)"

definition trail_kept :: "clearance_case \<Rightarrow> clearance_case \<Rightarrow> bool" where
  "trail_kept c c' \<longleftrightarrow>
     length (cc_documents c) \<le> length (cc_documents c')
     \<and> list_all2 item_kept (cc_documents c) (take (length (cc_documents c)) (cc_documents c'))"

lemma item_kept_refl [simp]: "item_kept d d"
  by (simp add: item_kept_def)

lemma item_kept_trans: "item_kept a b \<Longrightarrow> item_kept b c \<Longrightarrow> item_kept a c"
  by (auto simp: item_kept_def)

lemma trail_kept_refl [simp]: "trail_kept c c"
  by (simp add: trail_kept_def list_all2_same)

lemma trail_kept_trans:
  assumes "trail_kept a b" "trail_kept b c"
  shows "trail_kept a c"
proof -
  let ?n = "length (cc_documents a)"
  have "list_all2 item_kept (take ?n (cc_documents b)) (take ?n (take (length (cc_documents b)) (cc_documents c)))"
    using assms(2) by (intro list_all2_takeI) (simp add: trail_kept_def)
  moreover have "take ?n (take (length (cc_documents b)) (cc_documents c)) = take ?n (cc_documents c)"
    using assms(1) by (simp add: trail_kept_def min_absorb1)
  ultimately have bc: "list_all2 item_kept (take ?n (cc_documents b)) (take ?n (cc_documents c))" by simp
  have ab: "list_all2 item_kept (cc_documents a) (take ?n (cc_documents b))"
    using assms(1) by (simp add: trail_kept_def)
  have "list_all2 item_kept (cc_documents a) (take ?n (cc_documents c))"
    by (rule list_all2_trans [OF item_kept_trans ab bc])
  then show ?thesis using assms by (simp add: trail_kept_def)
qed

lemma update_first_kept:
  assumes "find P xs = Some x" "item_kept x y"
  shows "list_all2 item_kept xs (update_first P y xs)"
  using assms by (induction xs) (auto simp: list_all2_same split: if_splits)

lemma case_step_trail: "case_step c evs c' \<Longrightarrow> trail_kept c c'"
proof (induction rule: case_step.induct)
  case (step_attach fresh ty f c c' d)
  then show ?case by (auto simp: attach_document_Inr trail_kept_def list_all2_same)
next
  case (step_verify i n c c')
  then obtain d d' where "find_document i c = Some d" "verify_item n d = Inr d'" "c' = with_document i d' c"
    by (auto simp: verify_document_Inr split: if_splits)
  then show ?case using update_first_kept [of _ "cc_documents c" d d']
    by (auto simp: trail_kept_def with_document_def find_document_def item_kept_def verify_item_Inr)
next
  case (step_complete i n c c' ev)
  then obtain d d' where "find_document i c = Some d" "verify_item n d = Inr d'"
    "c' = (with_document i d' c)\<lparr>cc_status := RISK_ASSESSMENT\<rparr>"
    by (auto simp: verify_document_Inr split: if_splits)
  then show ?case using update_first_kept [of _ "cc_documents c" d d']
    by (auto simp: trail_kept_def with_document_def find_document_def item_kept_def verify_item_Inr)
qed

lemma case_reachable_facts:
  "case_reachable c0 evs c \<Longrightarrow> case_inv c0 \<Longrightarrow>
   case_inv c \<and> cc_id c = cc_id c0 \<and> cc_shipment_id c = cc_shipment_id c0 \<and> cc_status c0 \<le> cc_status c
   \<and> trail_kept c0 c \<and> cc_declaration_value c = cc_declaration_value c0 \<and> cc_duty_fee c = cc_duty_fee c0"
proof (induction rule: case_reachable.induct)
  case case_start
  then show ?case by simp
next
  case (case_next evs c evs' c')
  then show ?case
    using case_step_inv case_step_frame [OF case_next.hyps(2)] case_step_trail trail_kept_trans
    by (metis order_trans)
qed

text \<open>The completion is announced by the step that reaches risk assessment, and by no other.\<close>

lemma case_reachable_events:
  "case_reachable c0 evs c \<Longrightarrow> case_inv c0 \<Longrightarrow> cc_status c0 = OPENED \<Longrightarrow>
   (cc_status c \<in> {OPENED, DOCUMENT_VERIFICATION} \<and> evs = [])
   \<or> (cc_status c = RISK_ASSESSMENT \<and> evs = [completed_event c])"
proof (induction rule: case_reachable.induct)
  case case_start
  then show ?case by simp
next
  case (case_next evs c evs' c')
  have keep: "cc_id c' = cc_id c" "cc_shipment_id c' = cc_shipment_id c"
    using case_step_frame [OF case_next.hyps(2)] by simp_all
  from case_next.hyps(2) show ?case
  proof cases
    case (step_attach fresh ty f d)
    then show ?thesis using case_next keep by (auto simp: attach_document_Inr completed_event_def)
  next
    case (step_verify i n)
    then show ?thesis using case_next keep
      by (auto simp: verify_document_Inr with_document_def completed_event_def split: if_splits)
  next
    case (step_complete i n ev)
    then show ?thesis using case_next keep
      by (auto simp: verify_document_Inr with_document_def completed_event_def split: if_splits)
  qed
qed

text \<open>The identifiers of the documents are those that \<open>uuid4\<close> drew for the attach requests.\<close>

definition drawn_ids :: "case_op list \<Rightarrow> uuid list" where
  "drawn_ids ops = concat (map (\<lambda>op. case op of Attach u ty f \<Rightarrow> [u] | Verify i n \<Rightarrow> []) ops)"

lemma drawn_ids_Cons: "drawn_ids (op # ops) = drawn_ids [op] @ drawn_ids ops"
  by (simp add: drawn_ids_def)

lemma attach_document_ids: "attach_document u ty f c = Inr (c', d) \<Longrightarrow> map doc_id (cc_documents c') = map doc_id (cc_documents c) @ [u]"
  by (auto simp: attach_document_Inr attach_item_Inr)

lemma verify_document_ids: "verify_document i n c = Inr (c', ev) \<Longrightarrow> map doc_id (cc_documents c') = map doc_id (cc_documents c)"
  by (auto simp: verify_document_Inr with_document_def find_document_def dest: verify_item_keeps
      intro!: map_update_first split: if_splits)

lemma run_case_ops_ids:
  "run_case_ops ops c = (c', evs) \<Longrightarrow> distinct (map doc_id (cc_documents c) @ drawn_ids ops) \<Longrightarrow>
   distinct (map doc_id (cc_documents c')) \<and> doc_id ` set (cc_documents c') \<subseteq> doc_id ` set (cc_documents c) \<union> set (drawn_ids ops)"
proof (induction ops arbitrary: c evs)
  case Nil
  then show ?case by (simp add: drawn_ids_def)
next
  case (Cons op ops)
  have drop: "distinct (map doc_id (cc_documents c) @ drawn_ids ops)" "set (drawn_ids ops) \<subseteq> set (drawn_ids (op # ops))"
    using Cons.prems(2) by (auto simp: drawn_ids_Cons [of op ops] simp del: set_map)
  show ?case
  proof (cases "apply_case_op op c")
    case (Inl e)
    then show ?thesis using Cons.IH [OF _ drop(1)] Cons.prems(1) drop(2) by fastforce
  next
    case (Inr r)
    obtain c1 evs1 where r: "r = (c1, evs1)" by (cases r)
    obtain evs2 where rest: "run_case_ops ops c1 = (c', evs2)"
      using Cons.prems(1) Inr r by (auto split: prod.splits)
    have new: "map doc_id (cc_documents c1) = map doc_id (cc_documents c) @ drawn_ids [op]
        \<or> map doc_id (cc_documents c1) = map doc_id (cc_documents c)"
      using Inr r by (cases op)
        (auto simp: bindE_Inr_iff drawn_ids_def attach_document_ids dest: verify_document_ids split: option.splits)
    note split = drawn_ids_Cons [of op ops]
    have "distinct (map doc_id (cc_documents c1) @ drawn_ids ops)"
      using new Cons.prems(2) by (auto simp: split simp del: set_map)
    from Cons.IH [OF rest this] show ?thesis
      using new by (auto simp: split simp flip: set_map)
  qed
qed

section \<open>Properties\<close>

text \<open>
  C5. Whatever sequence of attach and verify requests a case receives after it was opened,
  failing ones included, its status is the one its documents call for (opened without any,
  under verification while a required type has no cleared document, under risk assessment
  from then on), its invariant holds, and \<open>DocumentVerificationCompleted\<close> has been announced
  exactly once when it reached risk assessment and never before.
\<close>

theorem case_history:
  assumes "open_for_shipment i v = Inr c0" "run_case_ops ops c0 = (c, evs)"
  shows "case_inv c \<and> cc_id c = i \<and> cc_shipment_id c = cc_shipment_id c0
    \<and> ((cc_status c = OPENED \<and> cc_documents c = [] \<and> evs = [])
       \<or> (cc_status c = DOCUMENT_VERIFICATION \<and> cc_documents c \<noteq> [] \<and> \<not> has_complete_paperwork c \<and> evs = [])
       \<or> (cc_status c = RISK_ASSESSMENT \<and> has_complete_paperwork c \<and> evs = [completed_event c]))"
proof -
  note c0 = open_for_shipment_inv [OF assms(1)]
  have reach: "case_reachable c0 evs c"
    using run_case_ops_reachable [OF case_start assms(2)] by simp
  note facts = case_reachable_facts [OF reach conjunct1 [OF c0]]
  show ?thesis
    using case_reachable_events [OF reach] c0 facts by (auto simp: case_inv_def)
qed

definition sample_case_ops :: "case_op list" where
  "sample_case_ops =
     [Attach 1 (Inl COMMERCIAL_INVOICE) (PUuid 101), Attach 2 (Inl BILL_OF_LADING) (PUuid 101),
      Attach 2 (Inl BILL_OF_LADING) (PUuid 102), Verify 1 (PStr ''insp-1''), Verify 3 (PStr ''insp-1''),
      Verify 2 (PStr ''insp-2''), Verify 2 (PStr ''insp-2'')]"

lemma case_history_witness:
  "\<exists>c0 c evs. open_for_shipment (CaseId 9) (PStr '' S-1 '') = Inr c0
     \<and> run_case_ops sample_case_ops c0 = (c, evs)
     \<and> cc_status c = RISK_ASSESSMENT \<and> evs = [completed_event c]"
proof -
  let ?c0 = "\<lparr>cc_id = CaseId 9, cc_shipment_id = ''S-1'', cc_status = OPENED,
     cc_declaration_value = None, cc_duty_fee = None, cc_documents = []\<rparr>"
  have o: "open_for_shipment (CaseId 9) (PStr '' S-1 '') = Inr ?c0" by code_simp
  obtain c evs where run: "run_case_ops sample_case_ops ?c0 = (c, evs)"
    by (cases "run_case_ops sample_case_ops ?c0")
  have "cc_status (fst (run_case_ops sample_case_ops ?c0)) = RISK_ASSESSMENT" by code_simp
  then show ?thesis using case_history [OF o run] o run by auto
qed

text \<open>
  C23. The paperwork of a case is an audit trail: no sequence of requests removes or reorders
  a document, changes its identifier, type or file, or touches one that has been cleared; the
  status never goes back.
\<close>

theorem audit_trail:
  "trail_kept c (fst (run_case_ops ops c)) \<and> cc_status c \<le> cc_status (fst (run_case_ops ops c))"
proof (induction ops arbitrary: c)
  case Nil
  then show ?case by simp
next
  case (Cons op ops)
  show ?case
  proof (cases "apply_case_op op c")
    case (Inl e)
    then show ?thesis using Cons by simp
  next
    case (Inr r)
    obtain c1 evs1 where r: "r = (c1, evs1)" by (cases r)
    have step: "case_step c evs1 c1" by (rule apply_case_op_step [OF Inr [unfolded r]])
    have "fst (run_case_ops (op # ops) c) = fst (run_case_ops ops c1)"
      using Inr r by (simp add: split_beta)
    then show ?thesis
      using Cons.IH [of c1] case_step_trail [OF step] case_step_frame [OF step]
      by (metis order_trans trail_kept_trans)
  qed
qed

text \<open>
  A decided case (released or rejected) is final: every request fails and neither its
  state nor the outbox changes.
\<close>

theorem decided_case_frozen:
  assumes "cc_status c \<in> DECIDED_STATUSES"
  shows "run_case_ops ops c = (c, [])"
proof (induction ops)
  case Nil
  then show ?case by simp
next
  case (Cons op ops)
  have "\<exists>e. apply_case_op op c = Inl e"
    using assms by (cases op) (auto simp: attach_document_def verify_document_def)
  with Cons show ?case by auto
qed

lemma decided_case_frozen_witness:
  "\<exists>c. cc_status c = RELEASED \<and> run_case_ops sample_case_ops c = (c, [])"
proof -
  let ?c = "\<lparr>cc_id = CaseId 9, cc_shipment_id = ''S-1'', cc_status = RELEASED,
     cc_declaration_value = None, cc_duty_fee = None, cc_documents = []\<rparr>"
  have "cc_status ?c \<in> DECIDED_STATUSES" by (simp add: DECIDED_STATUSES_def)
  then show ?thesis using decided_case_frozen [of ?c] by (intro exI [of _ ?c]) simp
qed

text \<open>
  A request that succeeded cannot succeed again: clearing a cleared document, or filing
  the same upload a second time, is refused as a conflict.
\<close>

theorem repeated_request_refused:
  assumes "apply_case_op op c = Inr (c', evs)"
  shows "(\<exists>i n. op = Verify i n \<and> apply_case_op (Verify i m) c' = Inl (customs_exc DocumentAlreadyVerifiedError))
    \<or> (\<exists>u t f. op = Attach u t f \<and> apply_case_op (Attach fresh t f) c' = Inl (customs_exc DocumentAlreadyAttachedError))"
proof (cases op)
  case (Verify i n)
  then obtain ev where v: "verify_document i n c = Inr (c', ev)"
    using assms by (auto simp: bindE_Inr_iff)
  then obtain d d' where f: "find_document i c = Some d" and vi: "verify_item n d = Inr d'"
    and docs: "cc_documents c' = cc_documents (with_document i d' c)" and st: "cc_status c' \<notin> DECIDED_STATUSES"
    by (auto simp: verify_document_Inr with_document_def DECIDED_STATUSES_def split: if_splits)
  have "doc_id d' = i" using find_document_Some [OF f] verify_item_keeps [OF vi] by simp
  then have "find_document i c' = Some d'"
    using update_first_find [of "\<lambda>x. doc_id x = i" "cc_documents c" d d'] f docs
    by (simp add: find_document_def with_document_def)
  moreover have "doc_is_verified d'" using vi by (auto simp: verify_item_Inr)
  ultimately show ?thesis using st Verify by (simp add: verify_document_def verify_item_def)
next
  case (Attach u t f)
  then obtain d where a: "attach_document u t f c = Inr (c', d)"
    using assms by (auto simp: bindE_Inr_iff)
  then have d: "attach_item u t f = Inr d" "holds_file (doc_file_uuid d) c'" "cc_status c' \<notin> DECIDED_STATUSES"
    by (auto simp: attach_document_Inr holds_file_def DECIDED_STATUSES_def)
  then have "attach_item fresh t f = Inr (d\<lparr>doc_id := fresh\<rparr>)" by (auto simp: attach_item_Inr)
  then have "attach_document fresh t f c' = Inl (customs_exc DocumentAlreadyAttachedError)"
    using d(2,3) by (simp add: attach_document_def)
  then show ?thesis using Attach by simp
qed

lemma repeated_request_refused_witness:
  "\<exists>c c'. apply_case_op (Attach 1 (Inl COMMERCIAL_INVOICE) (PUuid 101)) c = Inr (c', [])
     \<and> apply_case_op (Attach 2 (Inl COMMERCIAL_INVOICE) (PUuid 101)) c' = Inl (customs_exc DocumentAlreadyAttachedError)"
proof -
  let ?c = "\<lparr>cc_id = CaseId 9, cc_shipment_id = ''S-1'', cc_status = OPENED,
     cc_declaration_value = None, cc_duty_fee = None, cc_documents = []\<rparr>"
  let ?c' = "?c\<lparr>cc_status := DOCUMENT_VERIFICATION, cc_documents :=
     [\<lparr>doc_id = 1, doc_type = COMMERCIAL_INVOICE, doc_file_uuid = 101, doc_is_verified = False, doc_inspector = None\<rparr>]\<rparr>"
  have "apply_case_op (Attach 1 (Inl COMMERCIAL_INVOICE) (PUuid 101)) ?c = Inr (?c', [])"
    by (simp add: attach_document_def attach_item_def validated_type_def validated_file_uuid_def
        holds_file_def DECIDED_STATUSES_def)
  with repeated_request_refused [OF this, where fresh = 2] show ?thesis by blast
qed

end
