(* ===== verification/Customs_Slices.thy ===== *)
theory Customs_Slices
  imports Clearance_Case Module_Db Http_Problem Bus_Inbox
begin

text \<open>
  The vertical slices of the Customs module (\<open>modules/customs_clearance/src/features\<close>):
  \<open>attach_document\<close> and \<open>verify_document\<close> over HTTP, \<open>open_clearance_case\<close> over the
  message bus; the composition roots \<open>api.py\<close> and \<open>message_bus.py\<close>; the destination of
  the module's message. Collaborators are arguments, as in the constructors.
\<close>

section \<open>Commands\<close>

record attach_document_command =
  ad_document_type :: document_type
  ad_file_uuid :: uuid

record verify_document_command =
  vd_inspector_id :: string

record open_clearance_case_command =
  oc_shipment_id :: string
  oc_commodity_code :: string

text \<open>A string field with white space stripped and a declared length.\<close>

definition string_field :: "nat \<Rightarrow> nat \<Rightarrow> pyval option \<Rightarrow> string res" where
  "string_field lo hi v =
     (case v of
        Some (PStr s) \<Rightarrow>
          (let t = strip s in if lo \<le> length t \<and> length t \<le> hi then Inr t
                              else Inl (PyError ''ValidationError''))
      | _ \<Rightarrow> Inl (PyError ''ValidationError''))"

text \<open>\<open>OpenClearanceCaseCommand(**body)\<close>: other keys are ignored.\<close>

definition open_command_of_body :: "pyval dict \<Rightarrow> open_clearance_case_command res" where
  "open_command_of_body body =
     bindE (string_field 1 64 (map_of body ''shipment_id'')) (\<lambda>s.
     bindE (string_field 1 16 (map_of body ''commodity_code'')) (\<lambda>c.
     Inr \<lparr>oc_shipment_id = s, oc_commodity_code = c\<rparr>))"

definition verify_document_command_ok :: "verify_document_command \<Rightarrow> bool" where
  "verify_document_command_ok c \<longleftrightarrow>
     strip (vd_inspector_id c) = vd_inspector_id c \<and> 1 \<le> length (vd_inspector_id c)
     \<and> length (vd_inspector_id c) \<le> MAX_INSPECTOR_ID_LENGTH"

section \<open>Handlers\<close>

definition attach_document_handle ::
  "(case_id \<Rightarrow> 'db \<Rightarrow> clearance_case option res) \<Rightarrow> (clearance_case \<Rightarrow> 'db \<Rightarrow> 'db res) \<Rightarrow> uuid \<Rightarrow> string \<Rightarrow>
   attach_document_command \<Rightarrow> 'db \<Rightarrow> ((clearance_case \<times> document_registry_item) \<times> 'db) res" where
  "attach_document_handle find_by_id persist fresh raw_id command db =
     bindE (mk_case_id (PStr raw_id)) (\<lambda>identity.
     bindE (find_by_id identity db) (\<lambda>found.
     case found of
       None \<Rightarrow> Inl (customs_exc ClearanceCaseNotFoundError)
     | Some c \<Rightarrow>
         bindE (attach_document fresh (Inl (ad_document_type command)) (PUuid (ad_file_uuid command)) c)
           (\<lambda>(c', document).
         bindE (persist c' db) (\<lambda>db'. Inr ((c', document), db')))))"

definition verify_document_handle ::
  "(case_id \<Rightarrow> 'db \<Rightarrow> clearance_case option res) \<Rightarrow> (clearance_case \<Rightarrow> 'db \<Rightarrow> 'db res) \<Rightarrow>
   (integration_message \<Rightarrow> 'db \<Rightarrow> 'db res) \<Rightarrow> string \<Rightarrow> uuid \<Rightarrow> verify_document_command \<Rightarrow> 'db \<Rightarrow>
   ((clearance_case \<times> document_registry_item) \<times> 'db) res" where
  "verify_document_handle find_by_id persist put_message raw_id document_id command db =
     bindE (mk_case_id (PStr raw_id)) (\<lambda>identity.
     bindE (find_by_id identity db) (\<lambda>found.
     case found of
       None \<Rightarrow> Inl (customs_exc ClearanceCaseNotFoundError)
     | Some c \<Rightarrow>
         bindE (verify_document document_id (PStr (vd_inspector_id command)) c) (\<lambda>(c', event).
         bindE (persist c' db) (\<lambda>db1.
         bindE (case event of None \<Rightarrow> Inr db1 | Some m \<Rightarrow> put_message m db1) (\<lambda>db2.
         case find_document document_id c' of
           None \<Rightarrow> Inl (customs_exc DocumentNotFoundError)
         | Some document \<Rightarrow> Inr ((c', document), db2))))))"

definition open_clearance_case_handle ::
  "(clearance_case \<Rightarrow> 'db \<Rightarrow> 'db res) \<Rightarrow> uuid \<Rightarrow> open_clearance_case_command \<Rightarrow> 'db \<Rightarrow>
   (clearance_case \<times> 'db) res" where
  "open_clearance_case_handle persist fresh command db =
     bindE (open_for_shipment (CaseId fresh) (PStr (oc_shipment_id command))) (\<lambda>c.
     bindE (persist c db) (\<lambda>db'. Inr (c, db')))"

section \<open>The message handler\<close>

definition SHIPMENT_MANIFEST_FINALIZED :: string where
  "SHIPMENT_MANIFEST_FINALIZED = ''ShipmentManifestFinalized''"

definition OpenClearanceCaseMessageHandler :: handler_class where
  "OpenClearanceCaseMessageHandler =
     init_handler_class ''OpenClearanceCaseMessageHandler'' SHIPMENT_MANIFEST_FINALIZED []"

definition open_case_message_handle ::
  "(clearance_case \<Rightarrow> 'db \<Rightarrow> 'db res) \<Rightarrow> uuid \<Rightarrow> message_envelope \<Rightarrow> 'db \<Rightarrow> 'db res" where
  "open_case_message_handle persist fresh env db =
     bindE (open_command_of_body (env_body env)) (\<lambda>command.
     bindE (open_clearance_case_handle persist fresh command db) (\<lambda>(c, db'). Inr db'))"

definition build_message_handlers :: handler_registry where
  "build_message_handlers = register_handler OpenClearanceCaseMessageHandler []"

text \<open>
  The handlers of the module as the dispatcher runs them; \<open>fresh t\<close> is what \<open>uuid4()\<close>
  draws at attempt \<open>t\<close>.
\<close>

definition customs_run :: "(clearance_case \<Rightarrow> 'a \<Rightarrow> 'a res) \<Rightarrow> (nat \<Rightarrow> uuid) \<Rightarrow> 'a handler_run" where
  "customs_run persist fresh t h env db =
     (if h = OpenClearanceCaseMessageHandler
      then open_case_message_handle (\<lambda>c. on_store (persist c)) (fresh t) env db
      else Inl (PyError ''TypeError''))"

section \<open>Controllers\<close>

record document_view =
  dv_document_id :: uuid
  dv_document_type :: document_type
  dv_file_uuid :: uuid
  dv_is_verified :: bool
  dv_verified_by :: "string option"

record attach_document_response =
  at_case_id :: string
  at_shipment_id :: string
  at_status :: assessment_status
  at_document :: document_view
  at_documents_attached :: nat
  at_links :: "link list"

definition documents_path :: "case_id \<Rightarrow> string" where
  "documents_path i = path_of [''customs'', ''cases'', str_case_id i, ''documents'']"

definition attach_document_next_tasks :: "clearance_case \<Rightarrow> document_registry_item \<Rightarrow> link list" where
  "attach_document_next_tasks c d =
     [Link ''verify-document''
        (path_of [''customs'', ''cases'', str_case_id (cc_id c), ''documents'', show_uuid (doc_id d), ''verify''])
        ''POST'',
      Link ''attach-document'' (documents_path (cc_id c)) ''POST'']"

definition attach_document_response_of ::
  "clearance_case \<Rightarrow> document_registry_item \<Rightarrow> attach_document_response" where
  "attach_document_response_of c d =
     \<lparr>at_case_id = str_case_id (cc_id c), at_shipment_id = cc_shipment_id c, at_status = cc_status c,
      at_document = \<lparr>dv_document_id = doc_id d, dv_document_type = doc_type d,
                     dv_file_uuid = doc_file_uuid d, dv_is_verified = doc_is_verified d,
                     dv_verified_by = doc_inspector d\<rparr>,
      at_documents_attached = length (cc_documents c), at_links = attach_document_next_tasks c d\<rparr>"

record verified_document_view =
  vv_document_id :: uuid
  vv_document_type :: document_type
  vv_file_uuid :: uuid
  vv_is_verified :: bool
  vv_verified_by :: string

record verify_document_response =
  ve_case_id :: string
  ve_shipment_id :: string
  ve_status :: assessment_status
  ve_document :: verified_document_view
  ve_documents_verified :: nat
  ve_paperwork_complete :: bool
  ve_links :: "link list"

definition as_view :: "document_registry_item \<Rightarrow> verified_document_view" where
  "as_view d =
     \<lparr>vv_document_id = doc_id d, vv_document_type = doc_type d, vv_file_uuid = doc_file_uuid d,
      vv_is_verified = doc_is_verified d,
      vv_verified_by = (case doc_inspector d of None \<Rightarrow> [] | Some i \<Rightarrow> i)\<rparr>"

definition verify_document_next_tasks :: "clearance_case \<Rightarrow> link list" where
  "verify_document_next_tasks c =
     (if cc_status c \<in> DECIDED_STATUSES then []
      else if cc_status c = DOCUMENT_VERIFICATION
      then [Link ''attach-document'' (documents_path (cc_id c)) ''POST'']
      else [])"

definition verify_document_response_of ::
  "clearance_case \<Rightarrow> document_registry_item \<Rightarrow> verify_document_response" where
  "verify_document_response_of c d =
     \<lparr>ve_case_id = str_case_id (cc_id c), ve_shipment_id = cc_shipment_id c, ve_status = cc_status c,
      ve_document = as_view d,
      ve_documents_verified = length (filter doc_is_verified (cc_documents c)),
      ve_paperwork_complete = has_complete_paperwork c, ve_links = verify_document_next_tasks c\<rparr>"

definition attach_document_endpoint ::
  "(case_id \<Rightarrow> 'db \<Rightarrow> clearance_case option res) \<Rightarrow> (clearance_case \<Rightarrow> 'db \<Rightarrow> 'db res) \<Rightarrow>
   ('db \<Rightarrow> exc option) \<Rightarrow> uuid \<Rightarrow> string \<Rightarrow> attach_document_command \<Rightarrow> 'db \<Rightarrow>
   attach_document_response res \<times> 'db" where
  "attach_document_endpoint find_by_id persist commit fresh raw_id command db =
     request_scope commit
       (\<lambda>db. bindE (attach_document_handle find_by_id persist fresh raw_id command db)
               (\<lambda>((c, d), db'). Inr (attach_document_response_of c d, db'))) db"

definition verify_document_endpoint ::
  "(case_id \<Rightarrow> 'db \<Rightarrow> clearance_case option res) \<Rightarrow> (clearance_case \<Rightarrow> 'db \<Rightarrow> 'db res) \<Rightarrow>
   (integration_message \<Rightarrow> 'db \<Rightarrow> 'db res) \<Rightarrow> ('db \<Rightarrow> exc option) \<Rightarrow> string \<Rightarrow> uuid \<Rightarrow>
   verify_document_command \<Rightarrow> 'db \<Rightarrow> verify_document_response res \<times> 'db" where
  "verify_document_endpoint find_by_id persist put_message commit raw_id document_id command db =
     request_scope commit
       (\<lambda>db. bindE (verify_document_handle find_by_id persist put_message raw_id document_id command db)
               (\<lambda>((c, d), db'). Inr (verify_document_response_of c d, db'))) db"

definition customs_routes :: route_table where
  "customs_routes =
     [(''POST'', ''/customs/cases/{case_id}/documents''),
      (''POST'', ''/customs/cases/{case_id}/documents/{document_id}/verify'')]"

section \<open>Destinations\<close>

definition DOCUMENT_VERIFICATION_COMPLETED_ROUTING_KEY :: string where
  "DOCUMENT_VERIFICATION_COMPLETED_ROUTING_KEY = ''trade-logistics.customs.document-verification-completed''"

definition register_customs_message_destinations ::
  "string \<Rightarrow> bool \<times> destination_registry \<Rightarrow> bool \<times> destination_registry" where
  "register_customs_message_destinations primary st =
     (if fst st then st
      else (True, register_destination DocumentVerificationCompleted
              \<lparr>exchange = primary, routing_key = DOCUMENT_VERIFICATION_COMPLETED_ROUTING_KEY\<rparr> (snd st)))"

section \<open>What the handlers do\<close>

definition customs_domain_error :: "exc \<Rightarrow> bool" where
  "customs_domain_error e \<longleftrightarrow> (\<exists>c. e = customs_exc c)"

lemma customs_domain_error_exc [simp]: "customs_domain_error (customs_exc c)"
  by (auto simp: customs_domain_error_def)

lemma customs_domain_error_status: "customs_domain_error e \<Longrightarrow> exc_status e \<in> {404, 409, 422}"
proof -
  assume "customs_domain_error e"
  then obtain c where "e = customs_exc c" by (auto simp: customs_domain_error_def)
  then show ?thesis using customs_status [of c] by simp
qed

named_theorems customs_errors \<open>the errors that the operations of the module raise\<close>

lemma mk_case_id_domain [customs_errors]: "mk_case_id raw = Inl e \<Longrightarrow> customs_domain_error e"
  by (drule mk_case_id_error) simp

lemma attach_document_domain [customs_errors]: "attach_document fresh ty f c = Inl e \<Longrightarrow> customs_domain_error e"
  by (auto simp: attach_document_Inl dest: attach_item_Inl)

lemma verify_document_domain [customs_errors]: "verify_document i n c = Inl e \<Longrightarrow> customs_domain_error e"
  by (auto simp: verify_document_Inl dest: verify_item_Inl)

lemma attach_document_handle_error:
  assumes "attach_document_handle find_id persist fresh raw c db = Inl e"
  shows "customs_domain_error e \<or> (\<exists>i. find_id i db = Inl e) \<or> (\<exists>s. persist s db = Inl e)"
  using assms unfolding attach_document_handle_def bindE_Inl_iff
  by (elim disjE exE conjE; (simp split: option.splits)?)
    (auto simp: bindE_Inl_iff split: option.splits prod.splits dest: customs_errors)

lemma verify_document_handle_error:
  assumes "verify_document_handle find_id persist put raw i c db = Inl e"
  shows "customs_domain_error e \<or> (\<exists>i. find_id i db = Inl e) \<or> (\<exists>s. persist s db = Inl e)
   \<or> (\<exists>m db'. put m db' = Inl e)"
  using assms unfolding verify_document_handle_def bindE_Inl_iff
  by (elim disjE exE conjE; (simp split: option.splits)?)
    (auto simp: bindE_Inl_iff split: option.splits prod.splits dest: customs_errors)

text \<open>The document just cleared is still there: the last branch of the handler is dead.\<close>

lemma find_document_after_verify:
  assumes "verify_document i n c = Inr (c', ev)"
  shows "\<exists>d. find_document i c' = Some d \<and> doc_is_verified d"
proof -
  obtain d d' where f: "find_document i c = Some d" and v: "verify_item n d = Inr d'"
    and docs: "cc_documents c' = cc_documents (with_document i d' c)"
    using assms by (auto simp: verify_document_Inr split: if_splits)
  have "doc_id d' = i" using find_document_Some [OF f] verify_item_keeps [OF v] by simp
  then have "find_document i c' = Some d'"
    using update_first_find [of "\<lambda>x. doc_id x = i" "cc_documents c" d d'] f docs
    by (simp add: find_document_def with_document_def)
  then show ?thesis using v by (auto simp: verify_item_Inr)
qed

locale customs_session = unit_of_work persist find_by_id cc_id storable dests put_message outbox
  for persist :: "clearance_case \<Rightarrow> 'db \<Rightarrow> 'db res"
    and find_by_id :: "case_id \<Rightarrow> 'db \<Rightarrow> clearance_case option res"
    and storable :: "clearance_case \<Rightarrow> bool"
    and dests :: destination_registry
    and put_message :: "integration_message \<Rightarrow> 'db \<Rightarrow> 'db res"
    and outbox :: "'db \<Rightarrow> outbox_message list"
begin

lemma verify_endpoint_success:
  assumes "verify_document_endpoint find_by_id persist put_message commit raw i cmd db = (Inr resp, db')"
  obtains k c c' ev d where
    "mk_case_id (PStr raw) = Inr k" "find_by_id k db = Inr (Some c)"
    "verify_document i (PStr (vd_inspector_id cmd)) c = Inr (c', ev)"
    "find_document i c' = Some d" "resp = verify_document_response_of c' d"
    "case ev of None \<Rightarrow> outbox db' = outbox db
     | Some m \<Rightarrow> \<exists>r. outbox db' = outbox db @ [r] \<and> announces dests m r"
    "\<And>q. storable c' \<Longrightarrow> find_by_id q db' = (if q = cc_id c then Inr (Some c') else find_by_id q db)"
proof -
  obtain c' d where h: "verify_document_handle find_by_id persist put_message raw i cmd db = Inr ((c', d), db')"
    and resp: "resp = verify_document_response_of c' d"
    using assms by (auto simp: verify_document_endpoint_def request_scope_Inr bindE_Inr_iff)
  obtain k c ev db1 where k: "mk_case_id (PStr raw) = Inr k" and f: "find_by_id k db = Inr (Some c)"
    and v: "verify_document i (PStr (vd_inspector_id cmd)) c = Inr (c', ev)" and p: "persist c' db = Inr db1"
    and put: "(case ev of None \<Rightarrow> Inr db1 | Some m \<Rightarrow> put_message m db1) = Inr db'"
    and d: "find_document i c' = Some d"
    using h unfolding verify_document_handle_def
    by (auto simp: bindE_Inr_iff split: option.splits prod.splits)
  have id: "cc_id c' = cc_id c" using v by (auto simp: verify_document_Inr with_document_def split: if_splits)
  have out: "case ev of None \<Rightarrow> outbox db' = outbox db
     | Some m \<Rightarrow> \<exists>r. outbox db' = outbox db @ [r] \<and> announces dests m r"
    using put persist_outbox [OF p] put_message_outbox [of _ db1 db'] by (auto split: option.splits)
  have find: "find_by_id q db' = (if q = cc_id c then Inr (Some c') else find_by_id q db)" if "storable c'" for q
    using find_persist [OF that p] put put_message_find by (auto simp: id split: option.splits)
  show thesis using that [OF k f v d resp out] find by simp
qed

lemma attach_endpoint_success:
  assumes "attach_document_endpoint find_by_id persist commit fresh raw cmd db = (Inr resp, db')"
  obtains k c c' d where
    "mk_case_id (PStr raw) = Inr k" "find_by_id k db = Inr (Some c)"
    "attach_document fresh (Inl (ad_document_type cmd)) (PUuid (ad_file_uuid cmd)) c = Inr (c', d)"
    "resp = attach_document_response_of c' d" "outbox db' = outbox db"
    "\<And>q. storable c' \<Longrightarrow> find_by_id q db' = (if q = cc_id c then Inr (Some c') else find_by_id q db)"
proof -
  obtain c' d where h: "attach_document_handle find_by_id persist fresh raw cmd db = Inr ((c', d), db')"
    and resp: "resp = attach_document_response_of c' d"
    using assms by (auto simp: attach_document_endpoint_def request_scope_Inr bindE_Inr_iff)
  obtain k c where k: "mk_case_id (PStr raw) = Inr k" and f: "find_by_id k db = Inr (Some c)"
    and a: "attach_document fresh (Inl (ad_document_type cmd)) (PUuid (ad_file_uuid cmd)) c = Inr (c', d)"
    and p: "persist c' db = Inr db'"
    using h unfolding attach_document_handle_def
    by (auto simp: bindE_Inr_iff split: option.splits prod.splits)
  have id: "cc_id c' = cc_id c" using a by (auto simp: attach_document_Inr)
  have find: "find_by_id q db' = (if q = cc_id c then Inr (Some c') else find_by_id q db)" if "storable c'" for q
    using find_persist [OF that p] by (simp add: id)
  show thesis using that [OF k f a resp persist_outbox [OF p]] find by simp
qed

end

lemma verify_endpoint_failure:
  "verify_document_endpoint find_id persist put commit raw i cmd db = (Inl e, db') \<Longrightarrow> db' = db"
  unfolding verify_document_endpoint_def by (rule request_scope_Inl)

lemma attach_endpoint_failure:
  "attach_document_endpoint find_id persist commit fresh raw cmd db = (Inl e, db') \<Longrightarrow> db' = db"
  unfolding attach_document_endpoint_def by (rule request_scope_Inl)

text \<open>The module's handlers leave the inbox to the dispatcher.\<close>

interpretation customs_handlers: inbox_handlers "customs_run persist fresh"
  for persist :: "clearance_case \<Rightarrow> 'a \<Rightarrow> 'a res" and fresh :: "nat \<Rightarrow> uuid"
  by unfold_locales
    (auto simp: customs_run_def open_case_message_handle_def open_clearance_case_handle_def
      bindE_Inr_iff on_store_Inr split: if_splits)

lemma build_message_handlers_wf: "wf_handlers build_message_handlers"
  unfolding build_message_handlers_def by (rule register_handler_wf) simp

lemma handlers_for_build:
  "handlers_for build_message_handlers ty =
   (if ty = SHIPMENT_MANIFEST_FINALIZED then [OpenClearanceCaseMessageHandler] else [])"
  by (simp add: build_message_handlers_def handlers_for_register)
    (simp add: OpenClearanceCaseMessageHandler_def init_handler_class_def handlers_for_def dict_get_def)

section \<open>Properties\<close>

lemma customs_segments: "list_all (\<lambda>p. CHR ''/'' \<notin> set p) [''customs'', ''cases'', ''documents'', ''verify'']"
  by code_simp

lemma customs_templates:
  "split_on (CHR ''/'') ''/customs/cases/{case_id}/documents'' = [[], ''customs'', ''cases'', ''{case_id}'', ''documents'']"
  "split_on (CHR ''/'') ''/customs/cases/{case_id}/documents/{document_id}/verify''
     = [[], ''customs'', ''cases'', ''{case_id}'', ''documents'', ''{document_id}'', ''verify'']"
  "is_param ''{case_id}''" "is_param ''{document_id}''" "\<not> is_param ''customs''" "\<not> is_param ''cases''"
  "\<not> is_param ''documents''" "\<not> is_param ''verify''" "\<not> is_param []"
  by code_simp+

lemma documents_link_served: "served customs_routes (Link r (documents_path i) ''POST'')"
proof -
  have "split_on (CHR ''/'') (documents_path i) = [[], ''customs'', ''cases'', str_case_id i, ''documents'']"
    unfolding documents_path_def using customs_segments show_uuid_segment(1) [of "cid_value i"]
    by (subst split_path_of) (auto simp: str_case_id_def)
  then show ?thesis using show_uuid_segment(2) [of "cid_value i"]
    by (simp add: served_def customs_routes_def path_matches_def Link_def customs_templates str_case_id_def)
qed

lemma verify_link_served:
  "served customs_routes (Link r (path_of [''customs'', ''cases'', str_case_id i, ''documents'', show_uuid d, ''verify'']) ''POST'')"
proof -
  have "split_on (CHR ''/'') (path_of [''customs'', ''cases'', str_case_id i, ''documents'', show_uuid d, ''verify''])
      = [[], ''customs'', ''cases'', str_case_id i, ''documents'', show_uuid d, ''verify'']"
    using customs_segments show_uuid_segment(1) [of "cid_value i"] show_uuid_segment(1) [of d]
    by (subst split_path_of) (auto simp: str_case_id_def)
  then show ?thesis using show_uuid_segment(2) [of "cid_value i"] show_uuid_segment(2) [of d]
    by (simp add: served_def customs_routes_def path_matches_def Link_def customs_templates str_case_id_def)
qed

text \<open>
  Every hypermedia link of the Customs module is served by a route that it mounts, with
  the identifiers of the case and of the document in place.
\<close>

theorem customs_links_served:
  "list_all (served customs_routes) (attach_document_next_tasks c d @ verify_document_next_tasks c)"
  by (auto simp: attach_document_next_tasks_def verify_document_next_tasks_def documents_link_served verify_link_served)

text \<open>
  The handlers of the Customs module refuse with 404, 409 or 422; anything else they
  raise came out of the repository or the outbox. In particular the last branch of the verify
  handler, a document that vanished between clearing it and answering, is dead.
\<close>

theorem customs_handler_errors:
  "(attach_document_handle find_id persist fresh raw cmd db = Inl e \<longrightarrow>
      exc_status e \<in> {404, 409, 422} \<or> (\<exists>i. find_id i db = Inl e) \<or> (\<exists>s. persist s db = Inl e))
   \<and> (verify_document_handle find_id persist put raw i vcmd db = Inl e \<longrightarrow>
      exc_status e \<in> {404, 409, 422} \<or> (\<exists>i. find_id i db = Inl e) \<or> (\<exists>s. persist s db = Inl e)
      \<or> (\<exists>m db'. put m db' = Inl e))
   \<and> (verify_document i n c = Inr (c', ev) \<longrightarrow> (\<exists>d. find_document i c' = Some d \<and> doc_is_verified d))"
proof (intro conjI impI)
  note status = customs_domain_error_status [of e]
  assume "attach_document_handle find_id persist fresh raw cmd db = Inl e"
  from attach_document_handle_error [OF this] status
  show "exc_status e \<in> {404, 409, 422} \<or> (\<exists>i. find_id i db = Inl e) \<or> (\<exists>s. persist s db = Inl e)" by argo
next
  note status = customs_domain_error_status [of e]
  assume "verify_document_handle find_id persist put raw i vcmd db = Inl e"
  from verify_document_handle_error [OF this] status
  show "exc_status e \<in> {404, 409, 422} \<or> (\<exists>i. find_id i db = Inl e) \<or> (\<exists>s. persist s db = Inl e)
      \<or> (\<exists>m db'. put m db' = Inl e)" by argo
next
  assume "verify_document i n c = Inr (c', ev)"
  then show "\<exists>d. find_document i c' = Some d \<and> doc_is_verified d" by (rule find_document_after_verify)
qed

lemma customs_handler_errors_witness:
  "\<exists>e. attach_document_handle (\<lambda>i db. Inr None) (\<lambda>s db. Inr db) 5 (str_case_id (CaseId 1))
        \<lparr>ad_document_type = BILL_OF_LADING, ad_file_uuid = 3\<rparr> () = Inl e \<and> exc_status e \<in> {404, 409, 422}"
proof -
  let ?c = "\<lparr>ad_document_type = BILL_OF_LADING, ad_file_uuid = 3\<rparr>"
  have h: "attach_document_handle (\<lambda>i db. Inr None) (\<lambda>s db. Inr db) 5 (str_case_id (CaseId 1)) ?c ()
      = Inl (customs_exc ClearanceCaseNotFoundError)"
    by (simp add: attach_document_handle_def)
  have "exc_status (customs_exc ClearanceCaseNotFoundError) \<in> {404, 409, 422}"
    using customs_handler_errors [THEN conjunct1, THEN mp, OF h] by (elim disjE) simp_all
  then show ?thesis using h by blast
qed

end
