(* ===== verification/Customs_Storage.thy ===== *)
theory Customs_Storage
  imports Customs_Slices
begin

text \<open>
  Persistence of clearance cases (\<open>modules/customs_clearance/src/infrastructure\<close>): the
  imperative mapping over \<open>customs.clearance_cases\<close> and \<open>clearance_case_documents\<close>, the
  constraints of both tables and the PostgreSQL repository. The documents of a case are kept
  with its row in the order they were filed, the order of their \<open>created_at\<close>, in which the
  relationship loads them.
\<close>

section \<open>The mapping\<close>

record document_row =
  dr_id :: uuid
  dr_document_type :: string
  dr_file_uuid :: uuid
  dr_is_verified :: bool
  dr_verified_by_inspector_id :: "string option"

record case_row =
  kr_id :: uuid
  kr_shipment_id :: string
  kr_status :: string
  kr_declaration_amount :: "pydecimal option"
  kr_declaration_currency :: "string option"
  kr_duty_amount :: "pydecimal option"
  kr_duty_currency :: "string option"
  kr_documents :: "document_row list"

definition document_to_row :: "document_registry_item \<Rightarrow> document_row" where
  "document_to_row d =
     \<lparr>dr_id = doc_id d, dr_document_type = document_type_value (doc_type d),
      dr_file_uuid = doc_file_uuid d, dr_is_verified = doc_is_verified d,
      dr_verified_by_inspector_id = doc_inspector d\<rparr>"

definition document_of_row :: "document_row \<Rightarrow> document_registry_item res" where
  "document_of_row r =
     (case document_type_of (dr_document_type r) of
        None \<Rightarrow> Inl (PyError ''LookupError'')
      | Some t \<Rightarrow> Inr \<lparr>doc_id = dr_id r, doc_type = t, doc_file_uuid = dr_file_uuid r,
                       doc_is_verified = dr_is_verified r,
                       doc_inspector = dr_verified_by_inspector_id r\<rparr>)"

definition case_to_row :: "clearance_case \<Rightarrow> case_row" where
  "case_to_row c =
     \<lparr>kr_id = cid_value (cc_id c), kr_shipment_id = cc_shipment_id c,
      kr_status = assessment_status_value (cc_status c),
      kr_declaration_amount = map_option amount_of (cc_declaration_value c),
      kr_declaration_currency = map_option currency (cc_declaration_value c),
      kr_duty_amount = map_option amount_of (cc_duty_fee c),
      kr_duty_currency = map_option currency (cc_duty_fee c),
      kr_documents = map document_to_row (cc_documents c)\<rparr>"

definition case_of_row :: "case_row \<Rightarrow> clearance_case res" where
  "case_of_row r =
     bindE (case assessment_status_of (kr_status r) of
              None \<Rightarrow> Inl (PyError ''LookupError'') | Some st \<Rightarrow> Inr st) (\<lambda>status.
     bindE (mk_case_id (PUuid (kr_id r))) (\<lambda>i.
     bindE (money_from_columns (kr_declaration_amount r) (kr_declaration_currency r)) (\<lambda>declared.
     bindE (money_from_columns (kr_duty_amount r) (kr_duty_currency r)) (\<lambda>duty.
     bindE (mapE document_of_row (kr_documents r)) (\<lambda>docs.
     Inr \<lparr>cc_id = i, cc_shipment_id = kr_shipment_id r, cc_status = status,
          cc_declaration_value = declared, cc_duty_fee = duty, cc_documents = docs\<rparr>)))))"

section \<open>The tables\<close>

text \<open>A \<open>Numeric(14, 2)\<close> column holds twelve digits before the point.\<close>

definition numeric_14_2_ok :: "pydecimal option \<Rightarrow> bool" where
  "numeric_14_2_ok d =
     (case d of
        Some (DFin s c e) \<Rightarrow> cents_of c e < 10 ^ 14
      | Some (DInf s) \<Rightarrow> False
      | _ \<Rightarrow> True)"

definition case_row_types_ok :: "case_row \<Rightarrow> bool" where
  "case_row_types_ok r \<longleftrightarrow>
     column_text 64 (kr_shipment_id r) \<and> column_text 32 (kr_status r)
     \<and> numeric_14_2_ok (kr_declaration_amount r) \<and> numeric_14_2_ok (kr_duty_amount r)
     \<and> (case kr_declaration_currency r of None \<Rightarrow> True | Some s \<Rightarrow> column_text 3 s)
     \<and> (case kr_duty_currency r of None \<Rightarrow> True | Some s \<Rightarrow> column_text 3 s)"

definition document_row_types_ok :: "document_row \<Rightarrow> bool" where
  "document_row_types_ok d \<longleftrightarrow>
     column_text 32 (dr_document_type d)
     \<and> (case dr_verified_by_inspector_id d of None \<Rightarrow> True
        | Some s \<Rightarrow> column_text MAX_INSPECTOR_ID_LENGTH s)"

definition document_check :: "document_row \<Rightarrow> exc option" where
  "document_check d =
     (if \<not> document_row_types_ok d then Some (PyError ''DBAPIError'')
      else if dr_document_type d \<notin> set (map document_type_value all_document_types)
      then Some (IntegrityError ''document_type'')
      else if \<not> (dr_is_verified d \<or> dr_verified_by_inspector_id d = None)
      then Some (IntegrityError ''inspector_only_when_verified'')
      else None)"

text \<open>
  The constraints of both tables on a case and its documents; \<open>others\<close> are the other cases,
  whose documents share the primary key of the document table.
\<close>

definition case_check :: "case_row \<Rightarrow> case_row list \<Rightarrow> exc option" where
  "case_check r others =
     (if \<not> case_row_types_ok r then Some (PyError ''DBAPIError'')
      else if kr_status r \<notin> set (map assessment_status_value all_assessment_statuses)
      then Some (IntegrityError ''assessment_status'')
      else if (kr_declaration_amount r = None) \<noteq> (kr_declaration_currency r = None)
      then Some (IntegrityError ''declaration_value_complete'')
      else if (kr_duty_amount r = None) \<noteq> (kr_duty_currency r = None)
      then Some (IntegrityError ''duty_fee_complete'')
      else case find (\<lambda>d. document_check d \<noteq> None) (kr_documents r) of
        Some d \<Rightarrow> document_check d
      | None \<Rightarrow>
          if \<not> distinct (map dr_id (kr_documents r @ concat (map kr_documents others)))
          then Some (IntegrityError ''pk_clearance_case_documents'')
          else if \<not> distinct (map dr_file_uuid (kr_documents r))
          then Some (IntegrityError ''uq_clearance_case_documents_case_file'')
          else None)"

section \<open>The repository\<close>

type_synonym case_table = "(case_id, case_row) table"

definition case_key :: "case_row \<Rightarrow> case_id" where
  "case_key r = CaseId (kr_id r)"

definition cases_persist :: "clearance_case \<Rightarrow> case_table \<Rightarrow> case_table res" where
  "cases_persist c = table_save (\<lambda>r. r) case_check case_key (case_to_row c)"

definition cases_find_by_id :: "case_id \<Rightarrow> case_table \<Rightarrow> clearance_case option res" where
  "cases_find_by_id i rows = load_mapped case_of_row (table_load i rows)"

text \<open>The first case of a shipment; without an \<open>ORDER BY\<close> the first one stored here.\<close>

definition cases_find_by_shipment_id :: "string \<Rightarrow> case_table \<Rightarrow> clearance_case option res" where
  "cases_find_by_shipment_id shipment_id rows =
     load_mapped case_of_row (find (\<lambda>r. kr_shipment_id r = shipment_id) (map snd rows))"

definition storable_case :: "clearance_case \<Rightarrow> bool" where
  "storable_case c \<longleftrightarrow>
     (case cc_declaration_value c of None \<Rightarrow> True | Some m \<Rightarrow> wf_money m)
     \<and> (case cc_duty_fee c of None \<Rightarrow> True | Some m \<Rightarrow> wf_money m)"

lemma document_row_round_trip: "document_of_row (document_to_row d) = Inr d"
  by (simp add: document_of_row_def document_to_row_def)

lemma money_columns_round_trip:
  "(case m of None \<Rightarrow> True | Some x \<Rightarrow> wf_money x) \<Longrightarrow>
   money_from_columns (map_option amount_of m) (map_option currency m) = Inr m"
  by (cases m) (simp_all add: money_from_columns_def [of None None] money_columns_of_wf)

lemma case_row_round_trip: "storable_case c \<Longrightarrow> case_of_row (case_to_row c) = Inr c"
proof -
  assume s: "storable_case c"
  have "mapE document_of_row (map document_to_row (cc_documents c)) = Inr (cc_documents c)"
    by (simp add: mapE_Inr_iff list_all2_map1 list_all2_same document_row_round_trip)
  then show ?thesis
    using s by (simp add: case_of_row_def case_to_row_def storable_case_def mk_case_id_def money_columns_round_trip)
qed

interpretation cases: mapped_store "\<lambda>r. r" "table_save (\<lambda>r. r) case_check case_key" table_load
  case_key case_to_row case_of_row cc_id storable_case
  by unfold_locales (simp add: case_row_round_trip, simp add: case_to_row_def case_key_def)

lemma cases_repository: "repository cases_persist cases_find_by_id cc_id storable_case"
proof -
  have "cases_persist = (\<lambda>c. table_save (\<lambda>r. r) case_check case_key (case_to_row c))"
    "cases_find_by_id = (\<lambda>k rows. load_mapped case_of_row (table_load k rows))"
    by (auto simp: cases_persist_def cases_find_by_id_def fun_eq_iff)
  then show ?thesis using cases.repository_axioms by simp
qed

interpretation case_db: customs_session
  "\<lambda>c. on_store (cases_persist c)" "\<lambda>i db. cases_find_by_id i (md_store db)" storable_case
  dests "schedule dests fresh now" md_outbox
  for dests :: destination_registry and fresh :: uuid and now :: int
  unfolding customs_session_def by (rule unit_of_work_on_store [OF cases_repository])

text \<open>
  A case that satisfies the invariant of the aggregate, with documents of identifiers no
  other case uses, violates no constraint.
\<close>

lemma document_check_wf:
  "wf_item d \<Longrightarrow> (\<And>i. doc_inspector d = Some i \<Longrightarrow> nul_free i) \<Longrightarrow> document_check (document_to_row d) = None"
  by (cases "doc_type d")
    (auto simp: document_check_def document_to_row_def document_row_types_ok_def wf_item_def column_text_def
      all_document_types_def split: option.splits)

lemma assessment_status_text: "column_text 32 (assessment_status_value s)"
  by (cases s) (simp_all add: column_text_def)

lemma case_row_accepted:
  assumes inv: "case_inv c" and len: "column_text 64 (cc_shipment_id c)"
    and inspectors: "\<And>d i. d \<in> set (cc_documents c) \<Longrightarrow> doc_inspector d = Some i \<Longrightarrow> nul_free i"
    and money: "cc_declaration_value c = None" "cc_duty_fee c = None"
    and ids: "distinct (map doc_id (cc_documents c))"
    and fresh: "\<And>r d. r \<in> set others \<Longrightarrow> d \<in> set (kr_documents r) \<Longrightarrow> dr_id d \<notin> doc_id ` set (cc_documents c)"
    and others: "distinct (map dr_id (concat (map kr_documents others)))"
  shows "case_check (case_to_row c) others = None"
proof -
  have docs: "find (\<lambda>d. document_check d \<noteq> None) (map document_to_row (cc_documents c)) = None"
    using inv inspectors by (auto simp: find_None_iff case_inv_def list_all_iff intro!: document_check_wf)
  have "dr_id \<circ> document_to_row = doc_id" "dr_file_uuid \<circ> document_to_row = doc_file_uuid"
    by (auto simp: document_to_row_def fun_eq_iff)
  moreover have "distinct (map doc_id (cc_documents c) @ map dr_id (concat (map kr_documents others)))"
    using ids others by (auto simp: map_concat) (metis fresh image_eqI)
  moreover have "distinct (map doc_file_uuid (cc_documents c))" using inv by (simp add: case_inv_def)
  ultimately show ?thesis
    using docs len money assessment_status_complete [of "cc_status c"] assessment_status_text [of "cc_status c"]
    by (simp add: case_check_def case_row_types_ok_def case_to_row_def numeric_14_2_ok_def)
qed

section \<open>The requests and the subscriber of the module\<close>

type_synonym customs_db = "case_table module_db"

definition attach_document_request ::
  "(customs_db \<Rightarrow> exc option) \<Rightarrow> uuid \<Rightarrow> string \<Rightarrow> attach_document_command \<Rightarrow> customs_db \<Rightarrow>
   attach_document_response res \<times> customs_db" where
  "attach_document_request commit =
     attach_document_endpoint (\<lambda>i db. cases_find_by_id i (md_store db)) (\<lambda>c. on_store (cases_persist c)) commit"

definition verify_document_request ::
  "destination_registry \<Rightarrow> uuid \<Rightarrow> int \<Rightarrow> (customs_db \<Rightarrow> exc option) \<Rightarrow> string \<Rightarrow> uuid \<Rightarrow>
   verify_document_command \<Rightarrow> customs_db \<Rightarrow> verify_document_response res \<times> customs_db" where
  "verify_document_request dests fresh now commit =
     verify_document_endpoint (\<lambda>i db. cases_find_by_id i (md_store db)) (\<lambda>c. on_store (cases_persist c))
       (schedule dests fresh now) commit"

lemma money_from_columns_wf: "money_from_columns a c = Inr (Some m) \<Longrightarrow> wf_money m"
  by (auto simp: money_from_columns_def bindE_Inr_iff validated_currency_Inr accepted_amount_Inr wf_money_def py_str
      split: if_splits option.splits)

text \<open>A loaded case can be stored again: its composites were validated.\<close>

lemma found_case_storable:
  assumes "cases_find_by_id i rows = Inr (Some c)"
  shows "storable_case c"
proof -
  obtain r where "case_of_row r = Inr c"
    using assms by (auto simp: cases_find_by_id_def load_mapped_def bindE_Inr_iff split: option.splits)
  then show ?thesis
    by (auto simp: case_of_row_def storable_case_def bindE_Inr_iff dest: money_from_columns_wf split: option.splits)
qed

lemma verify_document_storable: "verify_document i n c = Inr (c', ev) \<Longrightarrow> storable_case c' = storable_case c"
  by (auto simp: verify_document_Inr storable_case_def with_document_def split: if_splits)

lemma attach_document_storable: "attach_document u t f c = Inr (c', d) \<Longrightarrow> storable_case c' = storable_case c"
  by (auto simp: attach_document_Inr storable_case_def)

section \<open>Properties\<close>

text \<open>
  C12. Clearing a document over HTTP is all or nothing. A failed request leaves the database
  as it was. A successful one stores the case as the aggregate computed it, leaves every
  other case alone, and puts \<open>DocumentVerificationCompleted\<close> in the outbox exactly when the
  document was the last one missing.
\<close>

theorem verify_document_atomic:
  "case verify_document_request dests fresh now commit raw i cmd db of
     (Inl e, db') \<Rightarrow> db' = db
   | (Inr resp, db') \<Rightarrow>
       (\<exists>k c c' ev. mk_case_id (PStr raw) = Inr k \<and> cases_find_by_id k (md_store db) = Inr (Some c)
          \<and> verify_document i (PStr (vd_inspector_id cmd)) c = Inr (c', ev)
          \<and> (\<forall>q. cases_find_by_id q (md_store db') =
               (if q = cc_id c then Inr (Some c') else cases_find_by_id q (md_store db)))
          \<and> (if cc_status c = DOCUMENT_VERIFICATION \<and> has_complete_paperwork c'
             then \<exists>r. md_outbox db' = md_outbox db @ [r] \<and> announces dests (completed_event c) r
             else md_outbox db' = md_outbox db))"
proof (cases "verify_document_request dests fresh now commit raw i cmd db")
  case (Pair res db')
  show ?thesis
  proof (cases res)
    case (Inl e)
    then show ?thesis
      using Pair verify_endpoint_failure unfolding verify_document_request_def by fastforce
  next
    case (Inr resp)
    have h: "verify_document_endpoint (\<lambda>i db. cases_find_by_id i (md_store db)) (\<lambda>c. on_store (cases_persist c))
       (schedule dests fresh now) commit raw i cmd db = (Inr resp, db')"
      using Pair Inr by (simp add: verify_document_request_def)
    show ?thesis
    proof (rule case_db.verify_endpoint_success [OF h], goal_cases)
      case (1 k c c' ev d)
      note found = 1
      have "storable_case c'"
        using found_case_storable [OF found(2)] verify_document_storable [OF found(3)] by simp
      note find = found(7) [OF this]
      have ev: "ev = (if cc_status c = DOCUMENT_VERIFICATION \<and> has_complete_paperwork c'
          then Some (completed_event c) else None)"
        using found(3) by (auto simp: verify_document_Inr with_document_def has_complete_paperwork_def split: if_splits)
      have "if cc_status c = DOCUMENT_VERIFICATION \<and> has_complete_paperwork c'
          then \<exists>r. md_outbox db' = md_outbox db @ [r] \<and> announces dests (completed_event c) r
          else md_outbox db' = md_outbox db"
        using found(6) unfolding ev by (simp split: if_splits)
      then show ?case unfolding Pair Inr prod.case sum.case using found(1-3) find by blast
    qed
  qed
qed

text \<open>
  Filing a document over HTTP is all or nothing as well: a success appends exactly the
  document of the response, unverified, to exactly the case named, and writes no message.
\<close>

theorem attach_document_atomic:
  "case attach_document_request commit fresh raw cmd db of
     (Inl e, db') \<Rightarrow> db' = db
   | (Inr resp, db') \<Rightarrow>
       (\<exists>k c c' d. mk_case_id (PStr raw) = Inr k \<and> cases_find_by_id k (md_store db) = Inr (Some c)
          \<and> cc_documents c' = cc_documents c @ [d] \<and> \<not> doc_is_verified d \<and> doc_id d = fresh
          \<and> doc_file_uuid d = ad_file_uuid cmd \<and> \<not> holds_file (ad_file_uuid cmd) c
          \<and> resp = attach_document_response_of c' d \<and> md_outbox db' = md_outbox db
          \<and> (\<forall>q. cases_find_by_id q (md_store db') =
               (if q = cc_id c then Inr (Some c') else cases_find_by_id q (md_store db))))"
proof (cases "attach_document_request commit fresh raw cmd db")
  case (Pair res db')
  show ?thesis
  proof (cases res)
    case (Inl e)
    then show ?thesis
      using Pair attach_endpoint_failure unfolding attach_document_request_def by fastforce
  next
    case (Inr resp)
    have h: "attach_document_endpoint (\<lambda>i db. cases_find_by_id i (md_store db)) (\<lambda>c. on_store (cases_persist c))
       commit fresh raw cmd db = (Inr resp, db')"
      using Pair Inr by (simp add: attach_document_request_def)
    show ?thesis
    proof (rule case_db.attach_endpoint_success [OF h], goal_cases)
      case (1 k c c' d)
      note found = 1
      have "storable_case c'"
        using found_case_storable [OF found(2)] attach_document_storable [OF found(3)] by simp
      note find = found(6) [OF this]
      have "cc_documents c' = cc_documents c @ [d]" "\<not> doc_is_verified d" "doc_id d = fresh"
        "doc_file_uuid d = ad_file_uuid cmd" "\<not> holds_file (ad_file_uuid cmd) c"
        using found(3) by (auto simp: attach_document_Inr attach_item_Inr validated_file_uuid_def)
      then show ?case unfolding Pair Inr prod.case sum.case using found(1,2,4,5) find by blast
    qed
  qed
qed

subsection \<open>One case per message\<close>

lemma update_absent: "k \<notin> fst ` set al \<Longrightarrow> AList.update k v al = al @ [(k, v)]"
  by (induction al) auto

lemma customs_run_store:
  assumes "customs_run cases_persist fresh t h env db = Inr db'" "CaseId (fresh t) \<notin> fst ` set (md_store db)"
  obtains cmd r where "open_command_of_body (env_body env) = Inr cmd"
    "md_store db' = md_store db @ [(CaseId (fresh t), r)]"
    "kr_shipment_id r = strip (oc_shipment_id cmd)" "kr_status r = ''Opened''" "kr_documents r = []"
    "kr_id r = fresh t" "md_outbox db' = md_outbox db"
proof -
  obtain cmd c where cmd: "open_command_of_body (env_body env) = Inr cmd"
    and c: "open_for_shipment (CaseId (fresh t)) (PStr (oc_shipment_id cmd)) = Inr c"
    and p: "cases_persist c (md_store db) = Inr (md_store db')" and out: "md_outbox db' = md_outbox db"
    using assms(1)
    by (auto simp: customs_run_def open_case_message_handle_def open_clearance_case_handle_def
        bindE_Inr_iff on_store_Inr split: if_splits)
  have c': "case_to_row c = \<lparr>kr_id = fresh t, kr_shipment_id = strip (oc_shipment_id cmd), kr_status = ''Opened'',
      kr_declaration_amount = None, kr_declaration_currency = None, kr_duty_amount = None,
      kr_duty_currency = None, kr_documents = []\<rparr>"
    using c by (auto simp: open_for_shipment_def validated_shipment_id_def bindE_Inr_iff Let_def
        case_to_row_def split: if_splits)
  have "md_store db' = md_store db @ [(CaseId (fresh t), case_to_row c)]"
    using p assms(2) by (simp add: cases_persist_def table_save_Inr case_key_def c' update_absent)
  then show thesis using that [OF cmd] c' out by simp
qed

definition opened_from :: "message_envelope list \<Rightarrow> case_id \<times> case_row \<Rightarrow> bool" where
  "opened_from envs kr \<longleftrightarrow>
     fst kr = CaseId (kr_id (snd kr)) \<and> kr_status (snd kr) = ''Opened'' \<and> kr_documents (snd kr) = []
     \<and> (\<exists>env \<in> set envs. env_message_type env = SHIPMENT_MANIFEST_FINALIZED
         \<and> (\<exists>cmd. open_command_of_body (env_body env) = Inr cmd
              \<and> kr_shipment_id (snd kr) = strip (oc_shipment_id cmd)))"

definition opening_progress ::
  "(nat \<Rightarrow> uuid) \<Rightarrow> nat \<Rightarrow> nat \<Rightarrow> message_envelope list \<Rightarrow> customs_db \<Rightarrow> nat \<Rightarrow> customs_db \<Rightarrow> nat \<Rightarrow> bool" where
  "opening_progress fresh t0 T envs db0 t db n \<longleftrightarrow>
     t0 \<le> t \<and> (t \<le> T \<longrightarrow>
       md_outbox db = md_outbox db0
       \<and> (\<exists>opened. md_store db = md_store db0 @ opened \<and> length opened = n
            \<and> list_all (\<lambda>kr. opened_from envs kr \<and> kr_id (snd kr) \<in> fresh ` {t0..<t}) opened)
       \<and> (\<forall>s \<in> {t..<T}. CaseId (fresh s) \<notin> fst ` set (md_store db)))"

lemma opening_advances:
  assumes "inj_on fresh {t0..<T}" "env \<in> set envs"
    and "h \<in> set (handlers_for build_message_handlers (env_message_type env))"
  shows "advances (customs_run cases_persist fresh) commit (opening_progress fresh t0 T envs db0) env h"
  unfolding advances_def
proof (intro conjI allI impI)
  fix t db n assume "opening_progress fresh t0 T envs db0 t db n"
  then show "opening_progress fresh t0 T envs db0 (Suc t) db n"
    by (force simp: opening_progress_def list_all_iff)
next
  fix t db db' n
  assume I: "opening_progress fresh t0 T envs db0 t db n"
    and a: "attempt (customs_run cases_persist fresh) commit t h env db = (Inr True, db')"
  show "opening_progress fresh t0 T envs db0 (Suc t) db' (Suc n)"
  proof (cases "Suc t \<le> T")
    case False
    then show ?thesis using I by (simp add: opening_progress_def)
  next
    case True
    have ty: "env_message_type env = SHIPMENT_MANIFEST_FINALIZED"
      using assms(3) by (simp add: handlers_for_build split: if_splits)
    obtain db1 where run: "customs_run cases_persist fresh t h env db = Inr db1" and db1: "md_store db' = md_store db1" "md_outbox db' = md_outbox db1"
      using attempt_committed [OF a] .
    have free: "CaseId (fresh t) \<notin> fst ` set (md_store db)"
      using I True unfolding opening_progress_def by (simp del: set_map)
    obtain cmd r where r: "open_command_of_body (env_body env) = Inr cmd"
      "md_store db1 = md_store db @ [(CaseId (fresh t), r)]"
      "kr_shipment_id r = strip (oc_shipment_id cmd)" "kr_status r = ''Opened''" "kr_documents r = []"
      "kr_id r = fresh t" "md_outbox db1 = md_outbox db"
      using customs_run_store [OF run free] .
    have "opened_from envs (CaseId (fresh t), r)" using r ty assms(2) by (auto simp: opened_from_def)
    moreover have "fresh s \<noteq> fresh t" if "s \<in> {Suc t..<T}" for s
      using assms(1) that I by (auto simp: opening_progress_def dest: inj_onD)
    moreover obtain opened where o: "t0 \<le> t" "md_outbox db = md_outbox db0" "md_store db = md_store db0 @ opened"
      "length opened = n"
      "\<forall>kr \<in> set opened. opened_from envs kr \<and> kr_id (snd kr) \<in> fresh ` {t0..<t}"
      "\<forall>s \<in> {t..<T}. CaseId (fresh s) \<notin> fst ` set (md_store db)"
      using I True by (auto simp: opening_progress_def list_all_iff simp del: set_map)
    moreover have "kr_id (snd kr) \<in> fresh ` {t0..<Suc t}" if "kr \<in> set opened" for kr
      using o(5) that by force
    ultimately show ?thesis
      using r(2,6,7) db1 unfolding opening_progress_def
      by (auto simp: list_all_iff intro!: exI [of _ "opened @ [(CaseId (fresh t), r)]"])
  qed
qed

text \<open>
  C7. Messages may be redelivered in any number and order, handlers and commits may fail and
  be retried: the subscriber opens exactly one case per message identifier that it processed,
  each for the shipment that a delivered message names, touches no existing case, and records
  every processed identifier in the inbox once. (The identifiers that \<open>uuid4\<close> draws during
  the run are different from each other and from those in use.)
\<close>

theorem one_case_per_message:
  assumes "deliver_all (customs_run cases_persist fresh) commit build_message_handlers retries t envs db = (db', t', ks)"
    and "distinct (map inbox_key (md_inbox db))" "inj_on fresh {t..<t'}"
    and "\<And>s. s \<in> {t..<t'} \<Longrightarrow> CaseId (fresh s) \<notin> fst ` set (md_store db)"
  shows "\<exists>opened. md_store db' = md_store db @ opened \<and> list_all (opened_from envs) opened
    \<and> length opened = length ks \<and> distinct ks
    \<and> map inbox_key (md_inbox db') = map inbox_key (md_inbox db) @ ks"
proof -
  have "opening_progress fresh t t' envs db t' db' (0 + length ks)"
    by (rule deliver_all_advances [where I = "opening_progress fresh t t' envs db", OF assms(1)])
      (use assms(3,4) in \<open>auto simp: list_all_iff opening_progress_def intro!: opening_advances\<close>)
  moreover have "map inbox_key (md_inbox db') = map inbox_key (md_inbox db) @ ks" "distinct (map inbox_key (md_inbox db'))"
    using customs_handlers.deliver_all_inbox [OF assms(1,2)] by blast+
  moreover from this have "distinct ks" by (simp only: distinct_append)
  ultimately show ?thesis
    unfolding opening_progress_def list_all_iff by simp blast
qed

definition finalized_envelope :: "uuid \<Rightarrow> string \<Rightarrow> message_envelope" where
  "finalized_envelope mid shipment =
     \<lparr>env_message_id = mid, env_message_type = SHIPMENT_MANIFEST_FINALIZED,
      env_body = [(''shipment_id'', PStr shipment), (''commodity_code'', PStr ''8471'')], env_headers = []\<rparr>"

definition empty_customs_db :: customs_db where
  "empty_customs_db = \<lparr>md_store = [], md_outbox = [], md_inbox = []\<rparr>"

lemma one_case_per_message_witness:
  "\<exists>db' t' ks. deliver_all (customs_run cases_persist (\<lambda>t. of_nat t)) (\<lambda>_ _. None) build_message_handlers 3 0
       [finalized_envelope 5 ''S-1'', finalized_envelope 5 ''S-1''] empty_customs_db = (db', t', ks)
     \<and> length (md_store db') = length ks \<and> distinct ks"
proof -
  let ?r = "deliver_all (customs_run cases_persist (\<lambda>t. of_nat t)) (\<lambda>_ _. None) build_message_handlers 3 0
       [finalized_envelope 5 ''S-1'', finalized_envelope 5 ''S-1''] empty_customs_db"
  have "fst (snd ?r) = 2" by code_simp
  then obtain db' ks where r: "?r = (db', 2, ks)" by (cases ?r) auto
  have inj: "inj_on (\<lambda>t. of_nat t :: uuid) {0..<2}" by (auto simp: inj_on_def numeral_2_eq_2 less_Suc_eq)
  show ?thesis
    using one_case_per_message [OF r _ inj] r by (auto simp: empty_customs_db_def)
qed



end
