(* ===== verification/Storage_Location.thy ===== *)
theory Storage_Location
  imports App_Errors
begin

text \<open>
  Where a file lives on a disk (\<open>modules/files/src/domain/value_objects\<close>): the file
  identifier and the storage location, the module's security boundary. A location is built
  by the validators of its two halves; the lemmas say what a built one satisfies and when
  loading it from its columns gives it back.
\<close>

section \<open>File identifier\<close>

datatype file_id = FileId (fid_value: uuid)

definition mk_file_id :: "pyval \<Rightarrow> file_id res" where
  "mk_file_id raw =
     (case raw of
        PUuid u \<Rightarrow> Inr (FileId u)
      | PStr s \<Rightarrow> (case parse_uuid s of
                     None \<Rightarrow> Inl (files_exc InvalidFileIdError)
                   | Some u \<Rightarrow> Inr (FileId u))
      | _ \<Rightarrow> Inl (files_exc InvalidFileIdError))"

definition str_file_id :: "file_id \<Rightarrow> string" where
  "str_file_id i = show_uuid (fid_value i)"

lemma mk_str_file_id [simp]: "mk_file_id (PStr (str_file_id i)) = Inr i"
  by (simp add: mk_file_id_def str_file_id_def parse_show_uuid)

section \<open>Location\<close>

record storage_location =
  loc_path :: string
  loc_name :: string

definition MAX_PATH_LENGTH :: nat where
  "MAX_PATH_LENGTH = 512"

definition MAX_NAME_LENGTH :: nat where
  "MAX_NAME_LENGTH = 255"

definition TRAVERSAL_SEGMENTS :: "string set" where
  "TRAVERSAL_SEGMENTS = {''..'', ''.''}"

text \<open>The backslash and the slash.\<close>

definition backslash :: char where
  "backslash = CHR 0x5C"

definition slash_of :: "char \<Rightarrow> char" where
  "slash_of c = (if c = backslash then CHR ''/'' else c)"

definition reject_dangerous_characters :: "string \<Rightarrow> unit res" where
  "reject_dangerous_characters candidate =
     (if CHR 0x00 \<in> set candidate then Inl (files_exc InvalidStorageLocationError)
      else if starts_with ''~'' candidate then Inl (files_exc InvalidStorageLocationError)
      else if length candidate > 1 \<and> candidate ! 1 = CHR '':''
      then Inl (files_exc InvalidStorageLocationError)
      else Inr ())"

definition path_segments :: "string \<Rightarrow> string list" where
  "path_segments candidate = filter (\<lambda>s. s \<noteq> []) (split_on (CHR ''/'') candidate)"

definition validated_path :: "pyval \<Rightarrow> string res" where
  "validated_path value =
     (case value of
        PNone \<Rightarrow> Inr []
      | PStr s \<Rightarrow>
          (let candidate = map slash_of (strip s) in
           bindE (reject_dangerous_characters candidate) (\<lambda>_.
           let segments = path_segments candidate in
           if list_ex (\<lambda>seg. seg \<in> TRAVERSAL_SEGMENTS) segments
           then Inl (files_exc InvalidStorageLocationError)
           else
             (let normalized = join_with ''/'' segments in
              if length normalized > MAX_PATH_LENGTH
              then Inl (files_exc InvalidStorageLocationError)
              else Inr normalized)))
      | _ \<Rightarrow> Inl (files_exc InvalidStorageLocationError))"

definition validated_name :: "pyval \<Rightarrow> string res" where
  "validated_name value =
     (case value of
        PStr s \<Rightarrow>
          (let candidate = strip s in
           if candidate = [] then Inl (files_exc InvalidStorageLocationError)
           else
             bindE (reject_dangerous_characters candidate) (\<lambda>_.
             if CHR ''/'' \<in> set candidate \<or> backslash \<in> set candidate
             then Inl (files_exc InvalidStorageLocationError)
             else if candidate \<in> TRAVERSAL_SEGMENTS
             then Inl (files_exc InvalidStorageLocationError)
             else if length candidate > MAX_NAME_LENGTH
             then Inl (files_exc InvalidStorageLocationError)
             else Inr candidate))
      | _ \<Rightarrow> Inl (files_exc InvalidStorageLocationError))"

definition mk_storage_location :: "pyval \<Rightarrow> pyval \<Rightarrow> storage_location res" where
  "mk_storage_location path name =
     bindE (validated_path path) (\<lambda>p.
     bindE (validated_name name) (\<lambda>n.
     Inr \<lparr>loc_path = p, loc_name = n\<rparr>))"

definition key :: "storage_location \<Rightarrow> string" where
  "key l = (if loc_path l = [] then loc_name l else loc_path l @ ''/'' @ loc_name l)"

text \<open>\<open>name.rpartition(".")\<close>: what follows the last dot, \<open>None\<close> without one.\<close>

fun after_last :: "char \<Rightarrow> string \<Rightarrow> string option" where
  "after_last d [] = None"
| "after_last d (c # cs) =
     (case after_last d cs of
        Some r \<Rightarrow> Some r
      | None \<Rightarrow> if c = d then Some cs else None)"

definition extension :: "storage_location \<Rightarrow> string" where
  "extension l = (case after_last (CHR ''.'') (loc_name l) of None \<Rightarrow> [] | Some e \<Rightarrow> lower e)"

section \<open>What a location satisfies\<close>

definition safe_segment :: "string \<Rightarrow> bool" where
  "safe_segment s \<longleftrightarrow> s \<noteq> [] \<and> s \<notin> TRAVERSAL_SEGMENTS
     \<and> CHR ''/'' \<notin> set s \<and> backslash \<notin> set s \<and> CHR 0x00 \<notin> set s"

definition location_segments :: "storage_location \<Rightarrow> string list" where
  "location_segments l = path_segments (loc_path l) @ [loc_name l]"

definition wf_location :: "storage_location \<Rightarrow> bool" where
  "wf_location l \<longleftrightarrow>
     list_all safe_segment (location_segments l)
     \<and> join_with ''/'' (path_segments (loc_path l)) = loc_path l
     \<and> length (loc_path l) \<le> MAX_PATH_LENGTH \<and> length (loc_name l) \<le> MAX_NAME_LENGTH
     \<and> strip (loc_name l) = loc_name l
     \<and> reject_dangerous_characters (loc_name l) = Inr ()"

lemma reject_dangerous_Inr:
  "reject_dangerous_characters c = Inr u \<longleftrightarrow>
   CHR 0x00 \<notin> set c \<and> \<not> starts_with ''~'' c \<and> \<not> (length c > 1 \<and> c ! 1 = CHR '':'')"
  by (simp add: reject_dangerous_characters_def)

lemma reject_dangerous_Inl:
  "reject_dangerous_characters c = Inl e \<Longrightarrow> e = files_exc InvalidStorageLocationError"
  by (auto simp: reject_dangerous_characters_def split: if_splits)

lemma slash_not_backslash: "CHR ''/'' \<noteq> backslash"
  by (simp add: backslash_def)

lemma backslash_not_slashed: "backslash \<notin> set (map slash_of s)"
  using slash_not_backslash by (auto simp: slash_of_def)

lemma path_segments_join:
  "list_all (\<lambda>s. s \<noteq> [] \<and> CHR ''/'' \<notin> set s) segs \<Longrightarrow> path_segments (join_with ''/'' segs) = segs"
proof (cases "segs = []")
  case True
  then show ?thesis by (simp add: path_segments_def)
next
  case False
  assume a: "list_all (\<lambda>s. s \<noteq> [] \<and> CHR ''/'' \<notin> set s) segs"
  have "split_on (CHR ''/'') (join_with ''/'' segs) = segs"
    by (rule split_join) (use a False in \<open>auto simp: list_all_iff\<close>)
  then show ?thesis using a by (simp add: path_segments_def filter_id list_all_iff)
qed

lemma path_segments_chars:
  "s \<in> set (path_segments c) \<Longrightarrow> s \<noteq> [] \<and> CHR ''/'' \<notin> set s \<and> set s \<subseteq> set c"
  by (auto simp: path_segments_def split_on_no_sep dest: split_on_chars)

lemma validated_path_Inr:
  assumes "validated_path v = Inr p"
  shows "path_segments p = (case v of PStr s \<Rightarrow> path_segments (map slash_of (strip s)) | _ \<Rightarrow> [])"
    and "list_all safe_segment (path_segments p)" and "join_with ''/'' (path_segments p) = p"
    and "length p \<le> MAX_PATH_LENGTH"
proof -
  have "path_segments p = (case v of PStr s \<Rightarrow> path_segments (map slash_of (strip s)) | _ \<Rightarrow> [])
    \<and> list_all safe_segment (path_segments p) \<and> join_with ''/'' (path_segments p) = p
    \<and> length p \<le> MAX_PATH_LENGTH"
  proof (cases v)
    case PNone
    then show ?thesis using assms by (simp add: validated_path_def path_segments_def)
  next
    case (PStr s)
    let ?c = "map slash_of (strip s)"
    let ?segs = "path_segments ?c"
    have ok: "reject_dangerous_characters ?c = Inr ()" "\<not> list_ex (\<lambda>seg. seg \<in> TRAVERSAL_SEGMENTS) ?segs"
      "p = join_with ''/'' ?segs" "length p \<le> MAX_PATH_LENGTH"
      using assms PStr by (auto simp: validated_path_def Let_def bindE_Inr_iff split: if_splits)
    have segs: "path_segments p = ?segs"
      unfolding ok(3) by (rule path_segments_join) (auto simp: list_all_iff dest: path_segments_chars)
    have "safe_segment x" if x: "x \<in> set ?segs" for x
    proof -
      have sub: "x \<noteq> []" "CHR ''/'' \<notin> set x" "set x \<subseteq> set ?c" using path_segments_chars [OF x] by auto
      have "CHR 0x00 \<notin> set ?c" using ok(1) unfolding reject_dangerous_Inr by blast
      then have "CHR 0x00 \<notin> set x" "backslash \<notin> set x"
        using sub(3) backslash_not_slashed [of "strip s"] by blast+
      moreover have "x \<notin> TRAVERSAL_SEGMENTS" using ok(2) x unfolding list_ex_iff by blast
      ultimately show ?thesis using sub by (simp add: safe_segment_def)
    qed
    then have "list_all safe_segment ?segs" by (simp add: list_all_iff)
    then show ?thesis using segs ok PStr by simp
  qed (use assms in \<open>simp_all add: validated_path_def\<close>)
  then show "path_segments p = (case v of PStr s \<Rightarrow> path_segments (map slash_of (strip s)) | _ \<Rightarrow> [])"
    and "list_all safe_segment (path_segments p)" and "join_with ''/'' (path_segments p) = p"
    and "length p \<le> MAX_PATH_LENGTH" by blast+
qed

lemma validated_name_Inr:
  "validated_name v = Inr n \<longleftrightarrow>
   (\<exists>s. v = PStr s \<and> n = strip s \<and> safe_segment n \<and> reject_dangerous_characters n = Inr ()
     \<and> length n \<le> MAX_NAME_LENGTH)"
  by (auto simp: validated_name_def Let_def bindE_Inr_iff safe_segment_def reject_dangerous_Inr
      split: pyval.splits)

lemma mk_storage_location_wf: "mk_storage_location path name = Inr l \<Longrightarrow> wf_location l"
  by (auto simp: mk_storage_location_def bindE_Inr_iff wf_location_def location_segments_def
      validated_name_Inr py_str dest: validated_path_Inr)

lemma mk_storage_location_error:
  "mk_storage_location path name = Inl e \<Longrightarrow> e = files_exc InvalidStorageLocationError"
  by (auto simp: mk_storage_location_def bindE_Inl_iff validated_path_def validated_name_def Let_def
      dest: reject_dangerous_Inl split: pyval.splits if_splits)

text \<open>The key spells the segments, so it determines the location.\<close>

lemma key_segments: "wf_location l \<Longrightarrow> split_on (CHR ''/'') (key l) = location_segments l"
proof -
  assume wf: "wf_location l"
  have segs: "list_all (\<lambda>p. CHR ''/'' \<notin> set p) (location_segments l)"
    using wf by (auto simp: wf_location_def safe_segment_def list_all_iff)
  have "key l = join_with ''/'' (location_segments l)"
  proof (cases "path_segments (loc_path l) = []")
    case True
    then have "loc_path l = []" using wf by (simp add: wf_location_def)
    then show ?thesis using True by (simp add: key_def location_segments_def)
  next
    case False
    then have "loc_path l \<noteq> []" by (auto simp: path_segments_def)
    then show ?thesis using wf False
      by (simp add: key_def location_segments_def wf_location_def join_with_snoc)
  qed
  then show ?thesis using split_join segs by (simp add: location_segments_def)
qed

lemma key_inj:
  assumes "wf_location l" "wf_location l'" "key l = key l'"
  shows "l = l'"
proof -
  have "location_segments l = location_segments l'" using assms key_segments by metis
  then have "path_segments (loc_path l) = path_segments (loc_path l')" "loc_name l = loc_name l'"
    by (simp_all add: location_segments_def)
  then have "loc_path l = loc_path l'" using assms(1,2) by (metis wf_location_def)
  then show ?thesis using \<open>loc_name l = loc_name l'\<close> by simp
qed

section \<open>Loading a location\<close>

text \<open>
  The composite runs the validators on the stored halves. A path whose normal form is itself
  stripped and free of a leading tilde or drive letter comes back; the constructor does not
  promise that of every path it accepts.
\<close>

definition reloadable :: "storage_location \<Rightarrow> bool" where
  "reloadable l \<longleftrightarrow> strip (loc_path l) = loc_path l \<and> reject_dangerous_characters (loc_path l) = Inr ()"

lemma slash_of_id: "backslash \<notin> set s \<Longrightarrow> map slash_of s = s"
  by (auto simp: slash_of_def intro: map_idI)

lemma join_chars: "set (join_with ''/'' ps) \<subseteq> insert (CHR ''/'') (\<Union> (set ` set ps))"
  by (induction "''/''" ps rule: join_with.induct) auto

lemma path_chars_no_backslash:
  assumes "list_all safe_segment (path_segments p)" "join_with ''/'' (path_segments p) = p"
  shows "backslash \<notin> set p"
proof
  assume "backslash \<in> set p"
  then have "backslash \<in> set (join_with ''/'' (path_segments p))" unfolding assms(2) .
  then have "backslash \<in> insert (CHR ''/'') (\<Union> (set ` set (path_segments p)))"
    by (rule subsetD [OF join_chars])
  then have "backslash \<in> \<Union> (set ` set (path_segments p))"
    using slash_not_backslash by (simp only: insert_iff) (metis)
  then obtain x where "x \<in> set (path_segments p)" "backslash \<in> set x" by blast
  then show False using assms(1) by (auto simp: list_all_iff safe_segment_def)
qed

lemma reload_location:
  assumes "wf_location l" "reloadable l"
  shows "mk_storage_location (PStr (loc_path l)) (PStr (loc_name l)) = Inr l"
proof -
  have segs: "list_all safe_segment (path_segments (loc_path l))"
    "join_with ''/'' (path_segments (loc_path l)) = loc_path l" "safe_segment (loc_name l)"
    "length (loc_path l) \<le> MAX_PATH_LENGTH" "length (loc_name l) \<le> MAX_NAME_LENGTH"
    "strip (loc_name l) = loc_name l" "reject_dangerous_characters (loc_name l) = Inr ()"
    using assms(1) by (auto simp: wf_location_def location_segments_def)
  have "map slash_of (strip (loc_path l)) = loc_path l"
    using assms(2) path_chars_no_backslash [OF segs(1,2)] by (simp add: reloadable_def slash_of_id)
  then have "validated_path (PStr (loc_path l)) = Inr (loc_path l)"
    using assms(2) segs(1,2,4)
    by (auto simp: validated_path_def Let_def reloadable_def list_ex_iff list_all_iff safe_segment_def)
  moreover have "validated_name (PStr (loc_name l)) = Inr (loc_name l)"
    using segs(3,5-7) by (auto simp: validated_name_Inr intro!: exI [of _ "loc_name l"])
  ultimately show ?thesis by (simp add: mk_storage_location_def)
qed

end
