(* ===== verification/Stored_File.thy ===== *)
theory Stored_File
  imports Storage_Location
begin

text \<open>
  The StoredFile aggregate of the Files module (\<open>modules/files/src/domain\<close>): the reference
  to a thing of another bounded context and the aggregate root with its validators. The
  lemmas say what a registered file satisfies and that no two of its references point at the
  same thing.
\<close>

section \<open>References\<close>

definition MAX_FIELD_LENGTH :: nat where
  "MAX_FIELD_LENGTH = 128"

record file_reference =
  ref_context :: string
  ref_entity_type :: string
  ref_entity_id :: "string option"
  ref_entity_uuid :: "uuid option"
  ref_id :: "int option"

definition validated_text :: "pyval \<Rightarrow> string res" where
  "validated_text value =
     (case value of
        PStr s \<Rightarrow>
          (let t = strip s in
           if t = [] then Inl (files_exc InvalidFileReferenceError)
           else if length t > MAX_FIELD_LENGTH then Inl (files_exc InvalidFileReferenceError)
           else Inr t)
      | _ \<Rightarrow> Inl (files_exc InvalidFileReferenceError))"

text \<open>
  \<open>str\<close> of an integer: \<open>ValueError\<close> beyond 4300 digits, the interpreter's limit.
\<close>

definition MAX_STR_DIGITS :: nat where
  "MAX_STR_DIGITS = 4300"

definition str_int :: "int \<Rightarrow> string res" where
  "str_int i =
     (if MAX_STR_DIGITS < length (show_nat (nat \<bar>i\<bar>)) then Inl (PyError ''ValueError'')
      else Inr (show_int i))"

definition validated_identifier :: "pyval \<Rightarrow> string option res" where
  "validated_identifier value =
     (case value of
        PNone \<Rightarrow> Inr None
      | PBool b \<Rightarrow> Inl (files_exc InvalidFileReferenceError)
      | PInt i \<Rightarrow> bindE (str_int i) (\<lambda>s. Inr (Some s))
      | PUuid u \<Rightarrow> Inr (Some (show_uuid u))
      | PStr s \<Rightarrow>
          (let identifier = strip s in
           if identifier = [] then Inr None
           else if length identifier > MAX_FIELD_LENGTH
           then Inl (files_exc InvalidFileReferenceError)
           else Inr (Some identifier))
      | _ \<Rightarrow> Inl (files_exc InvalidFileReferenceError))"

definition validated_uuid :: "pyval \<Rightarrow> uuid option res" where
  "validated_uuid value =
     (case value of
        PNone \<Rightarrow> Inr None
      | PUuid u \<Rightarrow> Inr (Some u)
      | PStr s \<Rightarrow>
          (let candidate = strip s in
           if candidate = [] then Inr None
           else (case parse_uuid candidate of
                   None \<Rightarrow> Inl (files_exc InvalidFileReferenceError)
                 | Some u \<Rightarrow> Inr (Some u)))
      | _ \<Rightarrow> Inl (files_exc InvalidFileReferenceError))"

definition declare_reference :: "pyval \<Rightarrow> pyval \<Rightarrow> pyval \<Rightarrow> pyval \<Rightarrow> file_reference res" where
  "declare_reference context entity_type entity_id entity_uuid =
     bindE (validated_text context) (\<lambda>c.
     bindE (validated_text entity_type) (\<lambda>t.
     bindE (validated_identifier entity_id) (\<lambda>i.
     bindE (validated_uuid entity_uuid) (\<lambda>u.
     Inr \<lparr>ref_context = c, ref_entity_type = t, ref_entity_id = i, ref_entity_uuid = u, ref_id = None\<rparr>))))"

definition points_at :: "file_reference \<Rightarrow> file_reference \<Rightarrow> bool" where
  "points_at self other \<longleftrightarrow>
     ref_context other = ref_context self \<and> ref_entity_type other = ref_entity_type self
     \<and> ref_entity_id other = ref_entity_id self"

text \<open>What a reference points at.\<close>

definition ref_target :: "file_reference \<Rightarrow> string \<times> string \<times> string option" where
  "ref_target r = (ref_context r, ref_entity_type r, ref_entity_id r)"

lemma points_at_target: "points_at r s \<longleftrightarrow> ref_target r = ref_target s"
  by (auto simp: points_at_def ref_target_def)

definition wf_text :: "string \<Rightarrow> bool" where
  "wf_text s \<longleftrightarrow> s \<noteq> [] \<and> strip s = s \<and> length s \<le> MAX_FIELD_LENGTH"

lemma validated_text_Inr: "validated_text v = Inr t \<longleftrightarrow> (\<exists>s. v = PStr s \<and> t = strip s \<and> wf_text t)"
  by (auto simp: validated_text_def Let_def wf_text_def py_str split: pyval.splits)

lemma declare_reference_wf:
  "declare_reference c t i u = Inr r \<Longrightarrow> wf_text (ref_context r) \<and> wf_text (ref_entity_type r) \<and> ref_id r = None"
  by (auto simp: declare_reference_def bindE_Inr_iff validated_text_Inr)

section \<open>The aggregate\<close>

definition DEFAULT_CONTENT_TYPE :: string where
  "DEFAULT_CONTENT_TYPE = ''application/octet-stream''"

definition MAX_DISK_LENGTH :: nat where
  "MAX_DISK_LENGTH = 32"

definition MAX_CONTENT_TYPE_LENGTH :: nat where
  "MAX_CONTENT_TYPE_LENGTH = 255"

record stored_file =
  sf_id :: file_id
  sf_disk :: string
  sf_location :: storage_location
  sf_size_bytes :: int
  sf_content_type :: string
  sf_checksum :: string
  sf_metadata :: "pyval dict"
  sf_references :: "file_reference list"

definition validated_disk :: "pyval \<Rightarrow> string res" where
  "validated_disk value =
     (case value of
        PStr s \<Rightarrow>
          (let disk = lower (strip s) in
           if disk = [] then Inl (files_exc InvalidStoredFileError)
           else if length disk > MAX_DISK_LENGTH then Inl (files_exc InvalidStoredFileError)
           else Inr disk)
      | _ \<Rightarrow> Inl (files_exc InvalidStoredFileError))"

definition validated_size :: "pyval \<Rightarrow> int res" where
  "validated_size value =
     (case value of
        PInt i \<Rightarrow> if i \<le> 0 then Inl (files_exc InvalidStoredFileError) else Inr i
      | _ \<Rightarrow> Inl (files_exc InvalidStoredFileError))"

definition validated_content_type :: "pyval \<Rightarrow> string res" where
  "validated_content_type value =
     (case value of
        PNone \<Rightarrow> Inr DEFAULT_CONTENT_TYPE
      | PStr s \<Rightarrow>
          (let content_type = (if strip s = [] then DEFAULT_CONTENT_TYPE else strip s) in
           if length content_type > MAX_CONTENT_TYPE_LENGTH
           then Inl (files_exc InvalidStoredFileError) else Inr content_type)
      | _ \<Rightarrow> Inl (files_exc InvalidStoredFileError))"

definition validated_checksum :: "pyval \<Rightarrow> string res" where
  "validated_checksum value =
     (case value of
        PStr s \<Rightarrow> if strip s = [] then Inl (files_exc InvalidStoredFileError) else Inr (strip s)
      | _ \<Rightarrow> Inl (files_exc InvalidStoredFileError))"

text \<open>Every key a string; the copy has the same items.\<close>

definition string_key :: "pyval \<times> pyval \<Rightarrow> (string \<times> pyval) res" where
  "string_key kv =
     (case fst kv of
        PStr k \<Rightarrow> Inr (k, snd kv)
      | _ \<Rightarrow> Inl (files_exc InvalidStoredFileError))"

definition validated_metadata :: "pyval \<Rightarrow> pyval dict res" where
  "validated_metadata value =
     (case value of
        PNone \<Rightarrow> Inr []
      | PDict kvs \<Rightarrow> mapE string_key kvs
      | _ \<Rightarrow> Inl (files_exc InvalidStoredFileError))"

text \<open>
  \<open>relate_to\<close>: the argument is a \<open>FileReference\<close> or a value of any other class.
\<close>

definition relate_to :: "file_reference + pyval \<Rightarrow> stored_file \<Rightarrow> stored_file res" where
  "relate_to reference f =
     (case reference of
        Inr v \<Rightarrow> Inl (files_exc InvalidStoredFileError)
      | Inl r \<Rightarrow>
          if list_ex (\<lambda>existing. points_at existing r) (sf_references f) then Inr f
          else Inr (f\<lparr>sf_references := sf_references f @ [r]\<rparr>))"

fun relate_all :: "(file_reference + pyval) list \<Rightarrow> stored_file \<Rightarrow> stored_file res" where
  "relate_all [] f = Inr f"
| "relate_all (r # rs) f = bindE (relate_to r f) (relate_all rs)"

definition register_file ::
  "file_id \<Rightarrow> pyval \<Rightarrow> storage_location \<Rightarrow> pyval \<Rightarrow> pyval \<Rightarrow> pyval \<Rightarrow> pyval \<Rightarrow>
   (file_reference + pyval) list \<Rightarrow> stored_file res" where
  "register_file i disk location sz content_type checksum meta references =
     bindE (validated_disk disk) (\<lambda>d.
     bindE (validated_size sz) (\<lambda>n.
     bindE (validated_content_type content_type) (\<lambda>ct.
     bindE (validated_checksum checksum) (\<lambda>cs.
     bindE (validated_metadata meta) (\<lambda>md.
     relate_all references
       \<lparr>sf_id = i, sf_disk = d, sf_location = location, sf_size_bytes = n, sf_content_type = ct,
        sf_checksum = cs, sf_metadata = md, sf_references = []\<rparr>)))))"

definition is_referenced_by :: "string \<Rightarrow> string \<Rightarrow> string option \<Rightarrow> stored_file \<Rightarrow> bool" where
  "is_referenced_by context entity_type entity_id f =
     list_ex (\<lambda>r. ref_context r = context \<and> ref_entity_type r = entity_type
               \<and> (entity_id = None \<or> ref_entity_id r = entity_id)) (sf_references f)"

definition file_key :: "stored_file \<Rightarrow> string" where
  "file_key f = key (sf_location f)"

section \<open>What a registered file satisfies\<close>

definition file_inv :: "stored_file \<Rightarrow> bool" where
  "file_inv f \<longleftrightarrow>
     sf_disk f \<noteq> [] \<and> lower (strip (sf_disk f)) = sf_disk f \<and> length (sf_disk f) \<le> MAX_DISK_LENGTH
     \<and> 0 < sf_size_bytes f
     \<and> sf_content_type f \<noteq> [] \<and> length (sf_content_type f) \<le> MAX_CONTENT_TYPE_LENGTH
     \<and> sf_checksum f \<noteq> [] \<and> strip (sf_checksum f) = sf_checksum f
     \<and> distinct (map ref_target (sf_references f))"

lemma holds_target:
  "list_ex (\<lambda>existing. points_at existing x) rs \<longleftrightarrow> ref_target x \<in> ref_target ` set rs"
  unfolding points_at_target list_ex_iff image_iff by metis

lemma relate_to_Inr:
  "relate_to r f = Inr f' \<longleftrightarrow>
   (\<exists>x. r = Inl x \<and> f' = (if ref_target x \<in> ref_target ` set (sf_references f) then f
                          else f\<lparr>sf_references := sf_references f @ [x]\<rparr>))"
  by (cases r) (auto simp: relate_to_def holds_target)

lemma relate_to_inv: "relate_to r f = Inr f' \<Longrightarrow> file_inv f \<Longrightarrow> file_inv f'"
  by (auto simp: relate_to_Inr file_inv_def split: if_splits)

lemma relate_all_inv: "relate_all rs f = Inr f' \<Longrightarrow> file_inv f \<Longrightarrow> file_inv f'"
  by (induction rs f rule: relate_all.induct) (auto simp: bindE_Inr_iff dest: relate_to_inv)

text \<open>Nothing but the references changes.\<close>

lemma relate_all_frame:
  "relate_all rs f = Inr f' \<Longrightarrow> f' = f\<lparr>sf_references := sf_references f'\<rparr>"
proof (induction rs f rule: relate_all.induct)
  case (1 f)
  then show ?case by simp
next
  case (2 r rs f)
  then obtain g where g: "relate_to r f = Inr g" "relate_all rs g = Inr f'" by (auto simp: bindE_Inr_iff)
  have "f' = g\<lparr>sf_references := sf_references f'\<rparr>" using "2.IH" [OF g] .
  moreover have "g\<lparr>sf_references := x\<rparr> = f\<lparr>sf_references := x\<rparr>" for x
    using g(1) by (auto simp: relate_to_Inr)
  ultimately show ?case by metis
qed

text \<open>The references that stay are the first of each target, in the order they were given.\<close>

fun first_targets :: "(string \<times> string \<times> string option) set \<Rightarrow> file_reference list \<Rightarrow> file_reference list" where
  "first_targets seen [] = []"
| "first_targets seen (r # rs) =
     (if ref_target r \<in> seen then first_targets seen rs
      else r # first_targets (insert (ref_target r) seen) rs)"

lemma relate_all_references:
  "relate_all (map Inl rs) f = Inr (f\<lparr>sf_references := sf_references f @ first_targets (ref_target ` set (sf_references f)) rs\<rparr>)"
proof (induction rs arbitrary: f)
  case Nil
  then show ?case by simp
next
  case (Cons r rs)
  let ?g = "if ref_target r \<in> ref_target ` set (sf_references f) then f
            else f\<lparr>sf_references := sf_references f @ [r]\<rparr>"
  have "relate_to (Inl r) f = Inr ?g" by (simp add: relate_to_Inr)
  then show ?case using Cons [of ?g] by simp
qed

lemma first_targets_spec:
  "distinct (map ref_target (first_targets seen rs))
   \<and> ref_target ` set (first_targets seen rs) = ref_target ` set rs - seen
   \<and> set (first_targets seen rs) \<subseteq> set rs"
  by (induction seen rs rule: first_targets.induct) auto

lemma register_file_Inr:
  assumes "register_file i disk location sz ct cs md rs = Inr f"
  shows "file_inv f" "sf_id f = i" "sf_location f = location" "PInt (sf_size_bytes f) = sz"
    "validated_disk disk = Inr (sf_disk f)" "validated_checksum cs = Inr (sf_checksum f)"
proof -
  obtain d n ct' cs' md' where p: "validated_disk disk = Inr d" "validated_size sz = Inr n"
    "validated_content_type ct = Inr ct'" "validated_checksum cs = Inr cs'" "validated_metadata md = Inr md'"
    and all: "relate_all rs \<lparr>sf_id = i, sf_disk = d, sf_location = location, sf_size_bytes = n,
      sf_content_type = ct', sf_checksum = cs', sf_metadata = md', sf_references = []\<rparr> = Inr f"
    using assms by (auto simp: register_file_def bindE_Inr_iff)
  note frame = relate_all_frame [OF all]
  have c: "ct' \<noteq> [] \<and> length ct' \<le> MAX_CONTENT_TYPE_LENGTH"
    using p(3) by (auto simp: validated_content_type_def Let_def DEFAULT_CONTENT_TYPE_def
        MAX_CONTENT_TYPE_LENGTH_def split: pyval.splits if_splits)
  have d: "d \<noteq> [] \<and> lower (strip d) = d \<and> length d \<le> MAX_DISK_LENGTH"
    using p(1) by (auto simp: validated_disk_def Let_def py_str split: pyval.splits if_splits)
  have n: "0 < n \<and> sz = PInt n" using p(2) by (auto simp: validated_size_def split: pyval.splits if_splits)
  have cs: "cs' \<noteq> [] \<and> strip cs' = cs'"
    using p(4) by (auto simp: validated_checksum_def py_str split: pyval.splits if_splits)
  show "file_inv f"
    by (rule relate_all_inv [OF all]) (use c d n cs in \<open>simp add: file_inv_def\<close>)
  have "sf_id f = i" "sf_location f = location" "sf_size_bytes f = n" "sf_disk f = d" "sf_checksum f = cs'"
    by (subst frame, simp)+
  then show "sf_id f = i" "sf_location f = location" "PInt (sf_size_bytes f) = sz"
    "validated_disk disk = Inr (sf_disk f)" "validated_checksum cs = Inr (sf_checksum f)"
    using n p by simp_all
qed

section \<open>Property\<close>



end
