(* ===== verification/File_Storage.thy ===== *)
theory File_Storage
  imports Stored_File Settings
begin

text \<open>
  Where the bytes go (\<open>modules/files/src/infrastructure/storage\<close>): the registry of disks
  built from the settings and the one adapter, over fsspec. fsspec and its drivers are not
  part of the repository: a file system is a record of functions over a world \<open>'w\<close>, and
  what the adapter relies on are the laws of the locale \<open>fsspec_backend\<close>. The storage port
  (\<open>domain/services/file_storage.py\<close>) is the locale \<open>file_storage\<close>; the adapter gives it.
\<close>

section \<open>Disks\<close>

record disk_config =
  dk_name :: string
  dk_protocol :: string
  dk_root :: string
  dk_options :: "pyval dict"
  dk_extra :: "string option"

type_synonym disk_registry = "disk_config dict"

definition LOCAL_DISK :: string where "LOCAL_DISK = ''local''"
definition GCP_DISK :: string where "GCP_DISK = ''gcp''"
definition AWS_DISK :: string where "AWS_DISK = ''aws''"
definition SFTP_DISK :: string where "SFTP_DISK = ''sftp''"

text \<open>An option that is only passed on when it is set.\<close>

definition opt_str :: "string \<Rightarrow> string \<Rightarrow> pyval dict" where
  "opt_str k v = (if v = [] then [] else [(k, PStr v)])"

definition local_disk :: "settings \<Rightarrow> disk_config" where
  "local_disk s =
     \<lparr>dk_name = LOCAL_DISK, dk_protocol = ''file'', dk_root = files_local_root s,
      dk_options = [(''auto_mkdir'', PBool True)], dk_extra = None\<rparr>"

definition gcp_disk :: "settings \<Rightarrow> disk_config" where
  "gcp_disk s =
     \<lparr>dk_name = GCP_DISK, dk_protocol = ''gcs'', dk_root = files_gcp_bucket s,
      dk_options = opt_str ''project'' (files_gcp_project s) @ opt_str ''token'' (files_gcp_credentials_path s),
      dk_extra = Some ''gcp''\<rparr>"

definition aws_disk :: "settings \<Rightarrow> disk_config" where
  "aws_disk s =
     (let client_kwargs = opt_str ''region_name'' (files_aws_region s)
                          @ opt_str ''endpoint_url'' (files_aws_endpoint_url s) in
      \<lparr>dk_name = AWS_DISK, dk_protocol = ''s3'', dk_root = files_aws_bucket s,
       dk_options = [(''client_kwargs'', PDict (map (\<lambda>(k, v). (PStr k, v)) client_kwargs))]
         @ opt_str ''key'' (files_aws_access_key_id s) @ opt_str ''secret'' (files_aws_secret_access_key s),
       dk_extra = Some ''aws''\<rparr>)"

definition sftp_disk :: "settings \<Rightarrow> disk_config" where
  "sftp_disk s =
     \<lparr>dk_name = SFTP_DISK, dk_protocol = ''sftp'', dk_root = files_sftp_root s,
      dk_options = [(''host'', PStr (files_sftp_host s)), (''port'', PInt (files_sftp_port s))]
        @ opt_str ''username'' (files_sftp_username s) @ opt_str ''password'' (files_sftp_password s)
        @ opt_str ''key_filename'' (files_sftp_private_key_path s),
      dk_extra = Some ''sftp''\<rparr>"

definition build_disk_registry :: "settings \<Rightarrow> disk_registry" where
  "build_disk_registry s =
     [(LOCAL_DISK, local_disk s)]
     @ (if files_gcp_bucket s = [] then [] else [(GCP_DISK, gcp_disk s)])
     @ (if files_aws_bucket s = [] then [] else [(AWS_DISK, aws_disk s)])
     @ (if files_sftp_host s = [] then [] else [(SFTP_DISK, sftp_disk s)])"

text \<open>Disks are told apart by their protocols, and their names are in normal form.\<close>

definition wf_disks :: "disk_registry \<Rightarrow> bool" where
  "wf_disks disks \<longleftrightarrow>
     distinct (map fst disks) \<and> distinct (map (dk_protocol \<circ> snd) disks)
     \<and> list_all (\<lambda>(n, c). dk_name c = n \<and> lower (strip n) = n \<and> n \<noteq> [] \<and> length n \<le> MAX_DISK_LENGTH) disks"

lemma disk_names: "lower (strip LOCAL_DISK) = LOCAL_DISK" "lower (strip GCP_DISK) = GCP_DISK"
  "lower (strip AWS_DISK) = AWS_DISK" "lower (strip SFTP_DISK) = SFTP_DISK"
  by code_simp+

lemma build_disk_registry_wf: "wf_disks (build_disk_registry s)"
  using disk_names
  by (auto simp: wf_disks_def build_disk_registry_def local_disk_def gcp_disk_def aws_disk_def sftp_disk_def
      Let_def LOCAL_DISK_def GCP_DISK_def AWS_DISK_def SFTP_DISK_def MAX_DISK_LENGTH_def)

lemma wf_disks_inj:
  assumes "wf_disks disks" "map_of disks d = Some c" "map_of disks d' = Some c'" "dk_protocol c = dk_protocol c'"
  shows "d = d'"
proof -
  have "(d, c) \<in> set disks" "(d', c') \<in> set disks" using assms(2,3) by (auto dest: map_of_SomeD)
  moreover have "inj_on (dk_protocol \<circ> snd) (set disks)" using assms(1) by (simp add: wf_disks_def distinct_map)
  moreover have "(dk_protocol \<circ> snd) (d, c) = (dk_protocol \<circ> snd) (d', c')" using assms(4) by simp
  ultimately have "(d, c) = (d', c')" by (metis inj_onD)
  then show ?thesis by simp
qed

section \<open>File systems\<close>

type_synonym bytes = "8 word list"

text \<open>
  The exceptions of a driver, by the classes the adapter tells apart. A handle is the
  protocol and the options a file system is opened with.
\<close>

datatype fs_error = OsErr | ImportErr | ValueErr | OtherErr string

fun exc_of :: "fs_error \<Rightarrow> exc" where
  "exc_of OsErr = PyError ''OSError''"
| "exc_of ImportErr = PyError ''ImportError''"
| "exc_of ValueErr = PyError ''ValueError''"
| "exc_of (OtherErr n) = PyError n"

type_synonym fs_handle = "string \<times> pyval dict"

record 'w fsspec =
  fs_open :: "fs_handle \<Rightarrow> fs_error option"
  fs_exists :: "fs_handle \<Rightarrow> string \<Rightarrow> 'w \<Rightarrow> fs_error + bool"
  fs_makedirs :: "fs_handle \<Rightarrow> string \<Rightarrow> 'w \<Rightarrow> fs_error option \<times> 'w"
  fs_write :: "fs_handle \<Rightarrow> string \<Rightarrow> bytes \<Rightarrow> 'w \<Rightarrow> fs_error option \<times> 'w"
  fs_rm :: "fs_handle \<Rightarrow> string \<Rightarrow> 'w \<Rightarrow> fs_error option \<times> 'w"

section \<open>The adapter\<close>

record stored_object =
  so_size_bytes :: int
  so_checksum :: string

definition CHECKSUM_ALGORITHM :: string where
  "CHECKSUM_ALGORITHM = ''sha256''"

definition disk_names_of :: "disk_registry \<Rightarrow> string list" where
  "disk_names_of disks = map fst disks"

definition supports :: "disk_registry \<Rightarrow> string \<Rightarrow> bool" where
  "supports disks disk \<longleftrightarrow> disk \<in> set (disk_names_of disks)"

definition unknown_disk :: "disk_registry \<Rightarrow> exc" where
  "unknown_disk disks =
     AppError (Files UnknownStorageDiskError) [(''configured_disks'', PList (map PStr (disk_names_of disks)))]"

definition storage_config :: "disk_registry \<Rightarrow> string \<Rightarrow> disk_config res" where
  "storage_config disks disk =
     (case map_of disks disk of None \<Rightarrow> Inl (unknown_disk disks) | Some c \<Rightarrow> Inr c)"

definition filesystem :: "'w fsspec \<Rightarrow> disk_config \<Rightarrow> fs_handle res" where
  "filesystem fs c =
     (let h = (dk_protocol c, dk_options c) in
      case fs_open fs h of
        None \<Rightarrow> Inr h
      | Some ImportErr \<Rightarrow> Inl (files_exc StorageBackendUnavailableError)
      | Some ValueErr \<Rightarrow> Inl (files_exc StorageBackendUnavailableError)
      | Some e \<Rightarrow> Inl (exc_of e))"

definition root_prefix :: "disk_config \<Rightarrow> string" where
  "root_prefix c = (let root = rstrip_of (\<lambda>ch. ch = CHR ''/'') (dk_root c) in if root = [] then [] else root @ ''/'')"

definition absolute :: "disk_config \<Rightarrow> string \<Rightarrow> string" where
  "absolute c k = root_prefix c @ k"

text \<open>\<open>except OSError\<close> around the calls of the file system.\<close>

definition os_guard :: "fs_error \<Rightarrow> exc" where
  "os_guard e = (if e = OsErr then files_exc StorageBackendUnavailableError else exc_of e)"

definition before_last :: "char \<Rightarrow> string \<Rightarrow> string" where
  "before_last sep s = rev (drop 1 (dropWhile (\<lambda>c. c \<noteq> sep) (rev s)))"

definition storage_write ::
  "'w fsspec \<Rightarrow> disk_config \<Rightarrow> string \<Rightarrow> bytes \<Rightarrow> 'w \<Rightarrow> unit res \<times> 'w" where
  "storage_write fs c k source w =
     (case filesystem fs c of
        Inl e \<Rightarrow> (Inl e, w)
      | Inr h \<Rightarrow>
          (let target = absolute c k;
               made = (if CHR ''/'' \<in> set target then fs_makedirs fs h (before_last (CHR ''/'') target) w
                       else (None, w))
           in case made of
                (Some e, w1) \<Rightarrow> (Inl (os_guard e), w1)
              | (None, w1) \<Rightarrow>
                  (case fs_write fs h target source w1 of
                     (Some e, w2) \<Rightarrow> (Inl (os_guard e), w2)
                   | (None, w2) \<Rightarrow> (Inr (), w2))))"

definition storage_exists :: "'w fsspec \<Rightarrow> disk_registry \<Rightarrow> string \<Rightarrow> string \<Rightarrow> 'w \<Rightarrow> bool res" where
  "storage_exists fs disks disk k w =
     bindE (storage_config disks disk) (\<lambda>c.
     bindE (filesystem fs c) (\<lambda>h.
     case fs_exists fs h (absolute c k) w of
       Inl e \<Rightarrow> Inl (os_guard e)
     | Inr b \<Rightarrow> Inr b))"

definition storage_delete ::
  "'w fsspec \<Rightarrow> disk_registry \<Rightarrow> string \<Rightarrow> string \<Rightarrow> 'w \<Rightarrow> unit res \<times> 'w" where
  "storage_delete fs disks disk k w =
     (case bindE (storage_config disks disk) (\<lambda>c. bindE (filesystem fs c) (\<lambda>h. Inr (c, h))) of
        Inl e \<Rightarrow> (Inl e, w)
      | Inr (c, h) \<Rightarrow>
          (case fs_exists fs h (absolute c k) w of
             Inl e \<Rightarrow> (Inl (os_guard e), w)
           | Inr False \<Rightarrow> (Inr (), w)
           | Inr True \<Rightarrow>
               (case fs_rm fs h (absolute c k) w of
                  (Some e, w') \<Rightarrow> (Inl (os_guard e), w')
                | (None, w') \<Rightarrow> (Inr (), w'))))"

text \<open>The spool: the chunks are measured as they arrive, and the limit stops the stream.\<close>

fun spool :: "int \<Rightarrow> nat \<Rightarrow> bytes \<Rightarrow> bytes list \<Rightarrow> (nat \<times> bytes) res" where
  "spool limit n acc [] = Inr (n, acc)"
| "spool limit n acc (chunk # chunks) =
     (let n' = n + length chunk in
      if int n' > limit then Inl (files_exc FileTooLargeError)
      else spool limit n' (acc @ chunk) chunks)"

text \<open>\<open>hexdigest\<close> is the SHA-256 digest in hexadecimal.\<close>

definition storage_put ::
  "(bytes \<Rightarrow> string) \<Rightarrow> 'w fsspec \<Rightarrow> disk_registry \<Rightarrow> int \<Rightarrow> string \<Rightarrow> string \<Rightarrow> bytes list \<Rightarrow> 'w \<Rightarrow>
   stored_object res \<times> 'w" where
  "storage_put hexdigest fs disks limit disk k chunks w =
     (case bindE (storage_config disks disk) (\<lambda>c. bindE (spool limit 0 [] chunks) (\<lambda>p. Inr (c, p))) of
        Inl e \<Rightarrow> (Inl e, w)
      | Inr (c, n, data) \<Rightarrow>
          (case storage_write fs c k data w of
             (Inl e, w') \<Rightarrow> (Inl e, w')
           | (Inr u, w') \<Rightarrow>
               (Inr \<lparr>so_size_bytes = int n, so_checksum = CHECKSUM_ALGORITHM @ '':'' @ hexdigest data\<rparr>, w')))"

text \<open>Stopping at the first chunk over the limit accepts exactly the uploads within it.\<close>

lemma spool_total:
  "int n \<le> limit \<Longrightarrow> spool limit n acc chunks =
   (if limit < int (n + length (concat chunks)) then Inl (files_exc FileTooLargeError)
    else Inr (n + length (concat chunks), acc @ concat chunks))"
  by (induction limit n acc chunks rule: spool.induct) (auto simp: Let_def)

lemma spool_limit:
  "0 \<le> limit \<Longrightarrow> spool limit 0 [] chunks =
   (if limit < int (length (concat chunks)) then Inl (files_exc FileTooLargeError)
    else Inr (length (concat chunks), concat chunks))"
  by (simp add: spool_total)

section \<open>What the adapter relies on and gives\<close>

text \<open>
  A key is a path of safe segments, as a storage location builds it. Two keys under one
  prefix name two different objects.
\<close>

definition key_path :: "string \<Rightarrow> bool" where
  "key_path k \<longleftrightarrow> list_all safe_segment (split_on (CHR ''/'') k)"

definition path_prefix :: "string \<Rightarrow> bool" where
  "path_prefix r \<longleftrightarrow> r = [] \<or> last r = CHR ''/''"

text \<open>
  The laws of fsspec: what \<open>exists\<close> denies is not there; making directories touches no
  object; a write or a removal that returns has happened, and neither touches an object of
  another protocol or another key under the same prefix, whether it returns or raises.
\<close>

locale fsspec_backend =
  fixes fs :: "'w fsspec"
    and obj_at :: "fs_handle \<Rightarrow> string \<Rightarrow> 'w \<Rightarrow> bytes option"
  assumes exists_denied: "fs_exists fs h p w = Inr False \<Longrightarrow> obj_at h p w = None"
    and makedirs_frame: "fs_makedirs fs h p w = (x, w') \<Longrightarrow> obj_at h' q w' = obj_at h' q w"
    and write_done: "fs_write fs h p d w = (None, w') \<Longrightarrow> obj_at h p w' = Some d"
    and write_frame: "fs_write fs h (r @ k) d w = (x, w') \<Longrightarrow> path_prefix r \<Longrightarrow> key_path k \<Longrightarrow> key_path k' \<Longrightarrow>
      fst h' \<noteq> fst h \<or> (h' = h \<and> q = r @ k' \<and> k' \<noteq> k) \<Longrightarrow> obj_at h' q w' = obj_at h' q w"
    and rm_done: "fs_rm fs h p w = (None, w') \<Longrightarrow> obj_at h p w' = None"
    and rm_frame: "fs_rm fs h (r @ k) w = (x, w') \<Longrightarrow> path_prefix r \<Longrightarrow> key_path k \<Longrightarrow> key_path k' \<Longrightarrow>
      fst h' \<noteq> fst h \<or> (h' = h \<and> q = r @ k' \<and> k' \<noteq> k) \<Longrightarrow> obj_at h' q w' = obj_at h' q w"

text \<open>The port: the operations of one deployment, and the object at a key of a disk.\<close>

locale file_storage =
  fixes supported :: "string \<Rightarrow> bool"
    and exists :: "string \<Rightarrow> string \<Rightarrow> 'w \<Rightarrow> bool res"
    and put :: "string \<Rightarrow> string \<Rightarrow> bytes list \<Rightarrow> 'w \<Rightarrow> stored_object res \<times> 'w"
    and delete :: "string \<Rightarrow> string \<Rightarrow> 'w \<Rightarrow> unit res \<times> 'w"
    and object_at :: "string \<Rightarrow> string \<Rightarrow> 'w \<Rightarrow> bytes option"
    and digest :: "bytes \<Rightarrow> string"
    and limit :: int
  assumes exists_free: "exists d k w = Inr False \<Longrightarrow> object_at d k w = None"
    and put_done: "put d k cs w = (Inr s, w') \<Longrightarrow>
      object_at d k w' = Some (concat cs) \<and> int (length (concat cs)) \<le> limit
      \<and> s = \<lparr>so_size_bytes = int (length (concat cs)), so_checksum = digest (concat cs)\<rparr>"
    and put_too_large: "limit < int (length (concat cs)) \<Longrightarrow> supported d \<Longrightarrow>
      put d k cs w = (Inl (files_exc FileTooLargeError), w)"
    and put_frame: "put d k cs w = (x, w') \<Longrightarrow> key_path k \<Longrightarrow> key_path k' \<Longrightarrow> (d', k') \<noteq> (d, k) \<Longrightarrow>
      object_at d' k' w' = object_at d' k' w"
    and delete_done: "delete d k w = (Inr (), w') \<Longrightarrow> object_at d k w' = None"
    and delete_frame: "delete d k w = (y, w') \<Longrightarrow> key_path k \<Longrightarrow> key_path k' \<Longrightarrow> (d', k') \<noteq> (d, k) \<Longrightarrow>
      object_at d' k' w' = object_at d' k' w"

locale fsspec_storage = fsspec_backend fs obj_at
  for fs :: "'w fsspec" and obj_at :: "fs_handle \<Rightarrow> string \<Rightarrow> 'w \<Rightarrow> bytes option" +
  fixes disks :: disk_registry
    and upload_limit :: int
  assumes disks_wf: "wf_disks disks"
    and limit_nonneg: "0 \<le> upload_limit"

definition disk_object ::
  "(fs_handle \<Rightarrow> string \<Rightarrow> 'w \<Rightarrow> bytes option) \<Rightarrow> disk_registry \<Rightarrow> string \<Rightarrow> string \<Rightarrow> 'w \<Rightarrow> bytes option" where
  "disk_object obj_at disks d k w =
     (case map_of disks d of
        None \<Rightarrow> None
      | Some c \<Rightarrow> obj_at (dk_protocol c, dk_options c) (absolute c k) w)"

definition checksum_of :: "(bytes \<Rightarrow> string) \<Rightarrow> bytes \<Rightarrow> string" where
  "checksum_of hexdigest data = CHECKSUM_ALGORITHM @ '':'' @ hexdigest data"

lemma root_prefix_ok: "path_prefix (root_prefix c)"
  by (simp add: path_prefix_def root_prefix_def Let_def)

lemma storage_config_Inr: "storage_config disks d = Inr c \<longleftrightarrow> map_of disks d = Some c"
  by (simp add: storage_config_def split: option.splits)

lemma filesystem_Inr: "filesystem fs c = Inr h \<Longrightarrow> h = (dk_protocol c, dk_options c)"
  by (auto simp: filesystem_def Let_def split: option.splits fs_error.splits)

lemma supports_map_of: "supports disks d \<longleftrightarrow> map_of disks d \<noteq> None"
  by (simp add: supports_def disk_names_of_def map_of_eq_None_iff)

context fsspec_storage begin

text \<open>Two keys of the disks are two places of the file systems.\<close>

lemma other_place:
  assumes "map_of disks d = Some c" "map_of disks d' = Some c'" "(d', k') \<noteq> (d, k)"
  shows "dk_protocol c' \<noteq> dk_protocol c \<or>
    ((dk_protocol c', dk_options c') = (dk_protocol c, dk_options c)
     \<and> absolute c' k' = root_prefix c @ k' \<and> k' \<noteq> k)"
proof (cases "d' = d")
  case True
  then show ?thesis using assms by (simp add: absolute_def)
next
  case False
  then show ?thesis using wf_disks_inj [OF disks_wf assms(1,2)] by auto
qed

lemma write_other:
  assumes w: "storage_write fs c k data w = (x, w')" and c: "map_of disks d = Some c"
    and k: "key_path k" "key_path k'" and ne: "(d', k') \<noteq> (d, k)"
  shows "disk_object obj_at disks d' k' w' = disk_object obj_at disks d' k' w"
proof (cases "map_of disks d'")
  case None
  then show ?thesis by (simp add: disk_object_def)
next
  case (Some c')
  note place = other_place [OF c Some ne]
  show ?thesis
  proof (cases "filesystem fs c")
    case (Inl e)
    then show ?thesis using w by (simp add: storage_write_def)
  next
    case (Inr h)
    have h: "h = (dk_protocol c, dk_options c)" by (rule filesystem_Inr [OF Inr])
    obtain m w1 where made: "(if CHR ''/'' \<in> set (absolute c k)
        then fs_makedirs fs h (before_last (CHR ''/'') (absolute c k)) w else (None, w)) = (m, w1)" by fastforce
    have keep: "obj_at h' q w1 = obj_at h' q w" for h' q
      using made makedirs_frame by (auto split: if_splits)
    show ?thesis
    proof (cases m)
      case (Some e)
      then show ?thesis using w Inr made keep \<open>map_of disks d' = Some c'\<close>
        by (simp add: storage_write_def Let_def disk_object_def)
    next
      case None
      obtain y w2 where wr: "fs_write fs h (absolute c k) data w1 = (y, w2)" by fastforce
      have "w' = w2" using w Inr made None wr by (auto simp: storage_write_def Let_def split: option.splits)
      moreover have "obj_at (dk_protocol c', dk_options c') (absolute c' k') w2
          = obj_at (dk_protocol c', dk_options c') (absolute c' k') w1"
        by (rule write_frame [OF wr [unfolded absolute_def] root_prefix_ok k]) (use place h in auto)
      ultimately show ?thesis using keep \<open>map_of disks d' = Some c'\<close> by (simp add: disk_object_def)
    qed
  qed
qed

lemma write_stores:
  assumes "storage_write fs c k data w = (Inr u, w')" "map_of disks d = Some c"
  shows "disk_object obj_at disks d k w' = Some data"
proof -
  obtain h where h: "filesystem fs c = Inr h"
    using assms(1) by (auto simp: storage_write_def split: sum.splits)
  then obtain w1 where "fs_write fs h (absolute c k) data w1 = (None, w')"
    using assms(1) by (auto simp: storage_write_def Let_def split: prod.splits option.splits)
  then show ?thesis using write_done filesystem_Inr [OF h] assms(2) by (simp add: disk_object_def)
qed

end

sublocale fsspec_storage \<subseteq> file_storage "supports disks" "storage_exists fs disks"
  "storage_put hexdigest fs disks upload_limit" "storage_delete fs disks" "disk_object obj_at disks"
  "checksum_of hexdigest" upload_limit
  for hexdigest
proof unfold_locales
  fix d k w assume "storage_exists fs disks d k w = Inr False"
  then obtain c h where c: "map_of disks d = Some c" and h: "filesystem fs c = Inr h"
    and ex: "(case fs_exists fs h (absolute c k) w of Inl e \<Rightarrow> Inl (os_guard e) | Inr b \<Rightarrow> Inr b) = Inr False"
    by (auto simp: storage_exists_def bindE_Inr_iff storage_config_Inr)
  from ex have "fs_exists fs h (absolute c k) w = Inr False" by (simp split: sum.splits)
  then show "disk_object obj_at disks d k w = None"
    using exists_denied filesystem_Inr [OF h] c by (simp add: disk_object_def)
next
  fix d k cs w s w' assume p: "storage_put hexdigest fs disks upload_limit d k cs w = (Inr s, w')"
  then obtain c n data where c: "map_of disks d = Some c" and sp: "spool upload_limit 0 [] cs = Inr (n, data)"
    and wr: "storage_write fs c k data w = (Inr (), w')"
    and s: "s = \<lparr>so_size_bytes = int n, so_checksum = CHECKSUM_ALGORITHM @ '':'' @ hexdigest data\<rparr>"
    by (auto simp: storage_put_def bindE_Inr_iff storage_config_Inr split: sum.splits prod.splits)
  then show "disk_object obj_at disks d k w' = Some (concat cs) \<and> int (length (concat cs)) \<le> upload_limit
      \<and> s = \<lparr>so_size_bytes = int (length (concat cs)), so_checksum = checksum_of hexdigest (concat cs)\<rparr>"
    using write_stores [OF wr c] spool_limit [OF limit_nonneg, of cs] by (auto simp: checksum_of_def split: if_splits)
next
  fix cs :: "bytes list" and d k w assume "upload_limit < int (length (concat cs))" "supports disks d"
  then show "storage_put hexdigest fs disks upload_limit d k cs w = (Inl (files_exc FileTooLargeError), w)"
    using spool_limit [OF limit_nonneg, of cs]
    by (auto simp: storage_put_def storage_config_def supports_map_of)
next
  fix d k cs w x w' d' k'
  assume p: "storage_put hexdigest fs disks upload_limit d k cs w = (x, w')"
    and k: "key_path k" "key_path k'" and ne: "(d', k') \<noteq> (d, k)"
  show "disk_object obj_at disks d' k' w' = disk_object obj_at disks d' k' w"
  proof (cases "bindE (storage_config disks d) (\<lambda>c. bindE (spool upload_limit 0 [] cs) (\<lambda>p. Inr (c, p)))")
    case (Inl e)
    then show ?thesis using p by (simp add: storage_put_def)
  next
    case (Inr t)
    then obtain c n data where c: "map_of disks d = Some c" and t: "t = (c, n, data)"
      by (cases t) (auto simp: bindE_Inr_iff storage_config_Inr)
    obtain y w1 where wr: "storage_write fs c k data w = (y, w1)" by fastforce
    then have "w' = w1" using p Inr t by (auto simp: storage_put_def split: sum.splits)
    then show ?thesis using write_other [OF wr c k ne] by simp
  qed
next
  fix d k w w' assume p: "storage_delete fs disks d k w = (Inr (), w')"
  then obtain c h where c: "map_of disks d = Some c" and h: "filesystem fs c = Inr h"
    by (auto simp: storage_delete_def bindE_Inr_iff storage_config_Inr split: sum.splits)
  then have "fs_exists fs h (absolute c k) w = Inr False \<and> w' = w \<or> fs_rm fs h (absolute c k) w = (None, w')"
    using p by (auto simp: storage_delete_def storage_config_Inr storage_config_def
        split: sum.splits bool.splits prod.splits option.splits)
  then show "disk_object obj_at disks d k w' = None"
    using exists_denied rm_done filesystem_Inr [OF h] c by (auto simp: disk_object_def)
next
  fix d k w x w' d' k'
  assume p: "storage_delete fs disks d k w = (x, w')"
    and k: "key_path k" "key_path k'" and ne: "(d', k') \<noteq> (d, k)"
  show "disk_object obj_at disks d' k' w' = disk_object obj_at disks d' k' w"
  proof (cases "w' = w")
    case False
    then obtain c h y where c: "map_of disks d = Some c" and h: "filesystem fs c = Inr h"
      and rm: "fs_rm fs h (absolute c k) w = (y, w')"
      using p by (auto simp: storage_delete_def bindE_Inr_iff storage_config_Inr
          split: sum.splits bool.splits prod.splits option.splits)
    show ?thesis
    proof (cases "map_of disks d'")
      case (Some c')
      have "obj_at (dk_protocol c', dk_options c') (absolute c' k') w'
          = obj_at (dk_protocol c', dk_options c') (absolute c' k') w"
        by (rule rm_frame [OF rm [unfolded absolute_def] root_prefix_ok k])
          (use other_place [OF c Some ne] filesystem_Inr [OF h] in auto)
      then show ?thesis using Some by (simp add: disk_object_def)
    qed (simp add: disk_object_def)
  qed simp
qed

context fsspec_storage begin

text \<open>The adapter gives the port.\<close>

lemma storage_port:
  "file_storage (supports disks) (storage_exists fs disks) (storage_put hexdigest fs disks upload_limit)
     (storage_delete fs disks) (disk_object obj_at disks) (checksum_of hexdigest) upload_limit"
  by unfold_locales

end

section \<open>A file system in memory\<close>

text \<open>Objects by protocol and path; every driver is installed and nothing ever fails.\<close>

type_synonym memory = "((string \<times> string) \<times> bytes) list"

definition memory_fs :: "memory fsspec" where
  "memory_fs =
     \<lparr>fs_open = (\<lambda>h. None),
      fs_exists = (\<lambda>h p w. Inr (map_of w (fst h, p) \<noteq> None)),
      fs_makedirs = (\<lambda>h p w. (None, w)),
      fs_write = (\<lambda>h p d w. (None, AList.update (fst h, p) d w)),
      fs_rm = (\<lambda>h p w. (None, AList.delete (fst h, p) w))\<rparr>"

definition memory_at :: "fs_handle \<Rightarrow> string \<Rightarrow> memory \<Rightarrow> bytes option" where
  "memory_at h p w = map_of w (fst h, p)"

interpretation memory: fsspec_backend memory_fs memory_at
  by unfold_locales
    (auto simp: memory_fs_def memory_at_def update_conv' delete_conv' split: if_splits)

text \<open>The deployment's disks over it, under any limit that is not negative.\<close>

lemma deployed_storage:
  "0 \<le> limit \<Longrightarrow> fsspec_storage memory_fs memory_at (build_disk_registry s) limit"
  by (intro fsspec_storage.intro fsspec_storage_axioms.intro memory.fsspec_backend_axioms build_disk_registry_wf)

interpretation deployed: fsspec_storage memory_fs memory_at "build_disk_registry s"
  "files_max_upload_bytes default_settings"
  for s :: settings
  by (rule deployed_storage) (simp add: default_settings_def)

section \<open>Keys under the root of a disk\<close>

text \<open>
  C29. Whatever path and name a client sends, the key of an accepted location is made of plain
  segments (no empty one, no traversal, no separator inside), so on every disk the object
  lies below the root, and two locations of a disk are two places.
\<close>

theorem location_stays_below_root:
  assumes "mk_storage_location p n = Inr l" "mk_storage_location p' n' = Inr l'"
  shows "list_all safe_segment (split_on (CHR ''/'') (key l))
    \<and> absolute c (key l) = root_prefix c @ key l
    \<and> (absolute c (key l) = absolute c (key l') \<longleftrightarrow> l = l')"
  using mk_storage_location_wf [OF assms(1)] mk_storage_location_wf [OF assms(2)] key_inj [of l l']
  by (auto simp: key_segments absolute_def wf_location_def)

theorem location_stays_below_root_witness:
  "absolute (local_disk default_settings) (key \<lparr>loc_path = ''a/b'', loc_name = ''c.pdf''\<rparr>)
     = ''/app/storage/'' @ ''a/b/c.pdf''"
proof -
  have l: "mk_storage_location (PStr ''a//b/'') (PStr '' c.pdf'') = Inr \<lparr>loc_path = ''a/b'', loc_name = ''c.pdf''\<rparr>"
    "root_prefix (local_disk default_settings) = ''/app/storage/''"
    "key \<lparr>loc_path = ''a/b'', loc_name = ''c.pdf''\<rparr> = ''a/b/c.pdf''"
    by code_simp+
  from location_stays_below_root [OF l(1) l(1), of "local_disk default_settings"] l(2,3) show ?thesis by simp
qed

end
