(* ===== verification/Files_Storage.thy ===== *)
theory Files_Storage
  imports Stored_File Persistence
begin

text \<open>
  Persistence of stored files (\<open>modules/files/src/infrastructure\<close>): the imperative mapping
  over \<open>files.files\<close> and \<open>files.file_references\<close>, the constraints of both tables and the
  PostgreSQL repository with its translation of a location conflict. What the \<open>JSONB\<close> column
  keeps of the metadata is an argument (\<open>None\<close>: the database refuses the document). The
  references of a file are loaded in the order of their rows.
\<close>

section \<open>Rows\<close>

record file_row =
  fl_disk :: string
  fl_path :: string
  fl_name :: string
  fl_size_bytes :: int
  fl_content_type :: string
  fl_checksum :: string
  fl_metadata :: "pyval dict"

record reference_row =
  rr_id :: int
  rr_file_id :: file_id
  rr_context :: string
  rr_entity_type :: string
  rr_entity_id :: "string option"
  rr_entity_uuid :: "uuid option"

record files_db =
  fd_files :: "(file_id \<times> file_row) list"
  fd_references :: "reference_row list"
  fd_next_reference :: int

definition file_to_row :: "stored_file \<Rightarrow> file_row" where
  "file_to_row f =
     \<lparr>fl_disk = sf_disk f, fl_path = loc_path (sf_location f), fl_name = loc_name (sf_location f),
      fl_size_bytes = sf_size_bytes f, fl_content_type = sf_content_type f,
      fl_checksum = sf_checksum f, fl_metadata = sf_metadata f\<rparr>"

definition reference_to_row :: "file_id \<Rightarrow> file_reference \<Rightarrow> reference_row" where
  "reference_to_row i r =
     \<lparr>rr_id = the (ref_id r), rr_file_id = i, rr_context = ref_context r,
      rr_entity_type = ref_entity_type r, rr_entity_id = ref_entity_id r,
      rr_entity_uuid = ref_entity_uuid r\<rparr>"

definition reference_of_row :: "reference_row \<Rightarrow> file_reference" where
  "reference_of_row r =
     \<lparr>ref_context = rr_context r, ref_entity_type = rr_entity_type r, ref_entity_id = rr_entity_id r,
      ref_entity_uuid = rr_entity_uuid r, ref_id = Some (rr_id r)\<rparr>"

text \<open>The composites run the constructors of the value objects again.\<close>

definition file_of_row :: "file_id \<Rightarrow> file_row \<Rightarrow> file_reference list \<Rightarrow> stored_file res" where
  "file_of_row i r refs =
     bindE (mk_file_id (PUuid (fid_value i))) (\<lambda>fid.
     bindE (mk_storage_location (PStr (fl_path r)) (PStr (fl_name r))) (\<lambda>l.
     Inr \<lparr>sf_id = fid, sf_disk = fl_disk r, sf_location = l, sf_size_bytes = fl_size_bytes r,
          sf_content_type = fl_content_type r, sf_checksum = fl_checksum r,
          sf_metadata = fl_metadata r, sf_references = refs\<rparr>))"

section \<open>The tables\<close>

definition LOCATION_CONSTRAINT :: string where
  "LOCATION_CONSTRAINT = ''uq_files_disk_path_name''"

definition file_row_types_ok :: "file_row \<Rightarrow> bool" where
  "file_row_types_ok r \<longleftrightarrow>
     column_text MAX_DISK_LENGTH (fl_disk r) \<and> column_text MAX_PATH_LENGTH (fl_path r)
     \<and> column_text MAX_NAME_LENGTH (fl_name r) \<and> column_text MAX_CONTENT_TYPE_LENGTH (fl_content_type r)
     \<and> column_text 128 (fl_checksum r) \<and> - (2 ^ 63) \<le> fl_size_bytes r \<and> fl_size_bytes r < 2 ^ 63"

definition reference_types_ok :: "file_reference \<Rightarrow> bool" where
  "reference_types_ok r \<longleftrightarrow>
     column_text MAX_FIELD_LENGTH (ref_context r) \<and> column_text MAX_FIELD_LENGTH (ref_entity_type r)
     \<and> (case ref_entity_id r of None \<Rightarrow> True | Some s \<Rightarrow> column_text MAX_FIELD_LENGTH s)"

definition same_location :: "file_row \<Rightarrow> file_row \<Rightarrow> bool" where
  "same_location r x \<longleftrightarrow> fl_disk x = fl_disk r \<and> fl_path x = fl_path r \<and> fl_name x = fl_name r"

text \<open>The first violated constraint of the files table.\<close>

definition file_check :: "file_row \<Rightarrow> file_row list \<Rightarrow> exc option" where
  "file_check r others =
     (if \<not> file_row_types_ok r then Some (PyError ''DBAPIError'')
      else if fl_size_bytes r \<le> 0 then Some (IntegrityError ''size_bytes_positive'')
      else if list_ex (same_location r) others then Some (IntegrityError LOCATION_CONSTRAINT)
      else None)"

text \<open>The identity column numbers the new references; the others keep their key.\<close>

fun assign_ids :: "int \<Rightarrow> file_reference list \<Rightarrow> file_reference list \<times> int" where
  "assign_ids n [] = ([], n)"
| "assign_ids n (r # rs) =
     (case ref_id r of
        Some i \<Rightarrow> (let (rs', n') = assign_ids n rs in (r # rs', n'))
      | None \<Rightarrow> (let (rs', n') = assign_ids (n + 1) rs in (r\<lparr>ref_id := Some n\<rparr> # rs', n')))"

text \<open>
  \<open>NULLS NOT DISTINCT\<close>: two references of one file to the same target violate the unique
  constraint, without an identifier as well.
\<close>

definition references_check :: "file_reference list \<Rightarrow> exc option" where
  "references_check refs =
     (if \<not> list_all reference_types_ok refs then Some (PyError ''DBAPIError'')
      else if \<not> distinct (map ref_target refs) then Some (IntegrityError ''uq_file_references_file_id_owner'')
      else None)"

section \<open>The repository\<close>

definition references_of :: "file_id \<Rightarrow> files_db \<Rightarrow> file_reference list" where
  "references_of i db = map reference_of_row (filter (\<lambda>r. rr_file_id r = i) (fd_references db))"

text \<open>
  The flush: the row of the file, then those of its references; references that left the
  aggregate are deleted with it.
\<close>

definition files_flush ::
  "(pyval dict \<Rightarrow> pyval dict option) \<Rightarrow> stored_file \<Rightarrow> files_db \<Rightarrow> (stored_file \<times> files_db) res" where
  "files_flush jsonb f db =
     (let row = file_to_row f; others = other_rows (sf_id f) (fd_files db) in
      case file_check row others of
        Some e \<Rightarrow> Inl e
      | None \<Rightarrow>
          (case jsonb (fl_metadata row) of
             None \<Rightarrow> Inl (PyError ''DBAPIError'')
           | Some md \<Rightarrow>
               (let (refs, n) = assign_ids (fd_next_reference db) (sf_references f) in
                case references_check refs of
                  Some e \<Rightarrow> Inl e
                | None \<Rightarrow>
                    Inr (f\<lparr>sf_references := refs\<rparr>,
                         \<lparr>fd_files = AList.update (sf_id f) (row\<lparr>fl_metadata := md\<rparr>) (fd_files db),
                          fd_references = filter (\<lambda>r. rr_file_id r \<noteq> sf_id f) (fd_references db)
                                          @ map (reference_to_row (sf_id f)) refs,
                          fd_next_reference = n\<rparr>))))"

text \<open>\<open>sub in s\<close>.\<close>

fun contains :: "string \<Rightarrow> string \<Rightarrow> bool" where
  "contains sub [] = (sub = [])"
| "contains sub (c # cs) = (starts_with sub (c # cs) \<or> contains sub cs)"

definition location_conflict :: "exc \<Rightarrow> exc" where
  "location_conflict e =
     (case e of
        IntegrityError m \<Rightarrow> if contains LOCATION_CONSTRAINT m then files_exc FileAlreadyStoredError else e
      | _ \<Rightarrow> e)"

definition files_persist ::
  "(pyval dict \<Rightarrow> pyval dict option) \<Rightarrow> stored_file \<Rightarrow> files_db \<Rightarrow> (stored_file \<times> files_db) res" where
  "files_persist jsonb f db =
     (case files_flush jsonb f db of Inl e \<Rightarrow> Inl (location_conflict e) | Inr x \<Rightarrow> Inr x)"

definition files_find_by_id :: "file_id \<Rightarrow> files_db \<Rightarrow> stored_file option res" where
  "files_find_by_id i db =
     (case map_of (fd_files db) i of
        None \<Rightarrow> Inr None
      | Some r \<Rightarrow> bindE (file_of_row i r (references_of i db)) (\<lambda>f. Inr (Some f)))"

definition reference_matches :: "string \<Rightarrow> string \<Rightarrow> string option \<Rightarrow> reference_row \<Rightarrow> bool" where
  "reference_matches context entity_type entity_id r \<longleftrightarrow>
     rr_context r = context \<and> rr_entity_type r = entity_type
     \<and> (entity_id = None \<or> rr_entity_id r = entity_id)"

text \<open>\<open>unique()\<close> keeps the first of equal rows.\<close>

definition unique_rows :: "'a list \<Rightarrow> 'a list" where
  "unique_rows xs = rev (remdups (rev xs))"

definition files_find_by_reference ::
  "string \<Rightarrow> string \<Rightarrow> string option \<Rightarrow> files_db \<Rightarrow> stored_file list res" where
  "files_find_by_reference context entity_type entity_id db =
     (let hits = sort_key rr_id (filter (reference_matches context entity_type entity_id) (fd_references db))
      in bindE (mapE (\<lambda>i. files_find_by_id i db) (unique_rows (map rr_file_id hits)))
           (\<lambda>fs. Inr (concat (map (\<lambda>f. case f of None \<Rightarrow> [] | Some x \<Rightarrow> [x]) fs))))"

section \<open>What the repository promises\<close>

lemma assign_ids_spec:
  "assign_ids n rs = (rs', n') \<Longrightarrow>
   map ref_target rs' = map ref_target rs \<and> list_all (\<lambda>r. ref_id r \<noteq> None) rs' \<and> n \<le> n'
   \<and> map (\<lambda>r. r\<lparr>ref_id := None\<rparr>) rs' = map (\<lambda>r. r\<lparr>ref_id := None\<rparr>) rs
   \<and> (list_all (\<lambda>r. ref_id r = None) rs \<longrightarrow> map ref_id rs' = map Some [n..n + int (length rs) - 1])"
proof (induction n rs arbitrary: rs' n' rule: assign_ids.induct)
  case (1 n)
  then show ?case by simp
next
  case (2 n r rs)
  show ?case
  proof (cases "ref_id r")
    case None
    obtain xs m where a: "assign_ids (n + 1) rs = (xs, m)" by fastforce
    have eq: "rs' = r\<lparr>ref_id := Some n\<rparr> # xs" "n' = m" using "2.prems" None a by simp_all
    have up: "[n..n + int (length (r # rs)) - 1] = n # [n + 1..n + 1 + int (length rs) - 1]"
      by (subst upto.simps) simp
    show ?thesis using "2.IH"(1) [OF None a] None unfolding eq up by (auto simp: ref_target_def)
  next
    case (Some i)
    obtain xs m where a: "assign_ids n rs = (xs, m)" by fastforce
    have eq: "rs' = r # xs" "n' = m" using "2.prems" Some a by simp_all
    show ?thesis using "2.IH"(2) [OF Some a] Some unfolding eq by auto
  qed
qed

lemma reference_row_round_trip: "ref_id r \<noteq> None \<Longrightarrow> reference_of_row (reference_to_row i r) = r"
  by (cases r) (auto simp: reference_of_row_def reference_to_row_def)

definition storable_file :: "(pyval dict \<Rightarrow> pyval dict option) \<Rightarrow> stored_file \<Rightarrow> bool" where
  "storable_file jsonb f \<longleftrightarrow>
     wf_location (sf_location f) \<and> reloadable (sf_location f) \<and> jsonb (sf_metadata f) = Some (sf_metadata f)"

lemma files_flush_Inr:
  assumes "files_flush jsonb f db = Inr (f', db')"
  obtains md refs n where "file_check (file_to_row f) (other_rows (sf_id f) (fd_files db)) = None"
    and "jsonb (sf_metadata f) = Some md"
    and "assign_ids (fd_next_reference db) (sf_references f) = (refs, n)"
    and "references_check refs = None" and "f' = f\<lparr>sf_references := refs\<rparr>"
    and "db' = \<lparr>fd_files = AList.update (sf_id f) ((file_to_row f)\<lparr>fl_metadata := md\<rparr>) (fd_files db),
            fd_references = filter (\<lambda>r. rr_file_id r \<noteq> sf_id f) (fd_references db)
                            @ map (reference_to_row (sf_id f)) refs,
            fd_next_reference = n\<rparr>"
  using assms
  by (auto simp: files_flush_def Let_def file_to_row_def split: option.splits prod.splits)

lemma files_persist_Inr: "files_persist jsonb f db = Inr x \<longleftrightarrow> files_flush jsonb f db = Inr x"
  by (simp add: files_persist_def split: sum.splits)

lemma references_of_persisted:
  assumes "list_all (\<lambda>r. ref_id r \<noteq> None) refs"
    and "fd_references db' = filter (\<lambda>r. rr_file_id r \<noteq> i) (fd_references db) @ map (reference_to_row i) refs"
  shows "references_of k db' = (if k = i then refs else references_of k db)"
proof -
  have own: "rr_file_id (reference_to_row i r) = i" for r by (simp add: reference_to_row_def)
  have rows_back: "map (reference_of_row \<circ> reference_to_row i) refs = refs"
    using assms(1) by (auto simp: list_all_iff reference_row_round_trip intro: map_idI)
  have other: "filter (\<lambda>r. rr_file_id r = k) (filter (\<lambda>r. rr_file_id r \<noteq> i) rs)
      = (if k = i then [] else filter (\<lambda>r. rr_file_id r = k) rs)" for rs
    by (induction rs) auto
  have new: "filter (\<lambda>r. rr_file_id r = k) (map (reference_to_row i) refs)
      = (if k = i then map (reference_to_row i) refs else [])"
    by (auto simp: filter_map comp_def own)
  show ?thesis unfolding references_of_def assms(2) filter_append other new
    by (simp add: rows_back)
qed

lemma files_find_persist:
  assumes "files_persist jsonb f db = Inr (f', db')" "storable_file jsonb f"
  shows "files_find_by_id k db' = (if k = sf_id f then Inr (Some f') else files_find_by_id k db)"
proof -
  obtain md refs n where md: "jsonb (sf_metadata f) = Some md"
    and a: "assign_ids (fd_next_reference db) (sf_references f) = (refs, n)"
    and f': "f' = f\<lparr>sf_references := refs\<rparr>"
    and db': "db' = \<lparr>fd_files = AList.update (sf_id f) ((file_to_row f)\<lparr>fl_metadata := md\<rparr>) (fd_files db),
            fd_references = filter (\<lambda>r. rr_file_id r \<noteq> sf_id f) (fd_references db)
                            @ map (reference_to_row (sf_id f)) refs,
            fd_next_reference = n\<rparr>"
    using files_flush_Inr assms(1) unfolding files_persist_Inr by metis
  have refs: "references_of k db' = (if k = sf_id f then refs else references_of k db)"
    by (rule references_of_persisted) (use assign_ids_spec [OF a] db' in simp_all)
  have md': "md = sf_metadata f" using md assms(2) by (simp add: storable_file_def)
  have loc: "mk_storage_location (PStr (loc_path (sf_location f))) (PStr (loc_name (sf_location f))) = Inr (sf_location f)"
    using assms(2) by (intro reload_location) (simp_all add: storable_file_def)
  show ?thesis
  proof (cases "k = sf_id f")
    case True
    then have "map_of (fd_files db') k = Some (file_to_row f)"
      by (simp add: db' md' update_conv' file_to_row_def)
    then show ?thesis using True refs
      by (simp add: files_find_by_id_def file_of_row_def mk_file_id_def file_to_row_def loc f')
  next
    case False
    then have "map_of (fd_files db') k = map_of (fd_files db) k" by (simp add: db' update_conv')
    then show ?thesis using False refs by (simp add: files_find_by_id_def split: option.splits)
  qed
qed

text \<open>The aggregate that comes back differs from the one given only in the keys of its references.\<close>

lemma files_persist_same:
  assumes "files_persist jsonb f db = Inr (f', db')"
  shows "sf_id f' = sf_id f \<and> sf_disk f' = sf_disk f \<and> sf_location f' = sf_location f
    \<and> sf_size_bytes f' = sf_size_bytes f \<and> sf_checksum f' = sf_checksum f \<and> sf_metadata f' = sf_metadata f
    \<and> sf_content_type f' = sf_content_type f
    \<and> map ref_target (sf_references f') = map ref_target (sf_references f)"
proof -
  obtain refs n where a: "assign_ids (fd_next_reference db) (sf_references f) = (refs, n)"
    and f': "f' = f\<lparr>sf_references := refs\<rparr>"
    using files_flush_Inr assms unfolding files_persist_Inr by metis
  show ?thesis using assign_ids_spec [OF a] f' by simp
qed

text \<open>A conflict of locations is the only error that is renamed.\<close>

lemma contains_self: "s \<noteq> [] \<Longrightarrow> contains s s"
  by (cases s) (simp_all add: starts_with_def)

lemma files_persist_conflict:
  "files_persist jsonb f db = Inl (files_exc FileAlreadyStoredError) \<longleftrightarrow>
   file_row_types_ok (file_to_row f) \<and> 0 < sf_size_bytes f
   \<and> list_ex (same_location (file_to_row f)) (other_rows (sf_id f) (fd_files db))"
proof -
  have n: "\<not> contains LOCATION_CONSTRAINT ''size_bytes_positive''"
    "\<not> contains LOCATION_CONSTRAINT ''uq_file_references_file_id_owner''" "LOCATION_CONSTRAINT \<noteq> []"
    by code_simp+
  have loc: "fl_size_bytes (file_to_row f) = sf_size_bytes f" by (simp add: file_to_row_def)
  show ?thesis
    using n contains_self [OF n(3)]
    by (auto simp: files_persist_def files_flush_def Let_def file_check_def loc location_conflict_def
        references_check_def split: option.splits prod.splits if_splits)
qed

section \<open>Properties\<close>

lemma files_find_by_id_Inr:
  assumes "files_find_by_id i db = Inr (Some f)"
  shows "sf_id f = i" "sf_references f = references_of i db"
  using assms by (auto simp: files_find_by_id_def file_of_row_def bindE_Inr_iff mk_file_id_def split: option.splits)

lemma referenced_rows:
  assumes "sf_references f = references_of i db"
  shows "is_referenced_by c t e f \<longleftrightarrow>
    (\<exists>r \<in> set (fd_references db). rr_file_id r = i \<and> reference_matches c t e r)"
  by (simp add: is_referenced_by_def list_ex_iff assms references_of_def reference_matches_def reference_of_row_def)
    blast

lemma set_unique_rows: "set (unique_rows xs) = set xs" "distinct (unique_rows xs)"
  by (simp_all add: unique_rows_def)

lemma mapE_concat_some:
  assumes "mapE g xs = Inr ys"
  shows "f \<in> set (concat (map (\<lambda>y. case y of None \<Rightarrow> [] | Some x \<Rightarrow> [x]) ys)) \<longleftrightarrow> (\<exists>x \<in> set xs. g x = Inr (Some f))"
  using assms unfolding mapE_Inr_iff
  by (induction rule: list_all2_induct) (auto split: option.splits)

lemma distinct_concat_some:
  assumes "list_all2 (\<lambda>x y. g x = Inr y) xs ys" "distinct xs" "\<And>x f. g x = Inr (Some f) \<Longrightarrow> h f = x"
  shows "distinct (concat (map (\<lambda>y. case y of None \<Rightarrow> [] | Some x \<Rightarrow> [x]) ys))"
  using assms
proof (induction rule: list_all2_induct)
  case (Cons x xs y ys)
  have "\<exists>z \<in> set xs. g z = Inr (Some f)" if "Some f \<in> set ys" for f
    using Cons(2) that by (induction rule: list_all2_induct) auto
  moreover have "x \<notin> set xs" "g x = Inr y" using Cons by simp_all
  ultimately have "Some f \<notin> set ys" if "y = Some f" for f
    using Cons.prems(2) that by metis
  then show ?case using Cons by (auto split: option.splits)
qed simp

text \<open>
  C21. The query by reference agrees with the aggregate: what it returns, each file once, are
  the stored files that say of themselves that they are referenced by that thing.
\<close>

theorem find_by_reference_agrees:
  assumes "files_find_by_reference context entity_type entity_id db = Inr fs"
  shows "(f \<in> set fs \<longleftrightarrow>
      (\<exists>i. files_find_by_id i db = Inr (Some f)) \<and> is_referenced_by context entity_type entity_id f)
    \<and> distinct fs"
proof -
  let ?hits = "sort_key rr_id (filter (reference_matches context entity_type entity_id) (fd_references db))"
  let ?ids = "unique_rows (map rr_file_id ?hits)"
  obtain ys where ys: "mapE (\<lambda>i. files_find_by_id i db) ?ids = Inr ys"
    and fs: "fs = concat (map (\<lambda>f. case f of None \<Rightarrow> [] | Some x \<Rightarrow> [x]) ys)"
    using assms by (auto simp: files_find_by_reference_def Let_def bindE_Inr_iff)
  have ids: "i \<in> set ?ids \<longleftrightarrow>
      (\<exists>r \<in> set (fd_references db). rr_file_id r = i \<and> reference_matches context entity_type entity_id r)" for i
    by (auto simp: set_unique_rows)
  have "f \<in> set fs \<longleftrightarrow> (\<exists>i \<in> set ?ids. files_find_by_id i db = Inr (Some f))"
    unfolding fs by (rule mapE_concat_some [OF ys])
  also have "\<dots> \<longleftrightarrow> (\<exists>i. files_find_by_id i db = Inr (Some f)) \<and> is_referenced_by context entity_type entity_id f"
  proof -
    have "is_referenced_by context entity_type entity_id f \<longleftrightarrow>
        (\<exists>r \<in> set (fd_references db). rr_file_id r = i \<and> reference_matches context entity_type entity_id r)"
      if "files_find_by_id i db = Inr (Some f)" for i
      by (rule referenced_rows [OF files_find_by_id_Inr(2) [OF that]])
    then show ?thesis unfolding Bex_def ids by blast
  qed
  finally show ?thesis
    using distinct_concat_some [OF ys [unfolded mapE_Inr_iff] set_unique_rows(2)] files_find_by_id_Inr(1) fs
    by blast
qed


text \<open>
  The constructor of a location accepts some paths in a form that it refuses on loading:
  such a file is stored, and every lookup of it raises.
\<close>

theorem tilde_path_unloadable:
  "mk_storage_location (PStr ''/~backup'') (PStr ''a.pdf'') = Inr \<lparr>loc_path = ''~backup'', loc_name = ''a.pdf''\<rparr>
   \<and> (files_persist jsonb f db = Inr (f', db') \<and> sf_location f = \<lparr>loc_path = ''~backup'', loc_name = ''a.pdf''\<rparr>
      \<longrightarrow> files_find_by_id (sf_id f) db' = Inl (files_exc InvalidStorageLocationError))"
proof -
  have "files_find_by_id (sf_id f) db' = Inl (files_exc InvalidStorageLocationError)"
    if p: "files_persist jsonb f db = Inr (f', db')" and l: "sf_location f = \<lparr>loc_path = ''~backup'', loc_name = ''a.pdf''\<rparr>"
  proof -
    obtain md where rows: "fd_files db' = AList.update (sf_id f) ((file_to_row f)\<lparr>fl_metadata := md\<rparr>) (fd_files db)"
      using files_flush_Inr p unfolding files_persist_Inr by (metis files_db.select_convs(1))
    have "mk_storage_location (PStr ''~backup'') (PStr ''a.pdf'') = Inl (files_exc InvalidStorageLocationError)"
      by code_simp
    then show ?thesis
      using l by (simp add: files_find_by_id_def rows update_conv' file_of_row_def mk_file_id_def file_to_row_def)
  qed
  moreover have "mk_storage_location (PStr ''/~backup'') (PStr ''a.pdf'')
      = Inr \<lparr>loc_path = ''~backup'', loc_name = ''a.pdf''\<rparr>"
    by code_simp
  ultimately show ?thesis by blast
qed

section \<open>Witnesses\<close>

definition one_file :: "string \<Rightarrow> stored_file" where
  "one_file path =
     \<lparr>sf_id = FileId 7, sf_disk = ''local'', sf_location = \<lparr>loc_path = path, loc_name = ''a.pdf''\<rparr>,
      sf_size_bytes = 3, sf_content_type = DEFAULT_CONTENT_TYPE, sf_checksum = ''sha256:ab'', sf_metadata = [],
      sf_references = [\<lparr>ref_context = ''customs'', ref_entity_type = ''ClearanceCase'',
                        ref_entity_id = Some ''1'', ref_entity_uuid = None, ref_id = None\<rparr>]\<rparr>"

definition empty_tables :: files_db where
  "empty_tables = \<lparr>fd_files = [], fd_references = [], fd_next_reference = 1\<rparr>"

definition one_file_tables :: files_db where
  "one_file_tables =
     \<lparr>fd_files = [(FileId 7, file_to_row (one_file ''cases''))],
      fd_references = [\<lparr>rr_id = 1, rr_file_id = FileId 7, rr_context = ''customs'',
                        rr_entity_type = ''ClearanceCase'', rr_entity_id = Some ''1'', rr_entity_uuid = None\<rparr>],
      fd_next_reference = 2\<rparr>"

lemma one_file_persists: "\<not> isl (files_persist Some (one_file ''cases'') empty_tables)"
  "\<not> isl (files_persist Some (one_file ''~backup'') empty_tables)"
  by code_simp+

theorem find_by_reference_agrees_witness:
  "\<exists>fs. files_find_by_reference ''customs'' ''ClearanceCase'' None one_file_tables = Inr fs \<and> distinct fs \<and> fs \<noteq> []"
proof -
  have "\<not> isl (files_find_by_reference ''customs'' ''ClearanceCase'' None one_file_tables)"
    "length (projr (files_find_by_reference ''customs'' ''ClearanceCase'' None one_file_tables)) = 1"
    by code_simp+
  then obtain fs where "files_find_by_reference ''customs'' ''ClearanceCase'' None one_file_tables = Inr fs"
    "length fs = 1"
    by (cases "files_find_by_reference ''customs'' ''ClearanceCase'' None one_file_tables") auto
  then show ?thesis using find_by_reference_agrees by fastforce
qed


theorem tilde_path_unloadable_witness:
  "\<exists>f' db'. files_persist Some (one_file ''~backup'') empty_tables = Inr (f', db')
     \<and> files_find_by_id (FileId 7) db' = Inl (files_exc InvalidStorageLocationError)"
proof -
  obtain f' db' where p: "files_persist Some (one_file ''~backup'') empty_tables = Inr (f', db')"
    using one_file_persists(2) by (cases "files_persist Some (one_file ''~backup'') empty_tables") auto
  have "sf_location (one_file ''~backup'') = \<lparr>loc_path = ''~backup'', loc_name = ''a.pdf''\<rparr>"
    "sf_id (one_file ''~backup'') = FileId 7"
    by (simp_all add: one_file_def)
  with tilde_path_unloadable [of Some "one_file ''~backup''" empty_tables f' db'] p show ?thesis by auto
qed

end
