(* ===== verification/Upload_File.thy ===== *)
theory Upload_File
  imports Files_Storage File_Storage Http_Problem
begin

text \<open>
  The slice \<open>upload_file\<close> of the Files module (\<open>modules/files/src/features/upload_file\<close>):
  the command, the handler that writes the bytes before it records them, the controller that
  assembles the command from the multipart form, and the response. The handler runs on two
  states that share no transaction, the world \<open>'w\<close> of the file systems and the database;
  it is the composition of its three steps, so that uploads can also be interleaved. The
  JSON parser and the validation of the request model are arguments.
\<close>

section \<open>The command\<close>

record file_reference_input =
  ri_context :: string
  ri_entity_type :: string
  ri_entity_id :: "(int + string) option"
  ri_uuid :: "uuid option"

record upload_file_command =
  uc_disk :: string
  uc_path :: string
  uc_name :: string
  uc_content_type :: "string option"
  uc_metadata :: "pyval dict"
  uc_references :: "file_reference_input list"

text \<open>What the declared fields promise of a validated command.\<close>

definition text_field :: "nat \<Rightarrow> nat \<Rightarrow> string \<Rightarrow> bool" where
  "text_field lo hi s \<longleftrightarrow> strip s = s \<and> lo \<le> length s \<and> length s \<le> hi"

definition reference_input_ok :: "file_reference_input \<Rightarrow> bool" where
  "reference_input_ok r \<longleftrightarrow> text_field 1 128 (ri_context r) \<and> text_field 1 128 (ri_entity_type r)"

definition upload_command_ok :: "upload_file_command \<Rightarrow> bool" where
  "upload_command_ok c \<longleftrightarrow>
     text_field 1 32 (uc_disk c) \<and> text_field 0 512 (uc_path c) \<and> text_field 1 255 (uc_name c)
     \<and> (case uc_content_type c of None \<Rightarrow> True | Some t \<Rightarrow> text_field 0 255 t)
     \<and> distinct (map fst (uc_metadata c)) \<and> list_all reference_input_ok (uc_references c)"

text \<open>The fields as the domain receives them.\<close>

definition entity_id_value :: "(int + string) option \<Rightarrow> pyval" where
  "entity_id_value i = (case i of None \<Rightarrow> PNone | Some (Inl n) \<Rightarrow> PInt n | Some (Inr s) \<Rightarrow> PStr s)"

definition opt_value :: "('a \<Rightarrow> pyval) \<Rightarrow> 'a option \<Rightarrow> pyval" where
  "opt_value f v = (case v of None \<Rightarrow> PNone | Some x \<Rightarrow> f x)"

definition dict_value :: "pyval dict \<Rightarrow> pyval" where
  "dict_value d = PDict (map (\<lambda>(k, v). (PStr k, v)) d)"

section \<open>The handler\<close>

text \<open>The storage port as the handler holds it.\<close>

record 'w storage_port =
  sp_disks :: "string list"
  sp_exists :: "string \<Rightarrow> string \<Rightarrow> 'w \<Rightarrow> bool res"
  sp_put :: "string \<Rightarrow> string \<Rightarrow> bytes list \<Rightarrow> 'w \<Rightarrow> stored_object res \<times> 'w"
  sp_delete :: "string \<Rightarrow> string \<Rightarrow> 'w \<Rightarrow> unit res \<times> 'w"

definition sp_supports :: "'w storage_port \<Rightarrow> string \<Rightarrow> bool" where
  "sp_supports st disk \<longleftrightarrow> disk \<in> set (sp_disks st)"

text \<open>The process-wide adapter.\<close>

definition get_file_storage :: "(bytes \<Rightarrow> string) \<Rightarrow> 'w fsspec \<Rightarrow> settings \<Rightarrow> 'w storage_port" where
  "get_file_storage hexdigest fs s =
     (let disks = build_disk_registry s in
      \<lparr>sp_disks = disk_names_of disks, sp_exists = storage_exists fs disks,
       sp_put = storage_put hexdigest fs disks (files_max_upload_bytes s),
       sp_delete = storage_delete fs disks\<rparr>)"

text \<open>Up to the first byte: the disk, the location, and that nothing is stored there.\<close>

definition upload_check :: "'w storage_port \<Rightarrow> upload_file_command \<Rightarrow> 'w \<Rightarrow> storage_location res" where
  "upload_check st c w =
     (if \<not> sp_supports st (uc_disk c)
      then Inl (AppError (Files UnknownStorageDiskError)
                  [(''configured_disks'', PList (map PStr (sp_disks st)))])
      else bindE (mk_storage_location (PStr (uc_path c)) (PStr (uc_name c))) (\<lambda>location.
           bindE (sp_exists st (uc_disk c) (key location) w) (\<lambda>taken.
           if taken then Inl (files_exc FileAlreadyStoredError) else Inr location)))"

definition declare_input :: "file_reference_input \<Rightarrow> file_reference res" where
  "declare_input r =
     declare_reference (PStr (ri_context r)) (PStr (ri_entity_type r)) (entity_id_value (ri_entity_id r))
       (opt_value PUuid (ri_uuid r))"

text \<open>The bytes, then the aggregate that describes what was written.\<close>

definition upload_write ::
  "'w storage_port \<Rightarrow> uuid \<Rightarrow> upload_file_command \<Rightarrow> bytes list \<Rightarrow> storage_location \<Rightarrow> 'w \<Rightarrow>
   stored_file res \<times> 'w" where
  "upload_write st fresh c chunks location w =
     (case sp_put st (uc_disk c) (key location) chunks w of
        (Inl e, w') \<Rightarrow> (Inl e, w')
      | (Inr written, w') \<Rightarrow>
          (bindE (mapE declare_input (uc_references c)) (\<lambda>references.
             register_file (FileId fresh) (PStr (uc_disk c)) location (PInt (so_size_bytes written))
               (opt_value PStr (uc_content_type c)) (PStr (so_checksum written))
               (dict_value (uc_metadata c)) (map Inl references)), w'))"

definition already_stored :: "exc \<Rightarrow> bool" where
  "already_stored e \<longleftrightarrow> app_class e = Some (Files FileAlreadyStoredError)"

text \<open>The row; an insert that fails for another reason than a taken location removes the object.\<close>

definition upload_record ::
  "'w storage_port \<Rightarrow> (stored_file \<Rightarrow> 'db \<Rightarrow> (stored_file \<times> 'db) res) \<Rightarrow> upload_file_command \<Rightarrow>
   storage_location \<Rightarrow> stored_file \<Rightarrow> 'w \<Rightarrow> 'db \<Rightarrow> (stored_file \<times> 'db) res \<times> 'w" where
  "upload_record st persist c location f w db =
     (case persist f db of
        Inr (f', db') \<Rightarrow> (Inr (f', db'), w)
      | Inl e \<Rightarrow>
          if already_stored e then (Inl e, w)
          else (case sp_delete st (uc_disk c) (key location) w of
                  (Inl e', w') \<Rightarrow> (Inl e', w')
                | (Inr u, w') \<Rightarrow> (Inl e, w')))"

definition upload_handle ::
  "'w storage_port \<Rightarrow> (stored_file \<Rightarrow> 'db \<Rightarrow> (stored_file \<times> 'db) res) \<Rightarrow> uuid \<Rightarrow>
   upload_file_command \<Rightarrow> bytes list \<Rightarrow> 'w \<Rightarrow> 'db \<Rightarrow> (stored_file \<times> 'db) res \<times> 'w" where
  "upload_handle st persist fresh c chunks w db =
     (case upload_check st c w of
        Inl e \<Rightarrow> (Inl e, w)
      | Inr location \<Rightarrow>
          (case upload_write st fresh c chunks location w of
             (Inl e, w') \<Rightarrow> (Inl e, w')
           | (Inr f, w') \<Rightarrow> upload_record st persist c location f w' db))"

section \<open>The controller\<close>

definition CHUNK_SIZE :: nat where
  "CHUNK_SIZE = 64 * 1024"

text \<open>\<open>read(CHUNK_SIZE)\<close> until it returns nothing.\<close>

function chunks_of :: "bytes \<Rightarrow> bytes list" where
  "chunks_of bs = (if bs = [] then [] else take CHUNK_SIZE bs # chunks_of (drop CHUNK_SIZE bs))"
  by auto
termination by (relation "measure length") (simp_all add: CHUNK_SIZE_def)

declare chunks_of.simps [simp del]

definition parse_json_part ::
  "(string \<Rightarrow> json_error + pyval) \<Rightarrow> string option \<Rightarrow> pyval \<Rightarrow> pyval res" where
  "parse_json_part json raw fallback =
     (case raw of
        None \<Rightarrow> Inr fallback
      | Some s \<Rightarrow>
          if strip s = [] then Inr fallback
          else (case json s of
                  Inr v \<Rightarrow> Inr v
                | Inl JSONDecodeError \<Rightarrow> Inl (files_exc InvalidUploadPayloadError)
                | Inl JsonValueError \<Rightarrow> Inl (PyError ''ValueError'')
                | Inl (OtherJsonError n) \<Rightarrow> Inl (PyError n)))"

text \<open>The multipart form as the framework binds it.\<close>

record upload_form =
  uf_file :: bytes
  uf_filename :: "string option"
  uf_content_type :: "string option"
  uf_disk :: "string option"
  uf_path :: string
  uf_name :: "string option"
  uf_metadata :: "string option"
  uf_references :: "string option"

text \<open>The keyword arguments of the command, and its validation: the errors or the command.\<close>

record upload_fields =
  af_disk :: string
  af_path :: string
  af_name :: string
  af_content_type :: "string option"
  af_metadata :: pyval
  af_references :: pyval

type_synonym upload_validation = "upload_fields \<Rightarrow> pyval dict list + upload_file_command"

text \<open>\<open>a or b\<close> on strings that may be missing.\<close>

definition or_else :: "string option \<Rightarrow> string \<Rightarrow> string" where
  "or_else v d = (case v of None \<Rightarrow> d | Some s \<Rightarrow> if s = [] then d else s)"

definition upload_command ::
  "(string \<Rightarrow> json_error + pyval) \<Rightarrow> upload_validation \<Rightarrow> settings \<Rightarrow> upload_form \<Rightarrow> upload_file_command res" where
  "upload_command json validate s form =
     bindE (parse_json_part json (uf_metadata form) (PDict [])) (\<lambda>metadata.
     bindE (parse_json_part json (uf_references form) (PList [])) (\<lambda>references.
     case validate \<lparr>af_disk = or_else (uf_disk form) (files_default_disk s), af_path = uf_path form,
            af_name = or_else (uf_name form) (or_else (uf_filename form) []),
            af_content_type = uf_content_type form, af_metadata = metadata, af_references = references\<rparr> of
       Inl errors \<Rightarrow> Inl (RequestInvalid errors)
     | Inr c \<Rightarrow> Inr c))"

record file_reference_view =
  fv_id :: "int option"
  fv_context :: string
  fv_entity_type :: string
  fv_entity_id :: "string option"
  fv_entity_uuid :: "uuid option"

record upload_file_response =
  up_file_uuid :: uuid
  up_disk :: string
  up_path :: string
  up_name :: string
  up_key :: string
  up_size_bytes :: int
  up_content_type :: string
  up_checksum :: string
  up_metadata :: "pyval dict"
  up_references :: "file_reference_view list"

definition reference_view :: "file_reference \<Rightarrow> file_reference_view" where
  "reference_view r =
     \<lparr>fv_id = ref_id r, fv_context = ref_context r, fv_entity_type = ref_entity_type r,
      fv_entity_id = ref_entity_id r, fv_entity_uuid = ref_entity_uuid r\<rparr>"

definition upload_response_of :: "stored_file \<Rightarrow> upload_file_response" where
  "upload_response_of f =
     \<lparr>up_file_uuid = fid_value (sf_id f), up_disk = sf_disk f, up_path = loc_path (sf_location f),
      up_name = loc_name (sf_location f), up_key = file_key f, up_size_bytes = sf_size_bytes f,
      up_content_type = sf_content_type f, up_checksum = sf_checksum f, up_metadata = sf_metadata f,
      up_references = map reference_view (sf_references f)\<rparr>"

definition upload_file ::
  "(string \<Rightarrow> json_error + pyval) \<Rightarrow> upload_validation \<Rightarrow> settings \<Rightarrow> 'w storage_port \<Rightarrow>
   (stored_file \<Rightarrow> 'db \<Rightarrow> (stored_file \<times> 'db) res) \<Rightarrow> uuid \<Rightarrow> upload_form \<Rightarrow> 'w \<Rightarrow> 'db \<Rightarrow>
   (upload_file_response \<times> 'db) res \<times> 'w" where
  "upload_file json validate s st persist fresh form w db =
     (case upload_command json validate s form of
        Inl e \<Rightarrow> (Inl e, w)
      | Inr c \<Rightarrow>
          (let (r, w') = upload_handle st persist fresh c (chunks_of (uf_file form)) w db
           in (bindE r (\<lambda>(f, db'). Inr (upload_response_of f, db')), w')))"

text \<open>The request: the scope commits or rolls back the database, and nothing the world.\<close>

definition upload_request ::
  "(string \<Rightarrow> json_error + pyval) \<Rightarrow> upload_validation \<Rightarrow> settings \<Rightarrow> 'w storage_port \<Rightarrow>
   (stored_file \<Rightarrow> 'db \<Rightarrow> (stored_file \<times> 'db) res) \<Rightarrow> ('db \<Rightarrow> exc option) \<Rightarrow> uuid \<Rightarrow> upload_form \<Rightarrow>
   'w \<times> 'db \<Rightarrow> upload_file_response res \<times> 'w \<times> 'db" where
  "upload_request json validate s st persist commit fresh form wdb =
     (let (r, w') = upload_file json validate s st persist fresh form (fst wdb) (snd wdb);
          (resp, db') = request_scope commit (\<lambda>_. r) (snd wdb)
      in (resp, w', db'))"

definition files_routes :: route_table where
  "files_routes = [(''POST'', ''/files'')]"

section \<open>What the slice relies on\<close>

text \<open>The row of a file, and the row at the location it names.\<close>

definition row_describes :: "stored_file \<Rightarrow> file_row \<Rightarrow> bool" where
  "row_describes f r \<longleftrightarrow>
     fl_disk r = sf_disk f \<and> fl_path r = loc_path (sf_location f) \<and> fl_name r = loc_name (sf_location f)
     \<and> fl_size_bytes r = sf_size_bytes f \<and> fl_checksum r = sf_checksum f"

definition row_location :: "file_row \<Rightarrow> storage_location" where
  "row_location r = \<lparr>loc_path = fl_path r, loc_name = fl_name r\<rparr>"

text \<open>The row describes the bytes that are there.\<close>

definition row_backed ::
  "(string \<Rightarrow> string \<Rightarrow> 'w \<Rightarrow> bytes option) \<Rightarrow> (bytes \<Rightarrow> string) \<Rightarrow> 'w \<Rightarrow> file_row \<Rightarrow> bool" where
  "row_backed object_at digest w r \<longleftrightarrow>
     wf_location (row_location r)
     \<and> (case object_at (fl_disk r) (key (row_location r)) w of
          None \<Rightarrow> False
        | Some bs \<Rightarrow> fl_size_bytes r = int (length bs) \<and> fl_checksum r = digest bs)"

definition files_backed ::
  "(string \<Rightarrow> string \<Rightarrow> 'w \<Rightarrow> bytes option) \<Rightarrow> (bytes \<Rightarrow> string) \<Rightarrow> 'w \<Rightarrow> (file_id \<times> file_row) list \<Rightarrow> bool" where
  "files_backed object_at digest w rows = list_all (\<lambda>(i, r). row_backed object_at digest w r) rows"

text \<open>The repository port: one row more, for the file that was given.\<close>

locale file_repository =
  fixes persist :: "stored_file \<Rightarrow> 'db \<Rightarrow> (stored_file \<times> 'db) res"
    and rows :: "'db \<Rightarrow> (file_id \<times> file_row) list"
  assumes persist_returns: "persist f db = Inr (f', db') \<Longrightarrow> f' = f\<lparr>sf_references := sf_references f'\<rparr>"
    and persist_rows: "persist f db = Inr (f', db') \<Longrightarrow> (i, r) \<in> set (rows db') \<Longrightarrow>
      (i, r) \<in> set (rows db) \<or> (i = sf_id f \<and> row_describes f r)"
    and persist_row: "persist f db = Inr (f', db') \<Longrightarrow> \<exists>r. (sf_id f, r) \<in> set (rows db') \<and> row_describes f r"

lemma row_describes_location: "row_describes f r \<Longrightarrow> row_location r = sf_location f"
  by (cases "sf_location f") (simp add: row_describes_def row_location_def)

lemma set_update_cases: "(i, r) \<in> set (AList.update k v xs) \<Longrightarrow> (i, r) = (k, v) \<or> (i, r) \<in> set xs"
  by (induction xs) (auto split: if_splits)

lemma in_set_update: "(k, v) \<in> set (AList.update k v xs)"
  by (induction xs) auto

interpretation files: file_repository "files_persist jsonb" fd_files
  for jsonb :: "pyval dict \<Rightarrow> pyval dict option"
proof unfold_locales
  fix f db f' db' assume p: "files_persist jsonb f db = Inr (f', db')"
  then obtain md refs n where a: "f' = f\<lparr>sf_references := refs\<rparr>"
    and rows: "fd_files db' = AList.update (sf_id f) ((file_to_row f)\<lparr>fl_metadata := md\<rparr>) (fd_files db)"
    using files_flush_Inr unfolding files_persist_Inr by (metis files_db.select_convs(1))
  have d: "row_describes f ((file_to_row f)\<lparr>fl_metadata := md\<rparr>)"
    by (simp add: row_describes_def file_to_row_def)
  show "f' = f\<lparr>sf_references := sf_references f'\<rparr>" using a by simp
  show "(i, r) \<in> set (fd_files db) \<or> i = sf_id f \<and> row_describes f r"
    if "(i, r) \<in> set (fd_files db')" for i r
    using set_update_cases [OF that [unfolded rows]] d by auto
  show "\<exists>r. (sf_id f, r) \<in> set (fd_files db') \<and> row_describes f r"
    unfolding rows using in_set_update d by fast
qed

locale file_upload = file_storage "sp_supports st" "sp_exists st" "sp_put st" "sp_delete st" object_at digest limit
  + file_repository persist rows
  for st :: "'w storage_port"
    and object_at :: "string \<Rightarrow> string \<Rightarrow> 'w \<Rightarrow> bytes option"
    and digest :: "bytes \<Rightarrow> string"
    and limit :: int
    and persist :: "stored_file \<Rightarrow> 'db \<Rightarrow> (stored_file \<times> 'db) res"
    and rows :: "'db \<Rightarrow> (file_id \<times> file_row) list" +
  assumes digest_checksum: "validated_checksum (PStr (digest bs)) = Inr (digest bs)"
    and supported_name: "sp_supports st d \<Longrightarrow> validated_disk (PStr d) = Inr d"
begin

lemma upload_check_Inr:
  assumes "upload_check st c w = Inr l"
  shows "sp_supports st (uc_disk c)" "wf_location l" "key_path (key l)"
    "mk_storage_location (PStr (uc_path c)) (PStr (uc_name c)) = Inr l"
    "object_at (uc_disk c) (key l) w = None"
proof -
  have a: "sp_supports st (uc_disk c)" "mk_storage_location (PStr (uc_path c)) (PStr (uc_name c)) = Inr l"
    "sp_exists st (uc_disk c) (key l) w = Inr False"
    using assms by (auto simp: upload_check_def bindE_Inr_iff split: if_splits)
  then show "sp_supports st (uc_disk c)" "mk_storage_location (PStr (uc_path c)) (PStr (uc_name c)) = Inr l"
    "object_at (uc_disk c) (key l) w = None" by (auto intro: exists_free)
  show wf: "wf_location l" using a(2) by (rule mk_storage_location_wf)
  show "key_path (key l)" using wf by (simp add: key_path_def key_segments wf_location_def)
qed

lemma upload_write_Inr:
  assumes "upload_write st fresh c chunks l w = (Inr f, w')" "sp_supports st (uc_disk c)"
  shows "object_at (uc_disk c) (key l) w' = Some (concat chunks)" "sf_id f = FileId fresh"
    "sf_disk f = uc_disk c" "sf_location f = l" "sf_size_bytes f = int (length (concat chunks))"
    "sf_checksum f = digest (concat chunks)" "file_inv f" "int (length (concat chunks)) \<le> limit"
proof -
  obtain s refs where p: "sp_put st (uc_disk c) (key l) chunks w = (Inr s, w')"
    and reg: "register_file (FileId fresh) (PStr (uc_disk c)) l (PInt (so_size_bytes s))
      (opt_value PStr (uc_content_type c)) (PStr (so_checksum s)) (dict_value (uc_metadata c)) (map Inl refs) = Inr f"
    using assms(1) by (auto simp: upload_write_def bindE_Inr_iff split: sum.splits prod.splits)
  note s = put_done [OF p] and r = register_file_Inr [OF reg]
  show "object_at (uc_disk c) (key l) w' = Some (concat chunks)" "int (length (concat chunks)) \<le> limit"
    using s by simp_all
  show "sf_id f = FileId fresh" "sf_location f = l" "sf_size_bytes f = int (length (concat chunks))" "file_inv f"
    using r s by simp_all
  show "sf_disk f = uc_disk c" using r(5) supported_name [OF assms(2)] by simp
  show "sf_checksum f = digest (concat chunks)" using r(6) s digest_checksum by simp
qed

lemma upload_write_frame:
  assumes "upload_write st fresh c chunks l w = (x, w')" "key_path (key l)" "key_path k'" "(d', k') \<noteq> (uc_disk c, key l)"
  shows "object_at d' k' w' = object_at d' k' w"
proof -
  obtain y where "sp_put st (uc_disk c) (key l) chunks w = (y, w')"
    using assms(1) by (auto simp: upload_write_def split: sum.splits prod.splits)
  then show ?thesis using put_frame assms by blast
qed

lemma upload_record_frame:
  assumes "upload_record st persist c l f w db = (x, w')" "key_path (key l)" "key_path k'" "(d', k') \<noteq> (uc_disk c, key l)"
  shows "object_at d' k' w' = object_at d' k' w"
proof (cases "w' = w")
  case False
  then obtain y where "sp_delete st (uc_disk c) (key l) w = (y, w')"
    using assms(1) by (auto simp: upload_record_def split: sum.splits prod.splits if_splits)
  then show ?thesis using delete_frame assms by blast
qed simp

text \<open>An upload that succeeds has written its bytes and one row that describes them.\<close>

lemma upload_handle_Inr:
  assumes "upload_handle st persist fresh c chunks w db = (Inr (f, db'), w')"
  obtains l g where "upload_check st c w = Inr l" and "upload_write st fresh c chunks l w = (Inr g, w')"
    and "persist g db = Inr (f, db')"
  using assms by (auto simp: upload_handle_def upload_record_def split: sum.splits prod.splits if_splits)

lemma upload_handle_frame:
  assumes "upload_handle st persist fresh c chunks w db = (x, w')" "key_path k'"
    "object_at d' k' w \<noteq> None"
  shows "object_at d' k' w' = object_at d' k' w"
proof (cases "upload_check st c w")
  case (Inl e)
  then show ?thesis using assms(1) by (simp add: upload_handle_def)
next
  case (Inr l)
  note l = upload_check_Inr [OF Inr]
  have ne: "(d', k') \<noteq> (uc_disk c, key l)" using l(5) assms(3) by auto
  obtain y w1 where y: "upload_write st fresh c chunks l w = (y, w1)" by fastforce
  have w1: "object_at d' k' w1 = object_at d' k' w" by (rule upload_write_frame [OF y l(3) assms(2) ne])
  show ?thesis
  proof (cases y)
    case (Inl e)
    then show ?thesis using assms(1) Inr y w1 by (simp add: upload_handle_def)
  next
    case (Inr f)
    then have "upload_record st persist c l f w1 db = (x, w')"
      using assms(1) \<open>upload_check st c w = Inr l\<close> y by (simp add: upload_handle_def)
    then show ?thesis using upload_record_frame l(3) assms(2) ne w1 by metis
  qed
qed

lemma row_place: "row_backed object_at digest w r \<Longrightarrow> key_path (key (row_location r)) \<and> object_at (fl_disk r) (key (row_location r)) w \<noteq> None"
  by (auto simp: row_backed_def key_path_def key_segments wf_location_def split: option.splits)

lemma row_backed_keep:
  assumes "upload_handle st persist fresh c chunks w db = (x, w')" "row_backed object_at digest w r"
  shows "object_at (fl_disk r) (key (row_location r)) w' = object_at (fl_disk r) (key (row_location r)) w"
    and "row_backed object_at digest w' r"
proof -
  show "object_at (fl_disk r) (key (row_location r)) w' = object_at (fl_disk r) (key (row_location r)) w"
    using upload_handle_frame [OF assms(1)] row_place [OF assms(2)] by simp
  then show "row_backed object_at digest w' r" using assms(2) by (simp add: row_backed_def)
qed

lemma upload_handle_backed:
  assumes h: "upload_handle st persist fresh c chunks w db = (x, w')" and b: "files_backed object_at digest w (rows db)"
  shows "files_backed object_at digest w' (rows db)"
    and "x = Inr (f, db') \<Longrightarrow> files_backed object_at digest w' (rows db')"
proof -
  show old: "files_backed object_at digest w' (rows db)"
    using b row_backed_keep(2) [OF h] by (fastforce simp: files_backed_def list_all_iff)
  show "files_backed object_at digest w' (rows db')" if x: "x = Inr (f, db')"
  proof -
    obtain l g where l: "upload_check st c w = Inr l" and g: "upload_write st fresh c chunks l w = (Inr g, w')"
      and p: "persist g db = Inr (f, db')"
      using upload_handle_Inr [OF h [unfolded x]] .
    note c = upload_check_Inr [OF l]
    note wr = upload_write_Inr [OF g c(1)]
    have new: "row_backed object_at digest w' r" if "row_describes g r" for r
      using that row_describes_location [OF that] c(2) wr by (simp add: row_backed_def row_describes_def)
    have "row_backed object_at digest w' r" if "(i, r) \<in> set (rows db')" for i r
      using persist_rows [OF p that] new old by (auto simp: files_backed_def list_all_iff)
    then show ?thesis by (auto simp: files_backed_def list_all_iff)
  qed
qed

end

section \<open>Requests\<close>

text \<open>The repository reports a taken location with the bare class.\<close>

lemma already_stored_persist:
  "already_stored e \<Longrightarrow> files_persist jsonb f db = Inl e \<Longrightarrow> e = files_exc FileAlreadyStoredError"
  by (auto simp: files_persist_def files_flush_def Let_def already_stored_def location_conflict_def
      file_check_def references_check_def split: sum.splits option.splits prod.splits exc.splits if_splits)

lemma concat_chunks_of [simp]: "concat (chunks_of bs) = bs"
proof (induction bs rule: chunks_of.induct)
  case (1 bs)
  then show ?case by (subst chunks_of.simps) simp
qed

lemma upload_request_Inr:
  assumes "upload_request json validate s st persist commit fresh form (w, db) = (Inr resp, w', db')"
  obtains c f where "upload_command json validate s form = Inr c"
    and "upload_handle st persist fresh c (chunks_of (uf_file form)) w db = (Inr (f, db'), w')"
    and "resp = upload_response_of f"
  using assms
  by (auto simp: upload_request_def upload_file_def Let_def request_scope_Inr bindE_Inr_iff
      split: sum.splits prod.splits)

lemma upload_request_Inl:
  assumes "upload_request json validate s st persist commit fresh form (w, db) = (Inl e, w', db')"
  shows "db' = db"
    and "(upload_command json validate s form = Inl e \<and> w' = w)
      \<or> (\<exists>c x. upload_command json validate s form = Inr c
          \<and> upload_handle st persist fresh c (chunks_of (uf_file form)) w db = (x, w')
          \<and> (x = Inl e \<or> (\<exists>f db1. x = Inr (f, db1) \<and> commit db1 = Some e)))"
  using assms
  by (auto simp: upload_request_def upload_file_def Let_def request_scope_def bindE_Inl_iff bindE_Inr_iff
      split: sum.splits prod.splits option.splits)

text \<open>Requests one after the other, each with its own commit.\<close>

fun run_uploads ::
  "(string \<Rightarrow> json_error + pyval) \<Rightarrow> upload_validation \<Rightarrow> settings \<Rightarrow> 'w storage_port \<Rightarrow>
   (stored_file \<Rightarrow> 'db \<Rightarrow> (stored_file \<times> 'db) res) \<Rightarrow> (('db \<Rightarrow> exc option) \<times> uuid \<times> upload_form) list \<Rightarrow>
   'w \<times> 'db \<Rightarrow> upload_file_response res list \<times> 'w \<times> 'db" where
  "run_uploads json validate s st persist [] wdb = ([], wdb)"
| "run_uploads json validate s st persist ((commit, fresh, form) # reqs) wdb =
     (let (resp, wdb1) = upload_request json validate s st persist commit fresh form wdb;
          (resps, wdb2) = run_uploads json validate s st persist reqs wdb1
      in (resp # resps, wdb2))"

context file_upload begin

text \<open>No request overwrites or removes an object that is there.\<close>

lemma upload_request_frame:
  assumes "upload_request json validate s st persist commit fresh form (w, db) = (resp, w', db')"
    and "key_path k'" "object_at d' k' w \<noteq> None"
  shows "object_at d' k' w' = object_at d' k' w"
proof (cases resp)
  case (Inl e)
  from upload_request_Inl(2) [OF assms(1) [unfolded Inl]] show ?thesis
    using upload_handle_frame assms(2,3) by blast
next
  case (Inr a)
  from upload_request_Inr [OF assms(1) [unfolded Inr]] show ?thesis
    using upload_handle_frame assms(2,3) by metis
qed

lemma upload_request_backed:
  assumes "files_backed object_at digest w (rows db)"
    and "upload_request json validate s st persist commit fresh form (w, db) = (resp, w', db')"
  shows "files_backed object_at digest w' (rows db')"
proof (cases resp)
  case (Inl e)
  from upload_request_Inl [OF assms(2) [unfolded Inl]] show ?thesis
    using upload_handle_backed(1) assms(1) by blast
next
  case (Inr a)
  from upload_request_Inr [OF assms(2) [unfolded Inr]] show ?thesis
    using upload_handle_backed(2) assms(1) by metis
qed

lemma run_uploads_keeps:
  "run_uploads json validate s st persist reqs wdb = (resps, wdb') \<Longrightarrow>
   (files_backed object_at digest (fst wdb) (rows (snd wdb)) \<longrightarrow>
      files_backed object_at digest (fst wdb') (rows (snd wdb')))
   \<and> (\<forall>d k. key_path k \<longrightarrow> object_at d k (fst wdb) \<noteq> None \<longrightarrow>
        object_at d k (fst wdb') = object_at d k (fst wdb))"
proof (induction reqs arbitrary: wdb resps)
  case (Cons q reqs)
  obtain commit fresh form where q: "q = (commit, fresh, form)" by (cases q) auto
  obtain resp w1 db1 where one:
    "upload_request json validate s st persist commit fresh form (fst wdb, snd wdb) = (resp, w1, db1)"
    by (metis prod.exhaust)
  obtain rs where rest: "run_uploads json validate s st persist reqs (w1, db1) = (rs, wdb')"
    using Cons.prems q one by (auto split: prod.splits)
  from Cons.IH [OF rest] upload_request_backed [OF _ one] upload_request_frame [OF one]
  show ?case by simp
qed simp

lemma upload_stores_bytes:
  assumes "upload_request json validate s st persist commit fresh form (w, db) = (Inr resp, w', db')"
  obtains c l where "upload_command json validate s form = Inr c"
    and "mk_storage_location (PStr (uc_path c)) (PStr (uc_name c)) = Inr l"
    and "up_disk resp = uc_disk c" "up_key resp = key l"
    and "object_at (uc_disk c) (key l) w = None"
    and "object_at (uc_disk c) (key l) w' = Some (uf_file form)"
    and "up_size_bytes resp = int (length (uf_file form))" and "int (length (uf_file form)) \<le> limit"
    and "uf_file form \<noteq> []"
    and "up_checksum resp = digest (uf_file form)" and "up_file_uuid resp = fresh"
    and "\<And>d' k'. key_path k' \<Longrightarrow> (d', k') \<noteq> (uc_disk c, key l) \<Longrightarrow> object_at d' k' w' = object_at d' k' w"
    and "\<exists>r. (FileId fresh, r) \<in> set (rows db') \<and> fl_disk r = uc_disk c \<and> row_location r = l
          \<and> fl_checksum r = digest (uf_file form)"
proof -
  obtain c f where c: "upload_command json validate s form = Inr c"
    and h: "upload_handle st persist fresh c (chunks_of (uf_file form)) w db = (Inr (f, db'), w')"
    and resp: "resp = upload_response_of f"
    using upload_request_Inr [OF assms] .
  obtain l g where l: "upload_check st c w = Inr l"
    and g: "upload_write st fresh c (chunks_of (uf_file form)) l w = (Inr g, w')"
    and p: "persist g db = Inr (f, db')"
    using upload_handle_Inr [OF h] .
  note chk = upload_check_Inr [OF l]
  note wr = upload_write_Inr [OF g chk(1)]
  have f: "sf_id f = sf_id g" "sf_disk f = sf_disk g" "sf_location f = sf_location g"
    "sf_size_bytes f = sf_size_bytes g" "sf_checksum f = sf_checksum g"
    by (subst persist_returns [OF p], simp)+
  have ne: "uf_file form \<noteq> []" using wr(5,7) by (auto simp: file_inv_def)
  obtain r where r: "(sf_id g, r) \<in> set (rows db')" "row_describes g r" using persist_row [OF p] by blast
  show thesis
    by (rule that [OF c chk(4)])
      (use chk wr f ne resp r row_describes_location [OF r(2)] upload_write_frame [OF g chk(3)] in
        \<open>auto simp: upload_response_of_def file_key_def row_describes_def\<close>)
qed

text \<open>Giving up on the row takes the bytes back, unless the location was lost to another upload.\<close>

lemma upload_record_Inl:
  assumes "upload_record st persist c l f w db = (Inl e, w')"
  shows "(persist f db = Inl e \<and> already_stored e \<and> w' = w)
    \<or> (persist f db = Inl e \<and> \<not> already_stored e \<and> object_at (uc_disk c) (key l) w' = None)
    \<or> (\<exists>e'. persist f db = Inl e' \<and> sp_delete st (uc_disk c) (key l) w = (Inl e, w'))"
proof (cases "persist f db")
  case (Inl e0)
  obtain y w1 where d: "sp_delete st (uc_disk c) (key l) w = (y, w1)" by fastforce
  show ?thesis
    using assms Inl d delete_done [of "uc_disk c" "key l" w w1]
    by (cases y) (auto simp: upload_record_def split: if_splits)
next
  case (Inr p)
  then show ?thesis using assms by (cases p) (simp add: upload_record_def)
qed

end

section \<open>The slice on the deployment's storage and tables\<close>

lemma get_file_storage_simps [simp]:
  "sp_supports (get_file_storage hexdigest fs s) = supports (build_disk_registry s)"
  "sp_exists (get_file_storage hexdigest fs s) = storage_exists fs (build_disk_registry s)"
  "sp_put (get_file_storage hexdigest fs s) =
     storage_put hexdigest fs (build_disk_registry s) (files_max_upload_bytes s)"
  "sp_delete (get_file_storage hexdigest fs s) = storage_delete fs (build_disk_registry s)"
  by (simp_all add: get_file_storage_def Let_def sp_supports_def supports_def fun_eq_iff)

definition hex_digest :: "(bytes \<Rightarrow> string) \<Rightarrow> bool" where
  "hex_digest hexdigest \<longleftrightarrow> (\<forall>bs. list_all is_hex_char (hexdigest bs))"

lemma checksum_validated:
  assumes "hex_digest hexdigest"
  shows "validated_checksum (PStr (checksum_of hexdigest bs)) = Inr (checksum_of hexdigest bs)"
proof -
  have "list_all (\<lambda>c. \<not> is_space c) (checksum_of hexdigest bs)"
  proof -
    have "list_all (\<lambda>c. \<not> is_space c) (CHECKSUM_ALGORITHM @ '':'')" by code_simp
    then show ?thesis using assms hex_char_not(9) by (auto simp: checksum_of_def hex_digest_def list_all_iff)
  qed
  then show ?thesis by (simp add: validated_checksum_def strip_none) (simp add: checksum_of_def CHECKSUM_ALGORITHM_def)
qed

lemma disk_name_validated: "wf_disks disks \<Longrightarrow> supports disks d \<Longrightarrow> validated_disk (PStr d) = Inr d"
proof -
  assume wf: "wf_disks disks" and d: "supports disks d"
  then obtain c where "(d, c) \<in> set disks" by (auto simp: supports_def disk_names_of_def)
  then have "lower (strip d) = d \<and> d \<noteq> [] \<and> length d \<le> MAX_DISK_LENGTH"
    using wf by (auto simp: wf_disks_def list_all_iff)
  then show ?thesis by (simp add: validated_disk_def Let_def)
qed

lemma file_upload_deployed:
  assumes "fsspec_backend fs obj_at" "hex_digest hexdigest" "0 \<le> files_max_upload_bytes s"
  shows "file_upload (get_file_storage hexdigest fs s) (disk_object obj_at (build_disk_registry s))
    (checksum_of hexdigest) (files_max_upload_bytes s) (files_persist jsonb) fd_files"
proof -
  have f: "fsspec_storage fs obj_at (build_disk_registry s) (files_max_upload_bytes s)"
    by (intro fsspec_storage.intro fsspec_storage_axioms.intro assms build_disk_registry_wf)
  have port: "file_storage (supports (build_disk_registry s)) (storage_exists fs (build_disk_registry s))
    (storage_put hexdigest fs (build_disk_registry s) (files_max_upload_bytes s))
    (storage_delete fs (build_disk_registry s)) (disk_object obj_at (build_disk_registry s))
    (checksum_of hexdigest) (files_max_upload_bytes s)"
    by (rule fsspec_storage.storage_port [OF f])
  show ?thesis
    by (intro file_upload.intro file_upload_axioms.intro files.file_repository_axioms)
      (simp_all add: port checksum_validated [OF assms(2)] disk_name_validated [OF build_disk_registry_wf])
qed

interpretation uploads: file_upload "get_file_storage (\<lambda>_. []) memory_fs default_settings"
  "disk_object memory_at (build_disk_registry default_settings)" "checksum_of (\<lambda>_. [])"
  "files_max_upload_bytes default_settings" "files_persist jsonb" fd_files
  for jsonb :: "pyval dict \<Rightarrow> pyval dict option"
  by (rule file_upload_deployed [OF memory.fsspec_backend_axioms])
    (simp_all add: hex_digest_def default_settings_def)

section \<open>Properties\<close>

text \<open>
  C9. Over any sequence of uploads, whatever fails on the way, the row of a recorded file
  describes the bytes stored at its location, and no object that was there is overwritten or
  removed.
\<close>

theorem uploads_backed:
  assumes "fsspec_backend fs obj_at" "hex_digest hexdigest" "0 \<le> files_max_upload_bytes s"
    and "files_backed (disk_object obj_at (build_disk_registry s)) (checksum_of hexdigest) w (fd_files db)"
    and "run_uploads json validate s (get_file_storage hexdigest fs s) (files_persist jsonb) reqs (w, db)
      = (resps, w', db')"
  shows "files_backed (disk_object obj_at (build_disk_registry s)) (checksum_of hexdigest) w' (fd_files db')
    \<and> (\<forall>d k. key_path k \<longrightarrow> disk_object obj_at (build_disk_registry s) d k w \<noteq> None \<longrightarrow>
         disk_object obj_at (build_disk_registry s) d k w' = disk_object obj_at (build_disk_registry s) d k w)"
  using file_upload.run_uploads_keeps [OF file_upload_deployed [OF assms(1-3)] assms(5)] assms(4)
  by simp


text \<open>
  A request that is refused changes no row. It changes no byte either when its form does
  not make a command, when the disk, the location or its being taken is the reason, or when
  the upload exceeds the limit, which is then the error reported.
\<close>

theorem upload_refused:
  assumes "upload_request json validate s (get_file_storage hexdigest fs s) (files_persist jsonb) commit fresh
      form (w, db) = (Inl e, w', db')"
    and "fsspec_backend fs obj_at" "0 \<le> files_max_upload_bytes s"
  shows "db' = db
    \<and> (\<forall>c. upload_command json validate s form = Inr c \<longrightarrow>
         (\<forall>e'. upload_check (get_file_storage hexdigest fs s) c w = Inl e' \<longrightarrow> e = e' \<and> w' = w)
       \<and> (\<forall>l. upload_check (get_file_storage hexdigest fs s) c w = Inr l \<longrightarrow>
            files_max_upload_bytes s < int (length (uf_file form)) \<longrightarrow>
            e = files_exc FileTooLargeError \<and> w' = w))
    \<and> (\<forall>e'. upload_command json validate s form = Inl e' \<longrightarrow> e = e' \<and> w' = w)"
proof -
  let ?st = "get_file_storage hexdigest fs s"
  note r = upload_request_Inl [OF assms(1)]
  have f: "fsspec_storage fs obj_at (build_disk_registry s) (files_max_upload_bytes s)"
    by (intro fsspec_storage.intro fsspec_storage_axioms.intro assms build_disk_registry_wf)
  have handled: "upload_handle ?st (files_persist jsonb) fresh c (chunks_of (uf_file form)) w db = (Inl e, w')"
    if "upload_command json validate s form = Inr c"
      and "upload_handle ?st (files_persist jsonb) fresh c (chunks_of (uf_file form)) w db = (Inl e1, w1)" for c e1 w1
    using r that by auto
  have a: "e = e' \<and> w' = w" if c: "upload_command json validate s form = Inr c" and k: "upload_check ?st c w = Inl e'" for c e'
    using handled [OF c] k by (simp add: upload_handle_def)
  have b: "e = files_exc FileTooLargeError \<and> w' = w"
    if c: "upload_command json validate s form = Inr c" and k: "upload_check ?st c w = Inr l"
      and big: "files_max_upload_bytes s < int (length (uf_file form))" for c l
  proof -
    have "supports (build_disk_registry s) (uc_disk c)"
      using k by (auto simp: upload_check_def split: if_splits)
    then have "sp_put ?st (uc_disk c) (key l) (chunks_of (uf_file form)) w = (Inl (files_exc FileTooLargeError), w)"
      using file_storage.put_too_large [OF fsspec_storage.storage_port [OF f]] big by simp
    then show ?thesis using handled [OF c] k by (simp add: upload_handle_def upload_write_def)
  qed
  show ?thesis using r a b by auto
qed



text \<open>
  C27. An empty upload that passes the check is refused after its bytes were written: the
  empty object stays without a row, and the location is taken from then on.
\<close>

theorem empty_upload_orphans:
  assumes "fsspec_backend fs obj_at" "hex_digest hexdigest" "0 \<le> files_max_upload_bytes s"
    and "upload_command json validate s form = Inr c" and "uf_file form = []"
    and "upload_check (get_file_storage hexdigest fs s) c w = Inr l"
    and "sp_put (get_file_storage hexdigest fs s) (uc_disk c) (key l) [] w = (Inr written, w')"
  shows "(\<exists>e. upload_request json validate s (get_file_storage hexdigest fs s) (files_persist jsonb) commit fresh
      form (w, db) = (Inl e, w', db))
    \<and> disk_object obj_at (build_disk_registry s) (uc_disk c) (key l) w' = Some []"
proof -
  note up = file_upload_deployed [OF assms(1-3)]
  note chk = file_upload.upload_check_Inr [OF up assms(6)]
  have chunks: "chunks_of (uf_file form) = []" using assms(5) by (simp add: chunks_of.simps)
  obtain x where x: "upload_write (get_file_storage hexdigest fs s) fresh c [] l w = (x, w')"
    using assms(7) by (simp add: upload_write_def)
  have "\<exists>e. x = Inl e"
  proof (cases x)
    case (Inr f)
    from file_upload.upload_write_Inr(5,7) [OF up x [unfolded Inr] chk(1)] show ?thesis
      by (simp add: file_inv_def)
  qed simp
  then obtain e where "x = Inl e" ..
  then have "upload_request json validate s (get_file_storage hexdigest fs s) (files_persist jsonb) commit fresh
      form (w, db) = (Inl e, w', db)"
    using assms(4,6) x chunks
    by (simp add: upload_request_def upload_file_def upload_handle_def request_scope_def)
  moreover have "disk_object obj_at (build_disk_registry s) (uc_disk c) (key l) w' = Some []"
    using file_storage.put_done [OF file_upload.axioms(1) [OF up] assms(7)] by simp
  ultimately show ?thesis by blast
qed

section \<open>Witnesses\<close>

text \<open>One form, accepted by a validation that takes the fields as they are.\<close>

definition sample_validation :: upload_validation where
  "sample_validation a =
     Inr \<lparr>uc_disk = af_disk a, uc_path = af_path a, uc_name = af_name a, uc_content_type = af_content_type a,
          uc_metadata = [],
          uc_references = [\<lparr>ri_context = ''customs'', ri_entity_type = ''ClearanceCase'',
                            ri_entity_id = Some (Inl 1), ri_uuid = None\<rparr>]\<rparr>"

definition sample_form :: "bytes \<Rightarrow> upload_form" where
  "sample_form bs =
     \<lparr>uf_file = bs, uf_filename = Some ''invoice.pdf'', uf_content_type = None, uf_disk = None,
      uf_path = ''customs/cases'', uf_name = None, uf_metadata = None, uf_references = None\<rparr>"

definition sample_storage :: "memory storage_port" where
  "sample_storage = get_file_storage (\<lambda>_. ''ab'') memory_fs default_settings"

definition sample_upload :: "uuid \<Rightarrow> bytes \<Rightarrow> memory \<times> files_db \<Rightarrow> upload_file_response res \<times> memory \<times> files_db" where
  "sample_upload =
     (\<lambda>u bs. upload_request (\<lambda>_. Inl JSONDecodeError) sample_validation default_settings sample_storage
        (files_persist Some) (\<lambda>_. None) u (sample_form bs))"

definition sample_location :: storage_location where
  "sample_location = \<lparr>loc_path = ''customs/cases'', loc_name = ''invoice.pdf''\<rparr>"

definition sample_command :: upload_file_command where
  "sample_command =
     \<lparr>uc_disk = ''local'', uc_path = ''customs/cases'', uc_name = ''invoice.pdf'', uc_content_type = None,
      uc_metadata = [],
      uc_references = [\<lparr>ri_context = ''customs'', ri_entity_type = ''ClearanceCase'',
                        ri_entity_id = Some (Inl 1), ri_uuid = None\<rparr>]\<rparr>"

definition sample_file :: "uuid \<Rightarrow> bytes \<Rightarrow> stored_file" where
  "sample_file u bs =
     \<lparr>sf_id = FileId u, sf_disk = ''local'', sf_location = sample_location, sf_size_bytes = int (length bs),
      sf_content_type = DEFAULT_CONTENT_TYPE, sf_checksum = ''sha256:ab'', sf_metadata = [],
      sf_references = [\<lparr>ref_context = ''customs'', ref_entity_type = ''ClearanceCase'',
                        ref_entity_id = Some ''1'', ref_entity_uuid = None, ref_id = None\<rparr>]\<rparr>"

definition sample_world :: "bytes \<Rightarrow> memory" where
  "sample_world bs = [((''file'', ''/app/storage/customs/cases/invoice.pdf''), bs)]"

lemma sample_command_of_form:
  "upload_command (\<lambda>_. Inl JSONDecodeError) sample_validation default_settings (sample_form bs) = Inr sample_command"
  by (simp add: upload_command_def sample_form_def sample_validation_def sample_command_def parse_json_part_def
      or_else_def default_settings_def)

lemma sample_bytes [simp]: "uf_file (sample_form bs) = bs"
  by (simp add: sample_form_def)

lemma sample_chunks: "chunks_of [] = []" "chunks_of [1, 2, 3] = [[1, 2, 3]]"
  by (simp_all add: chunks_of.simps CHUNK_SIZE_def)

lemma sample_check: "upload_check sample_storage sample_command [] = Inr sample_location"
  by code_simp

lemma sample_write:
  "upload_write sample_storage 7 sample_command [[1, 2, 3]] sample_location []
     = (Inr (sample_file 7 [1, 2, 3]), sample_world [1, 2, 3])"
  "upload_write sample_storage 8 sample_command [[4, 5]] sample_location (sample_world [1, 2, 3])
     = (Inr (sample_file 8 [4, 5]), sample_world [4, 5])"
  by code_simp+

lemma sample_persist: "\<not> isl (files_persist Some (sample_file 7 [1, 2, 3]) empty_tables)"
  by code_simp

lemma sample_laws: "fsspec_backend memory_fs memory_at" "hex_digest (\<lambda>_. ''ab'')"
  "0 \<le> files_max_upload_bytes default_settings"
  by (simp_all add: memory.fsspec_backend_axioms hex_digest_def is_hex_char_def default_settings_def)

lemma sample_handle:
  "\<exists>f db'. upload_handle sample_storage (files_persist Some) 7 sample_command [[1, 2, 3]] [] empty_tables
     = (Inr (f, db'), sample_world [1, 2, 3])"
  using sample_persist
  by (auto simp: upload_handle_def sample_check sample_write upload_record_def split: sum.splits)

lemma sample_upload_accepted: "\<exists>resp w' db'. sample_upload 7 [1, 2, 3] ([], empty_tables) = (Inr resp, w', db')"
  using sample_handle
  by (auto simp: sample_upload_def upload_request_def upload_file_def sample_command_of_form sample_chunks
      request_scope_def)

theorem uploads_backed_witness:
  "\<exists>resps w' db'.
     run_uploads (\<lambda>_. Inl JSONDecodeError) sample_validation default_settings sample_storage (files_persist Some)
       [(\<lambda>_. None, 7, sample_form [1, 2, 3]), (\<lambda>_. Some (PyError ''OSError''), 8, sample_form [4])] ([], empty_tables)
       = (resps, w', db')
     \<and> files_backed (disk_object memory_at (build_disk_registry default_settings)) (checksum_of (\<lambda>_. ''ab'')) w'
         (fd_files db')"
proof -
  obtain resps w' db' where r:
    "run_uploads (\<lambda>_. Inl JSONDecodeError) sample_validation default_settings sample_storage (files_persist Some)
       [(\<lambda>_. None, 7, sample_form [1, 2, 3]), (\<lambda>_. Some (PyError ''OSError''), 8, sample_form [4])] ([], empty_tables)
       = (resps, w', db')"
    by (metis prod.exhaust)
  have e: "files_backed (disk_object memory_at (build_disk_registry default_settings)) (checksum_of (\<lambda>_. ''ab'')) []
      (fd_files empty_tables)"
    by (simp add: files_backed_def empty_tables_def)
  show ?thesis using uploads_backed [OF sample_laws e r [unfolded sample_storage_def]] r by blast
qed


theorem upload_refused_witness:
  "\<exists>e w'. upload_request (\<lambda>_. Inl JSONDecodeError) (\<lambda>_. Inl []) default_settings sample_storage (files_persist Some)
     (\<lambda>_. None) 7 (sample_form [1]) ([], empty_tables) = (Inl e, w', empty_tables) \<and> w' = []"
proof -
  have c: "upload_command (\<lambda>_. Inl JSONDecodeError) (\<lambda>_. Inl []) default_settings (sample_form [1])
      = Inl (RequestInvalid [])"
    by (simp add: upload_command_def sample_form_def parse_json_part_def)
  then have r: "upload_request (\<lambda>_. Inl JSONDecodeError) (\<lambda>_. Inl []) default_settings sample_storage
      (files_persist Some) (\<lambda>_. None) 7 (sample_form [1]) ([], empty_tables) = (Inl (RequestInvalid []), [], empty_tables)"
    by (simp add: upload_request_def upload_file_def request_scope_def)
  show ?thesis using upload_refused [OF r [unfolded sample_storage_def] sample_laws(1,3)] c r by blast
qed



theorem empty_upload_orphans_witness:
  "\<exists>e w'. sample_upload 7 [] ([], empty_tables) = (Inl e, w', empty_tables)
     \<and> disk_object memory_at (build_disk_registry default_settings) ''local'' (key sample_location) w' = Some []"
proof -
  have disk: "uc_disk sample_command = ''local''" by (simp add: sample_command_def)
  have p: "sp_put sample_storage (uc_disk sample_command) (key sample_location) [] []
      = (Inr \<lparr>so_size_bytes = 0, so_checksum = ''sha256:ab''\<rparr>, sample_world [])"
    by code_simp
  from empty_upload_orphans [OF sample_laws sample_command_of_form sample_bytes sample_check [unfolded sample_storage_def]
      p [unfolded sample_storage_def]]
  show ?thesis unfolding sample_upload_def sample_storage_def disk by blast
qed

end
