(* ===== verification/Composition.thy ===== *)
theory Composition
  imports Shipment_Storage Customs_Storage Upload_File Bus_Cli
begin

text \<open>
  The composition roots: the HTTP process (\<open>main.py\<close>), which registers the destinations of
  the messages and mounts the routers of the modules, and the worker process
  (\<open>worker.py\<close>), which binds the modules to their schemas and handlers; and what the worker makes of the
  announcement of a finalized manifest. Object-relational
  mappings, logging and the server are the libraries'.
\<close>

section \<open>The HTTP process\<close>

text \<open>
  The lifespan registers the destinations of both modules, each behind its own flag, with the
  configured primary exchange.
\<close>

definition lifespan_destinations :: "settings \<Rightarrow> destination_registry" where
  "lifespan_destinations s =
     (let primary = rabbitmq_primary_exchange s;
          reg = snd (register_shipment_message_destinations primary (False, []))
      in snd (register_customs_message_destinations primary (False, reg)))"

definition health :: "settings \<Rightarrow> string dict" where
  "health s = [(''status'', ''ok''), (''environment'', app_env s)]"

definition app_routes :: route_table where
  "app_routes = shipment_routes @ customs_routes @ files_routes @ [(''GET'', ''/health'')]"

section \<open>The worker process\<close>

definition build_module_registry :: "settings \<Rightarrow> module_registry" where
  "build_module_registry s =
     module_registry_of
       [\<lparr>mb_name = ''shipment'', mb_schema = shipment_schema s, mb_handlers = []\<rparr>,
        \<lparr>mb_name = ''customs_clearance'', mb_schema = customs_schema s, mb_handlers = build_message_handlers\<rparr>]"

lemma build_module_registry_get:
  "get_module (build_module_registry s) name =
     (if name = ''shipment'' then Inr \<lparr>mb_name = ''shipment'', mb_schema = shipment_schema s, mb_handlers = []\<rparr>
      else if name = ''customs_clearance''
      then Inr \<lparr>mb_name = ''customs_clearance'', mb_schema = customs_schema s, mb_handlers = build_message_handlers\<rparr>
      else Inl (bus_exc UnknownModuleError))"
  by (auto simp: build_module_registry_def module_registry_of_get)

lemma lifespan_destinations_of:
  "map_of (lifespan_destinations s) (message_type ShipmentManifestFinalized) =
     Some \<lparr>exchange = rabbitmq_primary_exchange s, routing_key = SHIPMENT_MANIFEST_FINALIZED_ROUTING_KEY\<rparr>"
  "map_of (lifespan_destinations s) (message_type DocumentVerificationCompleted) =
     Some \<lparr>exchange = rabbitmq_primary_exchange s, routing_key = DOCUMENT_VERIFICATION_COMPLETED_ROUTING_KEY\<rparr>"
  by (simp_all add: lifespan_destinations_def Let_def register_shipment_message_destinations_def
      register_customs_message_destinations_def register_destination_def ShipmentManifestFinalized_def
      DocumentVerificationCompleted_def init_message_class_def)

section \<open>A finalized manifest on its way to Customs\<close>

text \<open>The announcement of a finalized manifest is a command that the Customs handler accepts.\<close>

lemma finalized_body_command:
  assumes "wf_manifest m"
  shows "open_command_of_body (to_body (finalized_event s m)) =
    Inr \<lparr>oc_shipment_id = str_shipment_id (sh_id s), oc_commodity_code = commodity_code m\<rparr>"
proof -
  have c: "strip (commodity_code m) = commodity_code m" "commodity_code m \<noteq> []" "length (commodity_code m) \<le> 16"
  proof -
    have u: "upper (strip (commodity_code m)) = commodity_code m" using assms by (simp add: wf_manifest_def)
    have "strip (upper (strip (commodity_code m))) = upper (strip (commodity_code m))" by (simp add: py_str)
    then show "strip (commodity_code m) = commodity_code m" unfolding u .
    show "commodity_code m \<noteq> []" "length (commodity_code m) \<le> 16"
      using assms by (simp_all add: wf_manifest_def MAX_COMMODITY_CODE_LENGTH_def)
  qed
  have "Suc 0 \<le> length (commodity_code m)" using c(2) by (cases "commodity_code m") simp_all
  then show ?thesis
    using c(1,3)
    by (simp add: open_command_of_body_def to_body_def finalized_event_def string_field_def str_shipment_id_def)
qed

lemma dispatch_first_attempt:
  assumes "handlers_for reg (env_message_type env) = [h]" "attempt run commit t h env db = (Inr True, db')"
  shows "dispatch run commit reg retries t env db = (Inr (), db', Suc t, [(env_message_id env, handler_name h)])"
  using assms by (simp add: dispatch_def run_handler_def)

lemma attempt_succeeds:
  assumes "distinct (map inbox_key (md_inbox db))" "(env_message_id env, handler_name h) \<notin> inbox_key ` set (md_inbox db)"
    and "run t h env db = Inr db1" "md_inbox db1 = md_inbox db" "commit t (db1\<lparr>md_inbox := md_inbox db @
      [\<lparr>ib_message_id = env_message_id env, ib_message_type = env_message_type env, ib_handler_name = handler_name h\<rparr>]\<rparr>) = None"
    and "column_text 255 (env_message_type env)" "column_text 255 (handler_name h)"
  shows "attempt run commit t h env db = (Inr True, db1\<lparr>md_inbox := md_inbox db @
      [\<lparr>ib_message_id = env_message_id env, ib_message_type = env_message_type env, ib_handler_name = handler_name h\<rparr>]\<rparr>)"
proof -
  have w: "was_handled (env_message_id env) (handler_name h) (md_inbox db) = Inr False"
    using was_handled_distinct [OF assms(1)] assms(2) by simp
  have r: "record_inbox (env_message_id env) (env_message_type env) (handler_name h) (md_inbox db)
      = Inr (md_inbox db @ [\<lparr>ib_message_id = env_message_id env, ib_message_type = env_message_type env,
                            ib_handler_name = handler_name h\<rparr>])"
    using assms(2,6,7) by (simp add: record_inbox_Inr)
  show ?thesis using assms(3-5) w r by (simp add: attempt_def attempt_body_def)
qed

text \<open>The case that the handler opens for a shipment identifier.\<close>

definition opened_row :: "uuid \<Rightarrow> string \<Rightarrow> case_row" where
  "opened_row u sid =
     \<lparr>kr_id = u, kr_shipment_id = sid, kr_status = ''Opened'', kr_declaration_amount = None,
      kr_declaration_currency = None, kr_duty_amount = None, kr_duty_currency = None, kr_documents = []\<rparr>"

text \<open>What the tables of a module hold: no two documents share a key.\<close>

definition documents_distinct :: "case_table \<Rightarrow> bool" where
  "documents_distinct rows \<longleftrightarrow> distinct (map dr_id (concat (map (kr_documents \<circ> snd) rows)))"

lemma other_rows_absent: "k \<notin> fst ` set rows \<Longrightarrow> other_rows k rows = map snd rows"
  by (induction rows) (auto simp: other_rows_def)

lemma customs_handler_opens:
  assumes "open_command_of_body (env_body env) = Inr cmd" "oc_shipment_id cmd = show_uuid v"
    and "CaseId (fresh t) \<notin> fst ` set (md_store db)" "documents_distinct (md_store db)"
  shows "customs_run cases_persist fresh t OpenClearanceCaseMessageHandler env db =
    Inr (db\<lparr>md_store := md_store db @ [(CaseId (fresh t), opened_row (fresh t) (show_uuid v))]\<rparr>)"
proof -
  let ?c = "\<lparr>cc_id = CaseId (fresh t), cc_shipment_id = show_uuid v, cc_status = OPENED,
      cc_declaration_value = None, cc_duty_fee = None, cc_documents = []\<rparr>"
  have ne: "show_uuid v \<noteq> []" by (metis list.size(3) show_uuid_length zero_neq_numeral)
  have o: "open_for_shipment (CaseId (fresh t)) (PStr (show_uuid v)) = Inr ?c"
    using ne by (simp add: open_for_shipment_def validated_shipment_id_def Let_def)
  have row: "case_to_row ?c = opened_row (fresh t) (show_uuid v)"
    by (simp add: case_to_row_def opened_row_def)
  have "case_check (opened_row (fresh t) (show_uuid v)) (map snd (md_store db)) = None"
    using assms(4)
    by (simp add: case_check_def opened_row_def case_row_types_ok_def column_text_def nul_free_show_uuid numeric_14_2_ok_def documents_distinct_def
        all_assessment_statuses_def)
  then have p: "cases_persist ?c (md_store db)
      = Inr (md_store db @ [(CaseId (fresh t), opened_row (fresh t) (show_uuid v))])"
    using assms(3) other_rows_absent [OF assms(3)]
    by (simp add: cases_persist_def table_save_Inr row case_key_def opened_row_def update_absent)
  show ?thesis
    using assms(1,2) o p
    by (simp add: customs_run_def open_case_message_handle_def open_clearance_case_handle_def on_store_def)
qed

text \<open>Encoding a body and decoding it gives its items back.\<close>

definition json_transports ::
  "(pyval dict \<Rightarrow> exc + 8 word list) \<Rightarrow> (8 word list \<Rightarrow> json_error + pyval) \<Rightarrow> pyval dict \<Rightarrow> bool" where
  "json_transports dumps loads body \<longleftrightarrow>
     (\<exists>bytes. dumps body = Inr bytes \<and> bytes \<noteq> [] \<and> loads bytes = Inr (PDict (map (\<lambda>(k, v). (PStr k, v)) body)))"

lemma object_items_back: "object_items (map (\<lambda>(k, v). (PStr k, v)) body) = body"
  by (induction body) (auto simp: object_items_def)

lemma row_message_envelope:
  assumes "json_transports dumps loads (ob_body r)"
  shows "envelope_of loads (row_message dumps r) =
    Inr \<lparr>env_message_id = ob_message_id r, env_message_type = ob_message_type r, env_body = ob_body r,
         env_headers = ob_headers r\<rparr>"
  using assms object_items_back
  by (auto simp: json_transports_def envelope_of_def row_message_def parse_show_uuid decode_body_def)

lemma row_message_processed:
  assumes "ob_headers r = []" "ob_message_type r \<in> set (subscribed_types reg)" "ob_message_type r \<noteq> []"
  shows "should_process t reg (row_message dumps r) = Inr True"
proof -
  have "show_uuid (ob_message_id r) \<noteq> []" by (metis list.size(3) show_uuid_length zero_neq_numeral)
  then show ?thesis
    using assms
    by (simp add: should_process_def set_text_def row_message_def read_redelivery_count_absent)
qed

section \<open>The case of an announcement\<close>

text \<open>The handler of the worker's binding, its inbox row and the case it opens.\<close>

definition processed_inbox :: "outbox_message \<Rightarrow> customs_db \<Rightarrow> inbox_message list" where
  "processed_inbox r db =
     md_inbox db @ [\<lparr>ib_message_id = ob_message_id r, ib_message_type = ob_message_type r,
                     ib_handler_name = ''OpenClearanceCaseMessageHandler''\<rparr>]"

lemma subscribed_customs_type:
  "SHIPMENT_MANIFEST_FINALIZED \<in> set (subscribed_types build_message_handlers)" "SHIPMENT_MANIFEST_FINALIZED \<noteq> []"
  by (simp_all add: build_message_handlers_def subscribed_types_register OpenClearanceCaseMessageHandler_def
      init_handler_class_def) (simp add: SHIPMENT_MANIFEST_FINALIZED_def)

lemma announces_row:
  assumes "announces dests (finalized_event s m) r"
  shows "ob_message_type r = SHIPMENT_MANIFEST_FINALIZED \<and> ob_headers r = [] \<and> ob_body r = to_body (finalized_event s m)"
  using assms
  by (simp add: announces_def finalized_event_def ShipmentManifestFinalized_def init_message_class_def
      SHIPMENT_MANIFEST_FINALIZED_def)

lemma opens_case_of_row:
  assumes row: "ob_message_type r = SHIPMENT_MANIFEST_FINALIZED \<and> ob_headers r = [] \<and> ob_body r = to_body (finalized_event s m)"
      "wf_manifest m"
    and json: "json_transports dumps loads (ob_body r)"
    and schema: "distinct (map inbox_key (md_inbox db))" "documents_distinct (md_store db)"
    and new: "(ob_message_id r, ''OpenClearanceCaseMessageHandler'') \<notin> inbox_key ` set (md_inbox db)"
      "CaseId (fresh t) \<notin> fst ` set (md_store db)"
    and commit: "\<And>db. commit t db = None"
    and d: "dl_message d = row_message dumps r"
    and h: "handle_delivery amqp failure_text loads (customs_run cases_persist fresh) commit
      build_message_handlers retries t d (c, db) = (res, (c', db'), t', ks)"
  shows "db' = db\<lparr>md_store := md_store db @ [(CaseId (fresh t), opened_row (fresh t) (str_shipment_id (sh_id s)))],
      md_inbox := processed_inbox r db\<rparr>"
    and "perform amqp (Ack (dl_tag d)) c = (res, c')"
    and "ks = [(ob_message_id r, ''OpenClearanceCaseMessageHandler'')]" and "t' = Suc t"
proof -
  have ty: "ob_message_type r = SHIPMENT_MANIFEST_FINALIZED" "ob_headers r = []" "ob_body r = to_body (finalized_event s m)"
    using row(1) by simp_all
  let ?env = "\<lparr>env_message_id = ob_message_id r, env_message_type = ob_message_type r, env_body = ob_body r,
         env_headers = ob_headers r\<rparr>"
  have hs: "handlers_for build_message_handlers (env_message_type ?env) = [OpenClearanceCaseMessageHandler]"
    using ty(1) by (simp add: handlers_for_build)
  have sub: "ob_message_type r \<in> set (subscribed_types build_message_handlers)" "ob_message_type r \<noteq> []"
    using subscribed_customs_type by (simp_all add: ty(1))
  have name: "handler_name OpenClearanceCaseMessageHandler = ''OpenClearanceCaseMessageHandler''"
    by (simp add: OpenClearanceCaseMessageHandler_def init_handler_class_def)
  let ?db1 = "db\<lparr>md_store := md_store db @ [(CaseId (fresh t), opened_row (fresh t) (str_shipment_id (sh_id s)))]\<rparr>"
  have run: "customs_run cases_persist fresh t OpenClearanceCaseMessageHandler ?env db = Inr ?db1"
  proof -
    have cmd: "open_command_of_body (env_body ?env) = Inr \<lparr>oc_shipment_id = str_shipment_id (sh_id s),
        oc_commodity_code = commodity_code m\<rparr>"
      by (simp add: ty(3) finalized_body_command [OF row(2)])
    show ?thesis
      unfolding str_shipment_id_def
      by (rule customs_handler_opens [where fresh = fresh and t = t, OF cmd _ new(2) schema(2)])
        (simp add: str_shipment_id_def)
  qed
  have "attempt (customs_run cases_persist fresh) commit t OpenClearanceCaseMessageHandler ?env db =
      (Inr True, ?db1\<lparr>md_inbox := processed_inbox r db\<rparr>)"
    using attempt_succeeds [where env = ?env and h = OpenClearanceCaseMessageHandler
        and run = "customs_run cases_persist fresh" and t = t and commit = commit, OF schema(1) _ run]
      new(1) commit ty(1)
    by (simp add: name processed_inbox_def SHIPMENT_MANIFEST_FINALIZED_def column_text_def)
  note disp = dispatch_first_attempt [OF hs this]
  have proc: "should_process (bc_topology c) build_message_handlers (row_message dumps r) = Inr True"
    by (rule row_message_processed [OF ty(2) sub])
  show "db' = db\<lparr>md_store := md_store db @ [(CaseId (fresh t), opened_row (fresh t) (str_shipment_id (sh_id s)))],
      md_inbox := processed_inbox r db\<rparr>"
    and "perform amqp (Ack (dl_tag d)) c = (res, c')"
    and "ks = [(ob_message_id r, ''OpenClearanceCaseMessageHandler'')]" and "t' = Suc t"
    using h d proc row_message_envelope [OF json] disp name
    by (auto simp: handle_delivery_def Let_def split: prod.splits sum.splits)
qed

end
