(* ===== verification/Sql_Schema.thy ===== *)
theory Sql_Schema
  imports Persistence
begin

text \<open>
  Tables as the schema declares them: column types, defaults and constraints, what a table
  with such a declaration accepts (with SQL's three-valued logic in checks), and the
  statements of a migration on a catalog of schemas. PostgreSQL and SQLAlchemy are not part
  of the repository; what is stated of them is their documented behaviour on the
  declarations the repository uses.
\<close>

section \<open>Declarations\<close>

datatype sql_type =
    UuidT
  | VarcharT nat
  | TextT
  | BigIntT
  | NumericT nat nat
  | BooleanT
  | TimestampT
  | JsonbT
  | ArrayT sql_type

text \<open>\<open>func.now()\<close>, \<open>text(...)\<close>, a string literal and \<open>false()\<close> as server defaults.\<close>

datatype sql_default = NowDefault | SqlText string | TextDefault string | FalseDefault

record column_def =
  col_name :: string
  col_type :: sql_type
  col_nullable :: bool
  col_default :: "sql_default option"
  col_identity :: bool

definition not_null :: "string \<Rightarrow> sql_type \<Rightarrow> column_def" where
  "not_null n t = \<lparr>col_name = n, col_type = t, col_nullable = False, col_default = None, col_identity = False\<rparr>"

definition nullable :: "string \<Rightarrow> sql_type \<Rightarrow> column_def" where
  "nullable n t = (not_null n t)\<lparr>col_nullable := True\<rparr>"

definition with_default :: "sql_default \<Rightarrow> column_def \<Rightarrow> column_def" where
  "with_default d c = c\<lparr>col_default := Some d\<rparr>"

definition identity_column :: "string \<Rightarrow> column_def" where
  "identity_column n = (not_null n BigIntT)\<lparr>col_identity := True\<rparr>"

definition timestamp_column :: "string \<Rightarrow> column_def" where
  "timestamp_column n = with_default NowDefault (not_null n TimestampT)"

datatype sql_expr =
    Col string
  | IntLit int
  | IsNull sql_expr
  | Equals sql_expr sql_expr
  | Differs sql_expr sql_expr
  | Greater sql_expr sql_expr
  | Or sql_expr sql_expr
  | InTexts sql_expr "string list"

text \<open>
  A foreign key names its columns, the schema, table and columns it refers to, and cascades
  deletes. The flag of a unique constraint is \<open>NULLS NOT DISTINCT\<close>.
\<close>

datatype table_constraint =
    PrimaryKey string "string list"
  | Unique string "string list" bool
  | ForeignKey string "string list" string string "string list"
  | Check string sql_expr

record table_def =
  tb_columns :: "column_def list"
  tb_constraints :: "table_constraint list"

section \<open>What a table accepts\<close>

datatype 'n sql_value =
    SNull
  | SUuid uuid
  | SText string
  | SInt int
  | SNum 'n
  | SBool bool
  | STime
  | SJson "pyval dict"
  | STexts "string list"

text \<open>
  \<open>num p s x\<close>: the column type \<open>Numeric(p, s)\<close> holds \<open>x\<close>; \<open>json d\<close>: the database takes the
  document \<open>d\<close>.
\<close>

fun value_fits :: "(nat \<Rightarrow> nat \<Rightarrow> 'n \<Rightarrow> bool) \<Rightarrow> (pyval dict \<Rightarrow> bool) \<Rightarrow> sql_type \<Rightarrow> 'n sql_value \<Rightarrow> bool" where
  "value_fits num json t SNull = True"
| "value_fits num json UuidT (SUuid u) = True"
| "value_fits num json (VarcharT n) (SText s) = column_text n s"
| "value_fits num json TextT (SText s) = nul_free s"
| "value_fits num json BigIntT (SInt i) = (- (2 ^ 63) \<le> i \<and> i < 2 ^ 63)"
| "value_fits num json (NumericT p s) (SNum x) = num p s x"
| "value_fits num json BooleanT (SBool b) = True"
| "value_fits num json TimestampT STime = True"
| "value_fits num json JsonbT (SJson d) = json d"
| "value_fits num json (ArrayT (VarcharT n)) (STexts ss) = list_all (column_text n) ss"
| "value_fits num json t v = False"

type_synonym 'n sql_row = "string \<Rightarrow> 'n sql_value"

text \<open>Three-valued logic: \<open>SNull\<close> is unknown.\<close>

definition sql_bool :: "bool option \<Rightarrow> 'n sql_value" where
  "sql_bool b = (case b of None \<Rightarrow> SNull | Some x \<Rightarrow> SBool x)"

fun eval_expr :: "'n sql_row \<Rightarrow> sql_expr \<Rightarrow> 'n sql_value" where
  "eval_expr r (Col c) = r c"
| "eval_expr r (IntLit i) = SInt i"
| "eval_expr r (IsNull e) = SBool (eval_expr r e = SNull)"
| "eval_expr r (Equals a b) =
     (if eval_expr r a = SNull \<or> eval_expr r b = SNull then SNull else SBool (eval_expr r a = eval_expr r b))"
| "eval_expr r (Differs a b) =
     (if eval_expr r a = SNull \<or> eval_expr r b = SNull then SNull else SBool (eval_expr r a \<noteq> eval_expr r b))"
| "eval_expr r (Greater a b) =
     (case (eval_expr r a, eval_expr r b) of (SInt i, SInt j) \<Rightarrow> SBool (j < i) | _ \<Rightarrow> SNull)"
| "eval_expr r (Or a b) =
     (if eval_expr r a = SBool True \<or> eval_expr r b = SBool True then SBool True
      else if eval_expr r a = SBool False \<and> eval_expr r b = SBool False then SBool False else SNull)"
| "eval_expr r (InTexts e ss) = (case eval_expr r e of SText s \<Rightarrow> SBool (s \<in> set ss) | _ \<Rightarrow> SNull)"

text \<open>Two rows with one key; with \<open>NULLS DISTINCT\<close> a key that has a null equals no other.\<close>

definition same_key :: "bool \<Rightarrow> string list \<Rightarrow> 'n sql_row \<Rightarrow> 'n sql_row \<Rightarrow> bool" where
  "same_key nulls_equal cols r x \<longleftrightarrow> map x cols = map r cols \<and> (nulls_equal \<or> SNull \<notin> set (map r cols))"

text \<open>A check is violated only when it is false. A foreign key is not a matter of one table.\<close>

fun constraint_holds :: "table_constraint \<Rightarrow> 'n sql_row \<Rightarrow> 'n sql_row list \<Rightarrow> bool" where
  "constraint_holds (PrimaryKey n cols) r others =
     (SNull \<notin> set (map r cols) \<and> \<not> list_ex (same_key True cols r) others)"
| "constraint_holds (Unique n cols nnd) r others = (\<not> list_ex (same_key nnd cols r) others)"
| "constraint_holds (ForeignKey n cols s t refs) r others = True"
| "constraint_holds (Check n e) r others = (eval_expr r e \<noteq> SBool False)"

definition column_holds ::
  "(nat \<Rightarrow> nat \<Rightarrow> 'n \<Rightarrow> bool) \<Rightarrow> (pyval dict \<Rightarrow> bool) \<Rightarrow> 'n sql_row \<Rightarrow> column_def \<Rightarrow> bool" where
  "column_holds num json r c \<longleftrightarrow> value_fits num json (col_type c) (r (col_name c)) \<and> (col_nullable c \<or> r (col_name c) \<noteq> SNull)"

definition row_accepted ::
  "(nat \<Rightarrow> nat \<Rightarrow> 'n \<Rightarrow> bool) \<Rightarrow> (pyval dict \<Rightarrow> bool) \<Rightarrow> table_def \<Rightarrow> 'n sql_row \<Rightarrow> 'n sql_row list \<Rightarrow> bool" where
  "row_accepted num json t r others \<longleftrightarrow>
     list_all (column_holds num json r) (tb_columns t)
     \<and> list_all (\<lambda>c. constraint_holds c r others) (tb_constraints t)"

text \<open>Rows inserted one after the other beside those already there.\<close>

fun rows_accepted ::
  "(nat \<Rightarrow> nat \<Rightarrow> 'n \<Rightarrow> bool) \<Rightarrow> (pyval dict \<Rightarrow> bool) \<Rightarrow> table_def \<Rightarrow> 'n sql_row list \<Rightarrow> 'n sql_row list \<Rightarrow> bool" where
  "rows_accepted num json t [] others = True"
| "rows_accepted num json t (r # rs) others = (row_accepted num json t r others \<and> rows_accepted num json t rs (others @ [r]))"

text \<open>A row from its columns.\<close>

definition sql_row_of :: "(string \<times> 'n sql_value) list \<Rightarrow> 'n sql_row" where
  "sql_row_of vs c = (case map_of vs c of None \<Rightarrow> SNull | Some v \<Rightarrow> v)"

definition sql_option :: "('a \<Rightarrow> 'n sql_value) \<Rightarrow> 'a option \<Rightarrow> 'n sql_value" where
  "sql_option f v = (case v of None \<Rightarrow> SNull | Some x \<Rightarrow> f x)"

lemmas sql_row_simps =
  row_accepted_def column_holds_def not_null_def nullable_def with_default_def identity_column_def
  timestamp_column_def sql_row_of_def

section \<open>A catalog of schemas\<close>

record schema_content =
  sc_tables :: "(string \<times> table_def) list"
  sc_indexes :: "(string \<times> string \<times> string list) list"
  sc_sequences :: "(string \<times> int \<times> int \<times> int) list"

type_synonym catalog = "(string \<times> schema_content) list"

definition empty_schema_content :: schema_content where
  "empty_schema_content = \<lparr>sc_tables = [], sc_indexes = [], sc_sequences = []\<rparr>"

text \<open>
  The statements. A sequence is created \<open>IF NOT EXISTS\<close> with its start and bounds and dropped
  \<open>IF EXISTS\<close>, a schema is created \<open>IF NOT EXISTS\<close>.
\<close>

datatype ddl =
    CreateSchema string
  | CreateTable string string table_def
  | DropTable string string
  | CreateIndex string string string "string list"
  | DropIndex string string
  | CreateSequence string string int int int
  | DropSequence string string

fun ddl_schema :: "ddl \<Rightarrow> string" where
  "ddl_schema (CreateSchema s) = s"
| "ddl_schema (CreateTable s n t) = s"
| "ddl_schema (DropTable s n) = s"
| "ddl_schema (CreateIndex s n t cols) = s"
| "ddl_schema (DropIndex s n) = s"
| "ddl_schema (CreateSequence s n i lo hi) = s"
| "ddl_schema (DropSequence s n) = s"

text \<open>
  Tables, indexes and sequences of a schema share one name space with the indexes behind
  primary keys and unique constraints and the sequences behind identity columns.
\<close>

fun key_names :: "table_constraint \<Rightarrow> string list" where
  "key_names (PrimaryKey n cols) = [n]"
| "key_names (Unique n cols nnd) = [n]"
| "key_names c = []"

definition names_of_table :: "string \<Rightarrow> table_def \<Rightarrow> string list" where
  "names_of_table n t =
     n # concat (map key_names (tb_constraints t))
       @ concat (map (\<lambda>c. if col_identity c then [n @ ''_'' @ col_name c @ ''_seq''] else []) (tb_columns t))"

definition relation_names :: "schema_content \<Rightarrow> string list" where
  "relation_names c =
     concat (map (\<lambda>(n, t). names_of_table n t) (sc_tables c)) @ map fst (sc_indexes c) @ map fst (sc_sequences c)"

text \<open>
  The naming convention of the metadata, which Alembic applies to its statements as well, turns
  the name of a check into \<open>ck_<table>_<name>\<close>; the other names are written out.
\<close>

fun constraint_name :: "string \<Rightarrow> table_constraint \<Rightarrow> string" where
  "constraint_name table (PrimaryKey n cols) = n"
| "constraint_name table (Unique n cols nnd) = n"
| "constraint_name table (ForeignKey n cols s t refs) = n"
| "constraint_name table (Check n e) = ''ck_'' @ table @ ''_'' @ n"

definition MAX_IDENTIFIER :: nat where
  "MAX_IDENTIFIER = 63"

definition table_identifiers :: "string \<Rightarrow> table_def \<Rightarrow> string list" where
  "table_identifiers n t = n # map col_name (tb_columns t) @ map (constraint_name n) (tb_constraints t)"

definition column_names :: "table_def \<Rightarrow> string list" where
  "column_names t = map col_name (tb_columns t)"

text \<open>The part of a statement that looks at one schema only.\<close>

abbreviation programming_error :: exc where
  "programming_error \<equiv> PyError ''ProgrammingError''"

fun apply_in :: "ddl \<Rightarrow> schema_content \<Rightarrow> schema_content res" where
  "apply_in (CreateSchema s) c = Inr c"
| "apply_in (CreateTable s n t) c =
     (if list_ex (\<lambda>x. MAX_IDENTIFIER < length x) (table_identifiers n t) then Inl (PyError ''IdentifierError'')
      else if \<not> distinct (column_names t) then Inl programming_error
      else if \<not> distinct (names_of_table n t @ relation_names c) then Inl programming_error
      else Inr (c\<lparr>sc_tables := sc_tables c @ [(n, t)]\<rparr>))"
| "apply_in (DropTable s n) c =
     (case map_of (sc_tables c) n of
        None \<Rightarrow> Inl programming_error
      | Some t \<Rightarrow>
          Inr (c\<lparr>sc_tables := filter (\<lambda>(m, x). m \<noteq> n) (sc_tables c),
                 sc_indexes := filter (\<lambda>(m, x, cols). x \<noteq> n) (sc_indexes c)\<rparr>))"
| "apply_in (CreateIndex s n t cols) c =
     (if MAX_IDENTIFIER < length n then Inl (PyError ''IdentifierError'')
      else (case map_of (sc_tables c) t of
              None \<Rightarrow> Inl programming_error
            | Some td \<Rightarrow>
                if \<not> set cols \<subseteq> set (column_names td) \<or> n \<in> set (relation_names c) then Inl programming_error
                else Inr (c\<lparr>sc_indexes := sc_indexes c @ [(n, t, cols)]\<rparr>)))"
| "apply_in (DropIndex s n) c =
     (if n \<in> fst ` set (sc_indexes c)
      then Inr (c\<lparr>sc_indexes := filter (\<lambda>(m, x). m \<noteq> n) (sc_indexes c)\<rparr>)
      else Inl programming_error)"
| "apply_in (CreateSequence s n start lo hi) c =
     (if n \<in> set (relation_names c) then Inr c
      else Inr (c\<lparr>sc_sequences := sc_sequences c @ [(n, start, lo, hi)]\<rparr>))"
| "apply_in (DropSequence s n) c = Inr (c\<lparr>sc_sequences := filter (\<lambda>(m, x). m \<noteq> n) (sc_sequences c)\<rparr>)"

text \<open>
  A foreign key needs its table, with the columns as a key; a table that another one refers
  to cannot be dropped. Both look at the whole catalog.
\<close>

fun is_key :: "string list \<Rightarrow> table_constraint \<Rightarrow> bool" where
  "is_key cols (PrimaryKey n ks) = (ks = cols)"
| "is_key cols (Unique n ks nnd) = (ks = cols)"
| "is_key cols c = False"

definition target_exists :: "(string \<Rightarrow> schema_content option) \<Rightarrow> table_constraint \<Rightarrow> bool" where
  "target_exists cat c =
     (case c of
        ForeignKey n cols s t refs \<Rightarrow>
          (case cat s of
             None \<Rightarrow> False
           | Some sc \<Rightarrow>
               (case map_of (sc_tables sc) t of
                  None \<Rightarrow> False
                | Some td \<Rightarrow> list_ex (is_key refs) (tb_constraints td)))
      | _ \<Rightarrow> True)"

definition refers_to :: "string \<Rightarrow> string \<Rightarrow> string \<Rightarrow> string \<times> table_def \<Rightarrow> bool" where
  "refers_to s n s' nt \<longleftrightarrow>
     (s', fst nt) \<noteq> (s, n)
     \<and> list_ex (\<lambda>c. case c of ForeignKey m cols u t refs \<Rightarrow> (u, t) = (s, n) | _ \<Rightarrow> False) (tb_constraints (snd nt))"

fun blocked :: "ddl \<Rightarrow> catalog \<Rightarrow> bool" where
  "blocked (CreateTable s n t) cat = (\<not> list_all (target_exists (map_of cat)) (tb_constraints t))"
| "blocked (DropTable s n) cat = list_ex (\<lambda>(s', c). list_ex (refers_to s n s') (sc_tables c)) cat"
| "blocked op cat = False"

definition apply_ddl :: "ddl \<Rightarrow> catalog \<Rightarrow> catalog res" where
  "apply_ddl op cat =
     (case map_of cat (ddl_schema op) of
        None \<Rightarrow>
          (case op of
             CreateSchema s \<Rightarrow> Inr (cat @ [(s, empty_schema_content)])
           | DropSequence s n \<Rightarrow> Inr cat
           | _ \<Rightarrow> Inl programming_error)
      | Some c \<Rightarrow>
          if blocked op cat then Inl programming_error
          else bindE (apply_in op c) (\<lambda>c'. Inr (AList.update (ddl_schema op) c' cat)))"

fun run_ddl :: "ddl list \<Rightarrow> catalog \<Rightarrow> catalog res" where
  "run_ddl [] cat = Inr cat"
| "run_ddl (op # ops) cat = bindE (apply_ddl op cat) (run_ddl ops)"

lemma run_ddl_append: "run_ddl (xs @ ys) cat = bindE (run_ddl xs cat) (run_ddl ys)"
  by (induction xs arbitrary: cat) (auto simp: bindE_assoc intro: bindE_cong)

section \<open>Schemas do not interfere\<close>

text \<open>
  As long as foreign keys stay inside their schema, what a statement does is a matter of its
  own schema: a run on the whole catalog is one run per schema.
\<close>

definition local_table :: "string \<Rightarrow> table_def \<Rightarrow> bool" where
  "local_table s t \<longleftrightarrow>
     list_all (\<lambda>c. case c of ForeignKey n cols u v refs \<Rightarrow> u = s | _ \<Rightarrow> True) (tb_constraints t)"

definition local_content :: "string \<Rightarrow> schema_content \<Rightarrow> bool" where
  "local_content s c \<longleftrightarrow> list_all (\<lambda>(n, t). local_table s t) (sc_tables c)"

definition local_catalog :: "catalog \<Rightarrow> bool" where
  "local_catalog cat \<longleftrightarrow> distinct (map fst cat) \<and> list_all (\<lambda>(s, c). local_content s c) cat"

definition local_op :: "ddl \<Rightarrow> bool" where
  "local_op op \<longleftrightarrow> (case op of CreateTable s n t \<Rightarrow> local_table s t | _ \<Rightarrow> True)"

definition step_in :: "ddl \<Rightarrow> schema_content \<Rightarrow> schema_content res" where
  "step_in op c = (if blocked op [(ddl_schema op, c)] then Inl programming_error else apply_in op c)"

fun run_in :: "ddl list \<Rightarrow> schema_content \<Rightarrow> schema_content res" where
  "run_in [] c = Inr c"
| "run_in (op # ops) c = bindE (step_in op c) (run_in ops)"

lemma local_contentD: "local_catalog cat \<Longrightarrow> map_of cat s = Some c \<Longrightarrow> local_content s c"
  by (auto simp: local_catalog_def list_all_iff dest: map_of_SomeD)

lemma target_exists_local:
  "(case k of ForeignKey n cols u v refs \<Rightarrow> u = s | _ \<Rightarrow> True) \<Longrightarrow> map_of cat s = Some c \<Longrightarrow>
   target_exists (map_of cat) k = target_exists (map_of [(s, c)]) k"
  by (cases k) (simp_all add: target_exists_def)

lemma refers_to_other: "local_table s' (snd nt) \<Longrightarrow> s' \<noteq> s \<Longrightarrow> \<not> refers_to s n s' nt"
  by (auto simp: refers_to_def local_table_def list_all_iff list_ex_iff split: table_constraint.splits)

lemma blocked_local:
  assumes "local_catalog cat" "local_op op" "map_of cat (ddl_schema op) = Some c"
  shows "blocked op cat = blocked op [(ddl_schema op, c)]"
proof (cases op)
  case (CreateTable s n t)
  have "list_all (target_exists (map_of cat)) (tb_constraints t)
      = list_all (target_exists (map_of [(s, c)])) (tb_constraints t)"
    using assms(2,3) CreateTable target_exists_local [where s = s and cat = cat and c = c]
    by (intro list.pred_cong refl) (auto simp: local_op_def local_table_def list_all_iff)
  then show ?thesis using CreateTable by simp
next
  case (DropTable s n)
  have mem: "(s, c) \<in> set cat" using assms(3) DropTable by (simp add: map_of_SomeD)
  have "\<not> refers_to s n s' nt" if "(s', c') \<in> set cat" "s' \<noteq> s" "nt \<in> set (sc_tables c')" for s' c' nt
    using assms(1) that by (intro refers_to_other) (fastforce simp: local_catalog_def local_content_def list_all_iff)+
  moreover have "c' = c" if "(s, c') \<in> set cat" for c'
    using assms(1) that mem by (auto simp: local_catalog_def intro: eq_key_imp_eq_value)
  ultimately have "(\<exists>(s', c') \<in> set cat. \<exists>nt \<in> set (sc_tables c'). refers_to s n s' nt)
      \<longleftrightarrow> (\<exists>nt \<in> set (sc_tables c). refers_to s n s nt)"
    using mem by blast
  then show ?thesis using DropTable by (simp add: list_ex_iff case_prod_beta)
qed simp_all

lemma apply_in_local:
  "apply_in op c = Inr c' \<Longrightarrow> local_op op \<Longrightarrow> local_content (ddl_schema op) c \<Longrightarrow> local_content (ddl_schema op) c'"
  by (cases op) (auto simp: local_content_def local_op_def list_all_iff split: if_splits option.splits)

lemma update_local_catalog:
  assumes "local_catalog cat" "local_content s c" "s \<in> fst ` set cat"
  shows "local_catalog (AList.update s c cat)" "map fst (AList.update s c cat) = map fst cat"
proof -
  show keys: "map fst (AList.update s c cat) = map fst cat" using assms(3) by (simp add: update_keys)
  have "local_content s' c'" if "(s', c') \<in> set (AList.update s c cat)" for s' c'
  proof -
    have "map_of (AList.update s c cat) s' = Some c'"
      using assms(1) that keys by (intro map_of_is_SomeI) (simp_all add: local_catalog_def)
    then show ?thesis
      using assms(1,2) by (auto simp: update_conv' dest: local_contentD split: if_splits)
  qed
  then show "local_catalog (AList.update s c cat)"
    using assms(1) keys by (auto simp: local_catalog_def list_all_iff)
qed

lemma apply_ddl_local:
  assumes "local_catalog cat" "local_op op" "map_of cat (ddl_schema op) = Some c" "step_in op c = Inr c'"
  shows "apply_ddl op cat = Inr (AList.update (ddl_schema op) c' cat)"
    and "local_catalog (AList.update (ddl_schema op) c' cat)"
    and "map fst (AList.update (ddl_schema op) c' cat) = map fst cat"
proof -
  have a: "\<not> blocked op [(ddl_schema op, c)]" "apply_in op c = Inr c'"
    using assms(4) by (auto simp: step_in_def split: if_splits)
  show "apply_ddl op cat = Inr (AList.update (ddl_schema op) c' cat)"
    using assms(3) blocked_local [OF assms(1-3)] a by (simp add: apply_ddl_def)
  have mem: "ddl_schema op \<in> fst ` set cat" using assms(3) by (metis map_of_eq_None_iff option.distinct(1))
  have "local_content (ddl_schema op) c'"
    using apply_in_local [OF a(2) assms(2)] local_contentD [OF assms(1,3)] by blast
  note u = update_local_catalog [OF assms(1) this mem]
  show "local_catalog (AList.update (ddl_schema op) c' cat)"
    and "map fst (AList.update (ddl_schema op) c' cat) = map fst cat" by (fact u)+
qed

text \<open>Catalogs with the same schemas in the same order that agree on each of them are equal.\<close>

lemma catalog_eqI:
  assumes "map fst a = map fst b" "distinct (map fst b)" "\<And>s. s \<in> fst ` set b \<Longrightarrow> map_of a s = map_of b s"
  shows "a = b"
  using assms
proof (induction a arbitrary: b)
  case Nil
  then show ?case by simp
next
  case (Cons x a)
  obtain y b' where b: "b = y # b'" "fst y = fst x" "map fst a = map fst b'"
    using Cons.prems(1) by (cases b) auto
  have "snd x = snd y" using Cons.prems(3) [of "fst x"] b by (cases x; cases y) simp
  moreover have "a = b'"
  proof (rule Cons.IH)
    show "map_of a s = map_of b' s" if "s \<in> fst ` set b'" for s
      using Cons.prems(2) Cons.prems(3) [of s] that b by (cases x; cases y) (auto split: if_splits)
  qed (use b Cons.prems(2) in simp_all)
  ultimately show ?case using b by (cases x; cases y) simp
qed

theorem run_ddl_by_schema:
  assumes "local_catalog cat" "list_all local_op ops" "ddl_schema ` set ops \<subseteq> fst ` set cat"
    and "\<And>s c. map_of cat s = Some c \<Longrightarrow> run_in (filter (\<lambda>op. ddl_schema op = s) ops) c = Inr (f s)"
  shows "run_ddl ops cat = Inr (map (\<lambda>(s, c). (s, f s)) cat)"
  using assms
proof (induction ops arbitrary: cat)
  case Nil
  have "cat = map (\<lambda>(s, c). (s, f s)) cat"
  proof (rule catalog_eqI)
    show keys: "map fst cat = map fst (map (\<lambda>(s, c). (s, f s)) cat)" by (simp add: case_prod_beta comp_def)
    show "distinct (map fst (map (\<lambda>(s, c). (s, f s)) cat))"
      unfolding keys [symmetric] using Nil.prems(1) by (simp add: local_catalog_def)
    fix s assume "s \<in> fst ` set (map (\<lambda>(s, c). (s, f s)) cat)"
    then obtain c where c: "map_of cat s = Some c"
      using Nil.prems(1) by (force simp: local_catalog_def dest: map_of_is_SomeI)
    then have "map_of (map (\<lambda>(s, c). (s, f s)) cat) s = Some (f s)"
      by (induction cat) (auto split: if_splits)
    then show "map_of cat s = map_of (map (\<lambda>(s, c). (s, f s)) cat) s" using Nil.prems(4) [OF c] c by simp
  qed
  then show ?case by simp
next
  case (Cons op ops)
  let ?s = "ddl_schema op"
  obtain c where c: "map_of cat ?s = Some c"
    using Cons.prems(1,3) by (force simp: local_catalog_def dest: map_of_is_SomeI)
  obtain c' where c': "step_in op c = Inr c'" and rest: "run_in (filter (\<lambda>op. ddl_schema op = ?s) ops) c' = Inr (f ?s)"
    using Cons.prems(4) [OF c] by (auto simp: bindE_Inr_iff)
  have op: "local_op op" using Cons.prems(2) by simp
  note step = apply_ddl_local [OF Cons.prems(1) op c c']
  let ?cat = "AList.update ?s c' cat"
  have keys: "fst ` set ?cat = fst ` set cat" using step(3) by (metis set_map)
  have "run_ddl ops ?cat = Inr (map (\<lambda>(s, c). (s, f s)) ?cat)"
  proof (rule Cons.IH [OF step(2)])
    show "list_all local_op ops" "ddl_schema ` set ops \<subseteq> fst ` set ?cat"
      using Cons.prems(2,3) unfolding keys by simp_all
    fix s d assume "map_of ?cat s = Some d"
    then show "run_in (filter (\<lambda>op. ddl_schema op = s) ops) d = Inr (f s)"
      using rest Cons.prems(4) [of s] by (auto simp: update_conv' split: if_splits)
  qed
  moreover have "map (\<lambda>(s, c). (s, f s)) ?cat = map (\<lambda>s. (s, f s)) (map fst ?cat)" by (simp add: case_prod_beta comp_def)
  moreover have "map (\<lambda>s. (s, f s)) (map fst cat) = map (\<lambda>(s, c). (s, f s)) cat" by (simp add: case_prod_beta comp_def)
  ultimately show ?case using step(1,3) by simp
qed

end
