(* ===== verification/Migrations.thy ===== *)
theory Migrations
  imports Sql_Schema
begin

text \<open>
  The migrations of the three modules (the files under
  \<open>modules/*/src/infrastructure/database/migrations\<close>), each a revision with its statements in
  both directions, and the Alembic environment that runs them (\<open>alembic/env.py\<close>). Which
  revisions a run applies, and in which order, is Alembic's choice; what is used of it is that
  a revision comes after the one it revises.
\<close>

section \<open>Revisions\<close>

record revision =
  rv_id :: string
  rv_down :: "string option"
  rv_branch_labels :: "string list"
  rv_upgrade :: "ddl list"
  rv_downgrade :: "ddl list"

definition SHIPMENT_SCHEMA :: string where
  "SHIPMENT_SCHEMA = ''shipment''"

definition CUSTOMS_SCHEMA :: string where
  "CUSTOMS_SCHEMA = ''customs''"

definition FILES_SCHEMA :: string where
  "FILES_SCHEMA = ''files''"

text \<open>A quoted SQL literal, and the two defaults written as SQL text.\<close>

definition quoted :: "string \<Rightarrow> string" where
  "quoted s = CHR 0x27 # s @ [CHR 0x27]"

definition empty_json :: sql_default where
  "empty_json = SqlText (quoted ''{}'' @ ''::jsonb'')"

definition empty_varchar_array :: sql_default where
  "empty_varchar_array = SqlText (quoted ''{}'' @ ''::character varying[]'')"

subsection \<open>Shipment\<close>

definition migrated_shipments :: table_def where
  "migrated_shipments =
     \<lparr>tb_columns =
        [not_null ''id'' UuidT, not_null ''waybill_number'' (VarcharT 12),
         nullable ''total_weight_kg'' (NumericT 14 3), nullable ''total_volume_cbm'' (NumericT 14 3),
         nullable ''commodity_code'' (VarcharT 16),
         not_null ''origin_port_code'' (VarcharT 5), not_null ''destination_port_code'' (VarcharT 5),
         with_default empty_varchar_array (not_null ''transit_legs'' (ArrayT (VarcharT 5))),
         not_null ''status'' (VarcharT 32), nullable ''exception_reason'' TextT,
         timestamp_column ''created_at'', timestamp_column ''updated_at''],
      tb_constraints =
        [PrimaryKey ''pk_shipments'' [''id''],
         Unique ''uq_shipments_waybill_number'' [''waybill_number''] False,
         Check ''tracking_status'' (InTexts (Col ''status'')
           [''Draft'', ''ReadyForManifest'', ''AwaitingCustomsRelease'', ''InTransit'', ''Delivered'', ''ExceptionHeld'']),
         Check ''route_endpoints_differ'' (Differs (Col ''origin_port_code'') (Col ''destination_port_code''))]\<rparr>"

definition create_shipments_table :: revision where
  "create_shipments_table =
     \<lparr>rv_id = ''a1b2c3d4e5f6'', rv_down = None, rv_branch_labels = [''shipment''],
      rv_upgrade =
        [CreateSequence ''shipment'' ''waybill_serial'' 1 1 9999999,
         CreateTable SHIPMENT_SCHEMA ''shipments'' migrated_shipments,
         CreateIndex SHIPMENT_SCHEMA ''ix_shipments_status'' ''shipments'' [''status'']],
      rv_downgrade =
        [DropIndex SHIPMENT_SCHEMA ''ix_shipments_status'', DropTable SHIPMENT_SCHEMA ''shipments'',
         DropSequence ''shipment'' ''waybill_serial'']\<rparr>"

definition shipment_outbox :: table_def where
  "shipment_outbox =
     \<lparr>tb_columns =
        [identity_column ''id'', not_null ''message_id'' UuidT, not_null ''message_type'' (VarcharT 255),
         not_null ''exchange'' (VarcharT 255), not_null ''routing_key'' (VarcharT 255),
         with_default empty_json (not_null ''headers'' JsonbT),
         with_default empty_json (not_null ''properties'' JsonbT), not_null ''body'' JsonbT,
         with_default (TextDefault ''Pending'') (not_null ''status'' (VarcharT 16)),
         nullable ''sent_at'' TimestampT, timestamp_column ''created_at'', timestamp_column ''updated_at''],
      tb_constraints =
        [PrimaryKey ''pk_outbox_messages'' [''id''],
         Unique ''uq_outbox_messages_message_id'' [''message_id''] False,
         Check ''outbox_status'' (InTexts (Col ''status'') [''Pending'', ''Sent''])]\<rparr>"

definition shipment_inbox :: table_def where
  "shipment_inbox =
     \<lparr>tb_columns =
        [identity_column ''id'', not_null ''message_id'' UuidT, not_null ''message_type'' (VarcharT 255),
         not_null ''handler_name'' (VarcharT 255), timestamp_column ''handled_at''],
      tb_constraints =
        [PrimaryKey ''pk_inbox_messages'' [''id''],
         Unique ''uq_inbox_messages_message_id_handler_name'' [''message_id'', ''handler_name''] False]\<rparr>"

definition create_shipment_outbox_and_inbox :: revision where
  "create_shipment_outbox_and_inbox =
     \<lparr>rv_id = ''b2c3d4e5f6a7'', rv_down = Some ''a1b2c3d4e5f6'', rv_branch_labels = [],
      rv_upgrade =
        [CreateTable SHIPMENT_SCHEMA ''outbox_messages'' shipment_outbox,
         CreateIndex SHIPMENT_SCHEMA ''ix_outbox_messages_status'' ''outbox_messages'' [''status''],
         CreateTable SHIPMENT_SCHEMA ''inbox_messages'' shipment_inbox],
      rv_downgrade =
        [DropTable SHIPMENT_SCHEMA ''inbox_messages'', DropIndex SHIPMENT_SCHEMA ''ix_outbox_messages_status'',
         DropTable SHIPMENT_SCHEMA ''outbox_messages'']\<rparr>"

subsection \<open>Customs Clearance\<close>

definition customs_outbox :: table_def where
  "customs_outbox =
     \<lparr>tb_columns =
        [identity_column ''id'', not_null ''message_id'' UuidT, not_null ''message_type'' (VarcharT 255),
         not_null ''exchange'' (VarcharT 255), not_null ''routing_key'' (VarcharT 255),
         with_default empty_json (not_null ''headers'' JsonbT),
         with_default empty_json (not_null ''properties'' JsonbT), not_null ''body'' JsonbT,
         with_default (TextDefault ''Pending'') (not_null ''status'' (VarcharT 16)),
         nullable ''sent_at'' TimestampT, timestamp_column ''created_at'', timestamp_column ''updated_at''],
      tb_constraints =
        [PrimaryKey ''pk_outbox_messages'' [''id''],
         Unique ''uq_outbox_messages_message_id'' [''message_id''] False,
         Check ''outbox_status'' (InTexts (Col ''status'') [''Pending'', ''Sent''])]\<rparr>"

definition customs_inbox :: table_def where
  "customs_inbox =
     \<lparr>tb_columns =
        [identity_column ''id'', not_null ''message_id'' UuidT, not_null ''message_type'' (VarcharT 255),
         not_null ''handler_name'' (VarcharT 255), timestamp_column ''handled_at''],
      tb_constraints =
        [PrimaryKey ''pk_inbox_messages'' [''id''],
         Unique ''uq_inbox_messages_message_id_handler_name'' [''message_id'', ''handler_name''] False]\<rparr>"

definition create_customs_outbox_and_inbox :: revision where
  "create_customs_outbox_and_inbox =
     \<lparr>rv_id = ''c3d4e5f6a7b8'', rv_down = None, rv_branch_labels = [''customs''],
      rv_upgrade =
        [CreateTable CUSTOMS_SCHEMA ''outbox_messages'' customs_outbox,
         CreateIndex CUSTOMS_SCHEMA ''ix_outbox_messages_status'' ''outbox_messages'' [''status''],
         CreateTable CUSTOMS_SCHEMA ''inbox_messages'' customs_inbox],
      rv_downgrade =
        [DropTable CUSTOMS_SCHEMA ''inbox_messages'', DropIndex CUSTOMS_SCHEMA ''ix_outbox_messages_status'',
         DropTable CUSTOMS_SCHEMA ''outbox_messages'']\<rparr>"

definition both_or_neither :: "string \<Rightarrow> string \<Rightarrow> sql_expr" where
  "both_or_neither a b = Equals (IsNull (Col a)) (IsNull (Col b))"

definition migrated_clearance_cases :: table_def where
  "migrated_clearance_cases =
     \<lparr>tb_columns =
        [not_null ''id'' UuidT, not_null ''shipment_id'' (VarcharT 64), not_null ''status'' (VarcharT 32),
         nullable ''declaration_amount'' (NumericT 14 2), nullable ''declaration_currency'' (VarcharT 3),
         nullable ''duty_amount'' (NumericT 14 2), nullable ''duty_currency'' (VarcharT 3),
         timestamp_column ''created_at'', timestamp_column ''updated_at''],
      tb_constraints =
        [PrimaryKey ''pk_clearance_cases'' [''id''],
         Check ''assessment_status'' (InTexts (Col ''status'')
           [''Opened'', ''DocumentVerification'', ''RiskAssessment'', ''DutyPaymentPending'', ''Released'', ''Rejected'']),
         Check ''declaration_value_complete'' (both_or_neither ''declaration_amount'' ''declaration_currency''),
         Check ''duty_fee_complete'' (both_or_neither ''duty_amount'' ''duty_currency'')]\<rparr>"

definition create_clearance_cases_table :: revision where
  "create_clearance_cases_table =
     \<lparr>rv_id = ''d4e5f6a7b8c9'', rv_down = Some ''c3d4e5f6a7b8'', rv_branch_labels = [],
      rv_upgrade =
        [CreateTable CUSTOMS_SCHEMA ''clearance_cases'' migrated_clearance_cases,
         CreateIndex CUSTOMS_SCHEMA ''ix_clearance_cases_shipment_id'' ''clearance_cases'' [''shipment_id''],
         CreateIndex CUSTOMS_SCHEMA ''ix_clearance_cases_status'' ''clearance_cases'' [''status'']],
      rv_downgrade =
        [DropIndex CUSTOMS_SCHEMA ''ix_clearance_cases_status'',
         DropIndex CUSTOMS_SCHEMA ''ix_clearance_cases_shipment_id'',
         DropTable CUSTOMS_SCHEMA ''clearance_cases'']\<rparr>"

definition migrated_case_documents :: table_def where
  "migrated_case_documents =
     \<lparr>tb_columns =
        [not_null ''id'' UuidT, not_null ''clearance_case_id'' UuidT, not_null ''document_type'' (VarcharT 32),
         not_null ''file_uuid'' UuidT, with_default FalseDefault (not_null ''is_verified'' BooleanT),
         nullable ''verified_by_inspector_id'' (VarcharT 128),
         timestamp_column ''created_at'', timestamp_column ''updated_at''],
      tb_constraints =
        [PrimaryKey ''pk_clearance_case_documents'' [''id''],
         ForeignKey ''fk_clearance_case_documents_clearance_case_id_clearance_cases''
           [''clearance_case_id''] CUSTOMS_SCHEMA ''clearance_cases'' [''id''],
         Check ''document_type'' (InTexts (Col ''document_type'') [''COMMERCIAL_INVOICE'', ''BILL_OF_LADING'']),
         Check ''inspector_only_when_verified''
           (Or (Col ''is_verified'') (IsNull (Col ''verified_by_inspector_id''))),
         Unique ''uq_clearance_case_documents_case_file'' [''clearance_case_id'', ''file_uuid''] False]\<rparr>"

definition create_clearance_case_documents_table :: revision where
  "create_clearance_case_documents_table =
     \<lparr>rv_id = ''f6a7b8c9d0e1'', rv_down = Some ''d4e5f6a7b8c9'', rv_branch_labels = [],
      rv_upgrade =
        [CreateTable CUSTOMS_SCHEMA ''clearance_case_documents'' migrated_case_documents,
         CreateIndex CUSTOMS_SCHEMA ''ix_clearance_case_documents_clearance_case_id''
           ''clearance_case_documents'' [''clearance_case_id'']],
      rv_downgrade =
        [DropIndex CUSTOMS_SCHEMA ''ix_clearance_case_documents_clearance_case_id'',
         DropTable CUSTOMS_SCHEMA ''clearance_case_documents'']\<rparr>"

subsection \<open>Files\<close>

definition migrated_files :: table_def where
  "migrated_files =
     \<lparr>tb_columns =
        [not_null ''id'' UuidT, not_null ''disk'' (VarcharT 32), not_null ''path'' (VarcharT 512),
         not_null ''name'' (VarcharT 255), not_null ''size_bytes'' BigIntT,
         not_null ''content_type'' (VarcharT 255), not_null ''checksum'' (VarcharT 128),
         with_default empty_json (not_null ''metadata'' JsonbT),
         timestamp_column ''created_at'', timestamp_column ''updated_at''],
      tb_constraints =
        [PrimaryKey ''pk_files'' [''id''],
         Check ''size_bytes_positive'' (Greater (Col ''size_bytes'') (IntLit 0)),
         Unique ''uq_files_disk_path_name'' [''disk'', ''path'', ''name''] False]\<rparr>"

definition migrated_file_references :: table_def where
  "migrated_file_references =
     \<lparr>tb_columns =
        [identity_column ''id'', not_null ''file_id'' UuidT, not_null ''context'' (VarcharT 128),
         not_null ''entity_type'' (VarcharT 128), nullable ''entity_id'' (VarcharT 128),
         nullable ''entity_uuid'' UuidT, timestamp_column ''created_at''],
      tb_constraints =
        [PrimaryKey ''pk_file_references'' [''id''],
         ForeignKey ''fk_file_references_file_id_files'' [''file_id''] FILES_SCHEMA ''files'' [''id''],
         Unique ''uq_file_references_file_id_owner'' [''file_id'', ''context'', ''entity_type'', ''entity_id''] True]\<rparr>"

definition create_files_tables :: revision where
  "create_files_tables =
     \<lparr>rv_id = ''e5f6a7b8c9d0'', rv_down = None, rv_branch_labels = [''files''],
      rv_upgrade =
        [CreateTable FILES_SCHEMA ''files'' migrated_files,
         CreateTable FILES_SCHEMA ''file_references'' migrated_file_references,
         CreateIndex FILES_SCHEMA ''ix_file_references_file_id'' ''file_references'' [''file_id''],
         CreateIndex FILES_SCHEMA ''ix_file_references_owner'' ''file_references''
           [''context'', ''entity_type'', ''entity_id'']],
      rv_downgrade =
        [DropIndex FILES_SCHEMA ''ix_file_references_owner'', DropIndex FILES_SCHEMA ''ix_file_references_file_id'',
         DropTable FILES_SCHEMA ''file_references'', DropTable FILES_SCHEMA ''files'']\<rparr>"

definition all_revisions :: "revision list" where
  "all_revisions =
     [create_shipments_table, create_shipment_outbox_and_inbox, create_customs_outbox_and_inbox,
      create_clearance_cases_table, create_clearance_case_documents_table, create_files_tables]"

section \<open>The environment\<close>

text \<open>
  The database as a migration sees it: the catalog and the revisions that the version table
  records, newest first.
\<close>

record migrated_db =
  mg_catalog :: catalog
  mg_applied :: "string list"

definition MANAGED_SCHEMAS :: "string list" where
  "MANAGED_SCHEMAS = [SHIPMENT_SCHEMA, CUSTOMS_SCHEMA, FILES_SCHEMA]"

text \<open>
  \<open>include_object\<close>: tables outside the managed schemas (\<open>None\<close>: a table declared without
  one) are left out of the comparison with the metadata.
\<close>

definition include_object :: "string \<Rightarrow> string option \<Rightarrow> bool" where
  "include_object ty schema = (if ty = ''table'' then schema \<in> Some ` set MANAGED_SCHEMAS else True)"

definition upgrade_step :: "revision \<Rightarrow> migrated_db \<Rightarrow> migrated_db res" where
  "upgrade_step r db =
     bindE (run_ddl (rv_upgrade r) (mg_catalog db)) (\<lambda>cat.
     Inr \<lparr>mg_catalog = cat, mg_applied = rv_id r # mg_applied db\<rparr>)"

definition downgrade_step :: "revision \<Rightarrow> migrated_db \<Rightarrow> migrated_db res" where
  "downgrade_step r db =
     bindE (run_ddl (rv_downgrade r) (mg_catalog db)) (\<lambda>cat.
     Inr \<lparr>mg_catalog = cat, mg_applied = remove1 (rv_id r) (mg_applied db)\<rparr>)"

fun run_steps :: "('r \<Rightarrow> 'd \<Rightarrow> 'd res) \<Rightarrow> 'r list \<Rightarrow> 'd \<Rightarrow> 'd res" where
  "run_steps step [] db = Inr db"
| "run_steps step (r # rs) db = bindE (step r db) (run_steps step rs)"

text \<open>
  \<open>do_run_migrations\<close> on a live connection, with the commit of \<open>run_async_migrations\<close>:
  the schemas first, then the steps that Alembic chose, in one transaction. An exception
  leaves the connection uncommitted.
\<close>

definition do_run_migrations ::
  "('r \<Rightarrow> migrated_db \<Rightarrow> migrated_db res) \<Rightarrow> 'r list \<Rightarrow> migrated_db \<Rightarrow> unit res \<times> migrated_db" where
  "do_run_migrations step plan db =
     (case bindE (run_ddl (map CreateSchema MANAGED_SCHEMAS) (mg_catalog db))
             (\<lambda>cat. run_steps step plan (db\<lparr>mg_catalog := cat\<rparr>)) of
        Inl e \<Rightarrow> (Inl e, db)
      | Inr db' \<Rightarrow> (Inr (), db'))"

text \<open>\<open>run_migrations_offline\<close>: the statements that are emitted; the schemas are not created.\<close>

definition run_migrations_offline :: "revision list \<Rightarrow> ddl list" where
  "run_migrations_offline plan = concat (map rv_upgrade plan)"

section \<open>Orders that Alembic may choose\<close>

text \<open>
  The revisions form one branch per module. A plan applies a revision after the one it
  revises; branches may interleave.
\<close>

fun respects_branches :: "string list \<Rightarrow> revision list \<Rightarrow> bool" where
  "respects_branches seen [] = True"
| "respects_branches seen (r # rs) =
     ((case rv_down r of None \<Rightarrow> True | Some d \<Rightarrow> d \<in> set seen) \<and> respects_branches (rv_id r # seen) rs)"

fun branch :: "string option \<Rightarrow> revision list \<Rightarrow> bool" where
  "branch prev [] = True"
| "branch prev (r # rs) = (rv_down r = prev \<and> branch (Some (rv_id r)) rs)"

lemma branch_predecessor:
  "branch prev (c # cs) \<Longrightarrow> r \<in> set cs \<Longrightarrow> \<exists>x \<in> set (c # cs). rv_down r = Some (rv_id x)"
proof (induction cs arbitrary: prev c)
  case (Cons d cs)
  then show ?case by (cases "r = d") (fastforce, auto)
qed simp

lemma plan_follows_branch:
  assumes "respects_branches seen plan" "distinct (map rv_id plan)" "branch prev ch"
    and "set (filter P plan) = set ch" "distinct (map rv_id ch)" "set seen \<inter> rv_id ` set ch = {}"
  shows "filter P plan = ch"
  using assms
proof (induction plan arbitrary: seen prev ch)
  case Nil
  then show ?case by simp
next
  case (Cons r plan)
  have fresh: "rv_id r \<notin> rv_id ` set plan" using Cons.prems(2) by simp
  show ?case
  proof (cases "P r")
    case False
    have "rv_id r \<notin> rv_id ` set ch" using Cons.prems(4) False fresh by auto
    then have "filter P plan = ch"
      using Cons.prems False by (intro Cons.IH [of "rv_id r # seen" prev]) auto
    then show ?thesis using False by simp
  next
    case True
    then obtain c cs where ch: "ch = c # cs" using Cons.prems(4) by (cases ch) auto
    have "r = c"
    proof (rule ccontr)
      assume "r \<noteq> c"
      then have "r \<in> set cs" using Cons.prems(4) True ch by auto
      then obtain x where x: "x \<in> set ch" "rv_down r = Some (rv_id x)"
        using branch_predecessor Cons.prems(3) ch by blast
      then have "rv_id x \<in> set seen" using Cons.prems(1) by simp
      then show False using Cons.prems(6) x(1) by blast
    qed
    moreover have "set (filter P plan) = set cs"
      using Cons.prems(4,5) True ch \<open>r = c\<close> fresh by (auto simp: insert_eq_iff)
    then have "filter P plan = cs"
      using Cons.prems ch \<open>r = c\<close> by (intro Cons.IH [of "rv_id r # seen" "Some (rv_id c)"]) auto
    ultimately show ?thesis using True ch by simp
  qed
qed

text \<open>Every statement of a revision concerns the schema of its module.\<close>

definition revision_schema :: "revision \<Rightarrow> string" where
  "revision_schema r = ddl_schema (hd (rv_upgrade r))"

lemmas revision_defs =
  create_shipments_table_def create_shipment_outbox_and_inbox_def create_customs_outbox_and_inbox_def
  create_clearance_cases_table_def create_clearance_case_documents_table_def create_files_tables_def

lemmas schema_defs = SHIPMENT_SCHEMA_def CUSTOMS_SCHEMA_def FILES_SCHEMA_def

lemma revision_statements:
  "r \<in> set all_revisions \<Longrightarrow> op \<in> set (rv_upgrade r) \<union> set (rv_downgrade r) \<Longrightarrow> ddl_schema op = revision_schema r"
  by (auto simp: all_revisions_def revision_defs revision_schema_def schema_defs)

lemma statements_of_schema:
  assumes "\<And>r op. r \<in> set plan \<Longrightarrow> op \<in> set (f r) \<Longrightarrow> ddl_schema op = revision_schema r"
  shows "filter (\<lambda>op. ddl_schema op = s) (concat (map f plan))
       = concat (map f (filter (\<lambda>r. revision_schema r = s) plan))"
  using assms
proof (induction plan)
  case (Cons r plan)
  have "ddl_schema op = revision_schema r" if "op \<in> set (f r)" for op using Cons.prems that by simp
  then have "filter (\<lambda>op. ddl_schema op = s) (f r) = (if revision_schema r = s then f r else [])"
    by (auto simp: filter_empty_conv)
  then show ?case using Cons by simp
qed simp

lemma run_upgrades:
  "run_steps upgrade_step plan db
 = bindE (run_ddl (concat (map rv_upgrade plan)) (mg_catalog db)) (\<lambda>cat.
   Inr \<lparr>mg_catalog = cat, mg_applied = rev (map rv_id plan) @ mg_applied db\<rparr>)"
  by (induction plan arbitrary: db)
    (auto simp: upgrade_step_def run_ddl_append bindE_assoc intro: bindE_cong)

lemma run_downgrades:
  "run_steps downgrade_step plan db
 = bindE (run_ddl (concat (map rv_downgrade plan)) (mg_catalog db)) (\<lambda>cat.
   Inr \<lparr>mg_catalog = cat, mg_applied = foldl (\<lambda>ids r. remove1 (rv_id r) ids) (mg_applied db) plan\<rparr>)"
  by (induction plan arbitrary: db)
    (auto simp: downgrade_step_def run_ddl_append bindE_assoc intro: bindE_cong)

lemma undo_applied: "foldl (\<lambda>ids r. remove1 (rv_id r) ids) (map rv_id plan @ ids) plan = ids"
  by (induction plan) simp_all

section \<open>The migrated database\<close>

definition shipment_content :: schema_content where
  "shipment_content =
     \<lparr>sc_tables = [(''shipments'', migrated_shipments), (''outbox_messages'', shipment_outbox),
                   (''inbox_messages'', shipment_inbox)],
      sc_indexes = [(''ix_shipments_status'', ''shipments'', [''status'']),
                    (''ix_outbox_messages_status'', ''outbox_messages'', [''status''])],
      sc_sequences = [(''waybill_serial'', 1, 1, 9999999)]\<rparr>"

definition customs_content :: schema_content where
  "customs_content =
     \<lparr>sc_tables = [(''outbox_messages'', customs_outbox), (''inbox_messages'', customs_inbox),
                   (''clearance_cases'', migrated_clearance_cases),
                   (''clearance_case_documents'', migrated_case_documents)],
      sc_indexes = [(''ix_outbox_messages_status'', ''outbox_messages'', [''status'']),
                    (''ix_clearance_cases_shipment_id'', ''clearance_cases'', [''shipment_id'']),
                    (''ix_clearance_cases_status'', ''clearance_cases'', [''status'']),
                    (''ix_clearance_case_documents_clearance_case_id'', ''clearance_case_documents'',
                     [''clearance_case_id''])],
      sc_sequences = []\<rparr>"

definition files_content :: schema_content where
  "files_content =
     \<lparr>sc_tables = [(''files'', migrated_files), (''file_references'', migrated_file_references)],
      sc_indexes = [(''ix_file_references_file_id'', ''file_references'', [''file_id'']),
                    (''ix_file_references_owner'', ''file_references'', [''context'', ''entity_type'', ''entity_id''])],
      sc_sequences = []\<rparr>"

definition migrated_content :: "string \<Rightarrow> schema_content" where
  "migrated_content s =
     (if s = SHIPMENT_SCHEMA then shipment_content
      else if s = CUSTOMS_SCHEMA then customs_content
      else if s = FILES_SCHEMA then files_content else empty_schema_content)"

definition catalog_of :: "(string \<Rightarrow> schema_content) \<Rightarrow> catalog" where
  "catalog_of f = map (\<lambda>s. (s, f s)) MANAGED_SCHEMAS"

lemma managed_distinct: "distinct MANAGED_SCHEMAS"
  by (simp add: MANAGED_SCHEMAS_def schema_defs)

lemma local_catalog_of: "(\<And>s. s \<in> set MANAGED_SCHEMAS \<Longrightarrow> local_content s (f s)) \<Longrightarrow> local_catalog (catalog_of f)"
  using managed_distinct by (auto simp: local_catalog_def catalog_of_def list_all_iff comp_def)

lemma catalog_of_at: "map_of (catalog_of f) s = (if s \<in> set MANAGED_SCHEMAS then Some (f s) else None)"
  proof -
  have "map_of (map (\<lambda>s. (s, f s)) xs) s = (if s \<in> set xs then Some (f s) else None)" for xs
    by (induction xs) auto
  then show ?thesis by (simp add: catalog_of_def)
qed

lemma create_schemas:
  "run_ddl (map CreateSchema MANAGED_SCHEMAS) [] = Inr (catalog_of (\<lambda>s. empty_schema_content))"
  "run_ddl (map CreateSchema MANAGED_SCHEMAS) (catalog_of f) = Inr (catalog_of f)"
  by (simp_all add: apply_ddl_def catalog_of_def MANAGED_SCHEMAS_def schema_defs)

text \<open>One branch after the other, in both directions.\<close>

definition branch_of :: "string \<Rightarrow> revision list" where
  "branch_of s = filter (\<lambda>r. revision_schema r = s) all_revisions"

lemma branches:
  "branch_of SHIPMENT_SCHEMA = [create_shipments_table, create_shipment_outbox_and_inbox]"
  "branch_of CUSTOMS_SCHEMA =
     [create_customs_outbox_and_inbox, create_clearance_cases_table, create_clearance_case_documents_table]"
  "branch_of FILES_SCHEMA = [create_files_tables]"
  by (simp_all add: branch_of_def all_revisions_def revision_schema_def revision_defs schema_defs)

lemma branch_of_branch: "s \<in> set MANAGED_SCHEMAS \<Longrightarrow> branch None (branch_of s)"
  by (auto simp: MANAGED_SCHEMAS_def branches) (simp_all add: revision_defs)

lemma revision_ids: "distinct (map rv_id all_revisions)"
  by (simp add: all_revisions_def revision_defs)

lemma upgrade_shipment:
  "run_in (concat (map rv_upgrade (branch_of SHIPMENT_SCHEMA))) empty_schema_content = Inr shipment_content"
  unfolding branches by code_simp

lemma upgrade_customs:
  "run_in (concat (map rv_upgrade (branch_of CUSTOMS_SCHEMA))) empty_schema_content = Inr customs_content"
  unfolding branches by code_simp

lemma upgrade_files:
  "run_in (concat (map rv_upgrade (branch_of FILES_SCHEMA))) empty_schema_content = Inr files_content"
  unfolding branches by code_simp

lemma downgrade_shipment:
  "run_in (concat (map rv_downgrade (rev (branch_of SHIPMENT_SCHEMA)))) shipment_content = Inr empty_schema_content"
  unfolding branches by code_simp

lemma downgrade_customs:
  "run_in (concat (map rv_downgrade (rev (branch_of CUSTOMS_SCHEMA)))) customs_content = Inr empty_schema_content"
  unfolding branches by code_simp

lemma downgrade_files:
  "run_in (concat (map rv_downgrade (rev (branch_of FILES_SCHEMA)))) files_content = Inr empty_schema_content"
  unfolding branches by code_simp

lemma migrated_content_at:
  "migrated_content SHIPMENT_SCHEMA = shipment_content"
  "migrated_content CUSTOMS_SCHEMA = customs_content"
  "migrated_content FILES_SCHEMA = files_content"
  by (simp_all add: migrated_content_def schema_defs)

lemma upgrade_branch:
  "s \<in> set MANAGED_SCHEMAS \<Longrightarrow>
   run_in (concat (map rv_upgrade (branch_of s))) empty_schema_content = Inr (migrated_content s)"
  by (auto simp: MANAGED_SCHEMAS_def upgrade_shipment upgrade_customs upgrade_files migrated_content_at)

lemma downgrade_branch:
  "s \<in> set MANAGED_SCHEMAS \<Longrightarrow>
   run_in (concat (map rv_downgrade (rev (branch_of s)))) (migrated_content s) = Inr empty_schema_content"
  by (auto simp: MANAGED_SCHEMAS_def downgrade_shipment downgrade_customs downgrade_files migrated_content_at)

section \<open>What a run leaves\<close>

lemma plan_branch:
  assumes "distinct plan" "set plan = set all_revisions" "respects_branches [] plan"
    and "s \<in> set MANAGED_SCHEMAS"
  shows "filter (\<lambda>r. revision_schema r = s) plan = branch_of s"
proof (rule plan_follows_branch [OF assms(3) _ branch_of_branch [OF assms(4)]])
  show "distinct (map rv_id plan)"
    using assms(1,2) revision_ids by (simp add: distinct_map)
  show "set (filter (\<lambda>r. revision_schema r = s) plan) = set (branch_of s)"
    using assms(2) by (auto simp: branch_of_def)
  show "distinct (map rv_id (branch_of s))"
    unfolding branch_of_def using revision_ids by (rule distinct_map_filter)
qed simp

lemma statements_local:
  assumes "set plan \<subseteq> set all_revisions" "op \<in> set (concat (map f plan))" "f = rv_upgrade \<or> f = rv_downgrade"
  shows "local_op op" "ddl_schema op \<in> set MANAGED_SCHEMAS"
proof -
  obtain r where r: "r \<in> set all_revisions" "op \<in> set (rv_upgrade r) \<union> set (rv_downgrade r)"
    using assms by auto
  then show "local_op op" "ddl_schema op \<in> set MANAGED_SCHEMAS"
    by (auto simp: all_revisions_def revision_defs MANAGED_SCHEMAS_def schema_defs local_op_def local_table_def
        migrated_shipments_def shipment_outbox_def shipment_inbox_def customs_outbox_def customs_inbox_def
        migrated_clearance_cases_def migrated_case_documents_def migrated_files_def migrated_file_references_def)
qed

lemma migrated_local: "s \<in> set MANAGED_SCHEMAS \<Longrightarrow> local_content s (migrated_content s)"
  by (auto simp: MANAGED_SCHEMAS_def migrated_content_def shipment_content_def customs_content_def files_content_def
      local_content_def local_table_def schema_defs
      migrated_shipments_def shipment_outbox_def shipment_inbox_def customs_outbox_def customs_inbox_def
      migrated_clearance_cases_def migrated_case_documents_def migrated_files_def migrated_file_references_def)

lemma run_on_schemas:
  assumes "set plan \<subseteq> set all_revisions" "dir = rv_upgrade \<or> dir = rv_downgrade"
    and "\<And>s. s \<in> set MANAGED_SCHEMAS \<Longrightarrow> local_content s (f s)"
    and "\<And>s. s \<in> set MANAGED_SCHEMAS \<Longrightarrow>
      run_in (concat (map dir (filter (\<lambda>r. revision_schema r = s) plan))) (f s) = Inr (g s)"
  shows "run_ddl (concat (map dir plan)) (catalog_of f) = Inr (catalog_of g)"
proof -
  have "run_ddl (concat (map dir plan)) (catalog_of f) = Inr (map (\<lambda>(s, c). (s, g s)) (catalog_of f))"
  proof (rule run_ddl_by_schema)
    show "local_catalog (catalog_of f)" using assms(3) by (rule local_catalog_of)
    show "list_all local_op (concat (map dir plan))"
      unfolding list_all_iff using statements_local(1) [OF assms(1) _ assms(2)] by blast
    show "ddl_schema ` set (concat (map dir plan)) \<subseteq> fst ` set (catalog_of f)"
      using statements_local(2) [OF assms(1) _ assms(2)] by (force simp: catalog_of_def)
    fix s c assume "map_of (catalog_of f) s = Some c"
    then have s: "s \<in> set MANAGED_SCHEMAS" "c = f s" by (auto simp: catalog_of_at split: if_splits)
    have "ddl_schema op = revision_schema r" if "r \<in> set plan" "op \<in> set (dir r)" for r op
      using assms(1,2) that by (intro revision_statements) auto
    then show "run_in (filter (\<lambda>op. ddl_schema op = s) (concat (map dir plan))) c = Inr (g s)"
      using statements_of_schema [of plan dir s] assms(4) [OF s(1)] s(2) by simp
  qed
  then show ?thesis by (simp add: catalog_of_def comp_def)
qed

lemma empty_local: "local_content s empty_schema_content"
  by (simp add: local_content_def empty_schema_content_def)

definition migrated_catalog :: catalog where
  "migrated_catalog = catalog_of migrated_content"

definition bare_catalog :: catalog where
  "bare_catalog = catalog_of (\<lambda>s. empty_schema_content)"

lemma plan_upgrades:
  assumes "distinct plan" "set plan = set all_revisions" "respects_branches [] plan"
  shows "run_ddl (concat (map rv_upgrade plan)) bare_catalog = Inr migrated_catalog"
  unfolding migrated_catalog_def bare_catalog_def
  by (rule run_on_schemas) (simp_all add: assms(2) empty_local plan_branch [OF assms] upgrade_branch)

text \<open>One order of the six.\<close>

definition one_plan :: "revision list" where
  "one_plan =
     [create_customs_outbox_and_inbox, create_shipments_table, create_files_tables, create_clearance_cases_table,
      create_shipment_outbox_and_inbox, create_clearance_case_documents_table]"

lemma interleaved_plan:
  "distinct one_plan" "set one_plan = set all_revisions" "respects_branches [] one_plan"
proof -
  show "set one_plan = set all_revisions" by (auto simp: one_plan_def all_revisions_def)
  show "distinct one_plan" by (simp add: one_plan_def revision_defs)
  show "respects_branches [] one_plan" by (simp add: one_plan_def revision_defs)
qed

text \<open>
  C36. Every order of the six revisions that Alembic may choose, run on an empty database,
  succeeds and leaves one and the same catalog.
\<close>

theorem migrations_any_order:
  assumes "distinct plan" "set plan = set all_revisions" "respects_branches [] plan"
  shows "do_run_migrations upgrade_step plan \<lparr>mg_catalog = [], mg_applied = []\<rparr>
       = (Inr (), \<lparr>mg_catalog = migrated_catalog, mg_applied = rev (map rv_id plan)\<rparr>)"
  using plan_upgrades [OF assms] by (simp add: do_run_migrations_def create_schemas run_upgrades bare_catalog_def)

lemma migrations_any_order_witness:
  "do_run_migrations upgrade_step one_plan
     \<lparr>mg_catalog = [], mg_applied = []\<rparr>
 = (Inr (), \<lparr>mg_catalog = migrated_catalog,
      mg_applied = [''f6a7b8c9d0e1'', ''b2c3d4e5f6a7'', ''d4e5f6a7b8c9'', ''e5f6a7b8c9d0'', ''a1b2c3d4e5f6'', ''c3d4e5f6a7b8'']\<rparr>)"
  using migrations_any_order [OF interleaved_plan] by (simp add: one_plan_def revision_defs)

text \<open>
  C37. Taking the revisions back in the opposite order, from any such database, removes every
  table, index and sequence again: the schemas are empty and no revision is recorded.
\<close>

theorem migrations_round_trip:
  assumes "distinct plan" "set plan = set all_revisions" "respects_branches [] plan"
  shows "do_run_migrations downgrade_step (rev plan)
           (snd (do_run_migrations upgrade_step plan \<lparr>mg_catalog = [], mg_applied = []\<rparr>))
       = (Inr (), \<lparr>mg_catalog = bare_catalog, mg_applied = []\<rparr>)"
proof -
  have sub: "set plan \<subseteq> set all_revisions" using assms(2) by simp
  note up = plan_upgrades [OF assms, unfolded bare_catalog_def]
  have "run_ddl (concat (map rv_downgrade (rev plan))) migrated_catalog = Inr bare_catalog"
    unfolding migrated_catalog_def bare_catalog_def
  proof (rule run_on_schemas)
    fix s assume s: "s \<in> set MANAGED_SCHEMAS"
    show "run_in (concat (map rv_downgrade (filter (\<lambda>r. revision_schema r = s) (rev plan)))) (migrated_content s)
        = Inr empty_schema_content"
      unfolding rev_filter [symmetric] plan_branch [OF assms s] by (rule downgrade_branch [OF s])
  qed (use sub migrated_local in auto)
  then show ?thesis
    using undo_applied [of "rev plan" "[]"]
    by (simp add: do_run_migrations_def create_schemas run_upgrades run_downgrades up migrated_catalog_def rev_map)
qed

lemma migrations_round_trip_witness:
  "do_run_migrations downgrade_step (rev one_plan)
     (snd (do_run_migrations upgrade_step one_plan \<lparr>mg_catalog = [], mg_applied = []\<rparr>))
 = (Inr (), \<lparr>mg_catalog = bare_catalog, mg_applied = []\<rparr>)"
  by (rule migrations_round_trip [OF interleaved_plan])

end
