(* ===== verification/Declared_Tables.thy ===== *)
theory Declared_Tables
  imports Migrations Shipment_Storage Customs_Storage Files_Storage
begin

text \<open>
  The tables as the modules declare them on the shared metadata
  (\<open>infrastructure/database/entities\<close>, \<open>modules/shared/message_bus/tables.py\<close>) under its
  naming convention (\<open>modules/shared/database/metadata.py\<close>), compared with what the
  migrations create and with what the autogeneration of Alembic would propose.
\<close>

section \<open>The naming convention\<close>

definition uq_name :: "string \<Rightarrow> string list \<Rightarrow> string" where
  "uq_name table cols = ''uq_'' @ table @ ''_'' @ hd cols"

definition fk_name :: "string \<Rightarrow> string list \<Rightarrow> string \<Rightarrow> string" where
  "fk_name table cols referred = ''fk_'' @ table @ ''_'' @ hd cols @ ''_'' @ referred"

definition pk_name :: "string \<Rightarrow> string" where
  "pk_name table = ''pk_'' @ table"

section \<open>Declared columns\<close>

text \<open>
  A column with the arguments that declare constraints in place: \<open>primary_key\<close>, \<open>unique\<close>,
  \<open>index\<close>, the values of an \<open>Enum\<close> without a native type, with the name of its check, and
  a foreign key.
\<close>

record column_decl =
  cd_column :: column_def
  cd_primary :: bool
  cd_unique :: bool
  cd_index :: bool
  cd_enum :: "(string \<times> string list) option"
  cd_references :: "(string \<times> string \<times> string) option"

definition plain :: "column_def \<Rightarrow> column_decl" where
  "plain c = \<lparr>cd_column = c, cd_primary = False, cd_unique = False, cd_index = False, cd_enum = None,
              cd_references = None\<rparr>"

definition primary :: "column_def \<Rightarrow> column_decl" where
  "primary c = (plain c)\<lparr>cd_primary := True\<rparr>"

definition unique_column :: "column_def \<Rightarrow> column_decl" where
  "unique_column c = (plain c)\<lparr>cd_unique := True\<rparr>"

definition indexed :: "column_decl \<Rightarrow> column_decl" where
  "indexed d = d\<lparr>cd_index := True\<rparr>"

definition enum_column :: "string \<Rightarrow> nat \<Rightarrow> string \<Rightarrow> string list \<Rightarrow> column_decl" where
  "enum_column c n check_name values = (plain (not_null c (VarcharT n)))\<lparr>cd_enum := Some (check_name, values)\<rparr>"

definition foreign :: "string \<Rightarrow> string \<Rightarrow> string \<Rightarrow> column_def \<Rightarrow> column_decl" where
  "foreign s t k c = (plain c)\<lparr>cd_references := Some (s, t, k)\<rparr>"

definition decl_name :: "column_decl \<Rightarrow> string" where
  "decl_name d = col_name (cd_column d)"

text \<open>The constraints a column stands for, and those of the whole declaration.\<close>

definition column_constraints :: "string \<Rightarrow> column_decl \<Rightarrow> table_constraint list" where
  "column_constraints table d =
     (if cd_unique d then [Unique (uq_name table [decl_name d]) [decl_name d] False] else [])
     @ (case cd_enum d of None \<Rightarrow> [] | Some (n, vs) \<Rightarrow> [Check n (InTexts (Col (decl_name d)) vs)])
     @ (case cd_references d of
          None \<Rightarrow> []
        | Some (s, t, k) \<Rightarrow> [ForeignKey (fk_name table [decl_name d] t) [decl_name d] s t [k]])"

definition declared_table :: "string \<Rightarrow> column_decl list \<Rightarrow> table_constraint list \<Rightarrow> table_def" where
  "declared_table table cols extra =
     \<lparr>tb_columns = map cd_column cols,
      tb_constraints =
        PrimaryKey (pk_name table) (map decl_name (filter cd_primary cols))
        # concat (map (column_constraints table) cols) @ extra\<rparr>"

definition declared_indexes :: "string \<Rightarrow> column_decl list \<Rightarrow> (string \<times> string list) list" where
  "declared_indexes table cols = map (\<lambda>d. (table, [decl_name d])) (filter cd_index cols)"

section \<open>The declarations\<close>

definition shipments_columns :: "column_decl list" where
  "shipments_columns =
     [primary (not_null ''id'' UuidT), unique_column (not_null ''waybill_number'' (VarcharT 12)),
      plain (nullable ''total_weight_kg'' (NumericT 14 3)), plain (nullable ''total_volume_cbm'' (NumericT 14 3)),
      plain (nullable ''commodity_code'' (VarcharT 16)),
      plain (not_null ''origin_port_code'' (VarcharT 5)), plain (not_null ''destination_port_code'' (VarcharT 5)),
      plain (with_default empty_varchar_array (not_null ''transit_legs'' (ArrayT (VarcharT 5)))),
      indexed (enum_column ''status'' 32 ''tracking_status'' (map tracking_status_value all_tracking_statuses)),
      plain (nullable ''exception_reason'' TextT),
      plain (timestamp_column ''created_at''), plain (timestamp_column ''updated_at'')]"

definition clearance_cases_columns :: "column_decl list" where
  "clearance_cases_columns =
     [primary (not_null ''id'' UuidT), indexed (plain (not_null ''shipment_id'' (VarcharT 64))),
      indexed (enum_column ''status'' 32 ''assessment_status''
        (map assessment_status_value all_assessment_statuses)),
      plain (nullable ''declaration_amount'' (NumericT 14 2)), plain (nullable ''declaration_currency'' (VarcharT 3)),
      plain (nullable ''duty_amount'' (NumericT 14 2)), plain (nullable ''duty_currency'' (VarcharT 3)),
      plain (timestamp_column ''created_at''), plain (timestamp_column ''updated_at'')]"

definition case_documents_columns :: "column_decl list" where
  "case_documents_columns =
     [primary (not_null ''id'' UuidT),
      indexed (foreign CUSTOMS_SCHEMA ''clearance_cases'' ''id'' (not_null ''clearance_case_id'' UuidT)),
      enum_column ''document_type'' 32 ''document_type'' (map document_type_value all_document_types),
      plain (not_null ''file_uuid'' UuidT),
      plain (with_default FalseDefault (not_null ''is_verified'' BooleanT)),
      plain (nullable ''verified_by_inspector_id'' (VarcharT MAX_INSPECTOR_ID_LENGTH)),
      plain (timestamp_column ''created_at''), plain (timestamp_column ''updated_at'')]"

definition case_documents_constraints :: "table_constraint list" where
  "case_documents_constraints =
     [Unique ''uq_clearance_case_documents_case_file'' [''clearance_case_id'', ''file_uuid''] False,
      Check ''inspector_only_when_verified''
        (Or (Col ''is_verified'') (IsNull (Col ''verified_by_inspector_id'')))]"

definition files_columns :: "column_decl list" where
  "files_columns =
     [primary (not_null ''id'' UuidT), plain (not_null ''disk'' (VarcharT MAX_DISK_LENGTH)),
      plain (not_null ''path'' (VarcharT MAX_PATH_LENGTH)), plain (not_null ''name'' (VarcharT MAX_NAME_LENGTH)),
      plain (not_null ''size_bytes'' BigIntT),
      plain (not_null ''content_type'' (VarcharT MAX_CONTENT_TYPE_LENGTH)),
      plain (not_null ''checksum'' (VarcharT 128)),
      plain (with_default empty_json (not_null ''metadata'' JsonbT)),
      plain (timestamp_column ''created_at''), plain (timestamp_column ''updated_at'')]"

definition files_constraints :: "table_constraint list" where
  "files_constraints =
     [Check ''size_bytes_positive'' (Greater (Col ''size_bytes'') (IntLit 0)),
      Unique ''uq_files_disk_path_name'' [''disk'', ''path'', ''name''] False]"

definition file_references_columns :: "column_decl list" where
  "file_references_columns =
     [primary (identity_column ''id''),
      indexed (foreign FILES_SCHEMA ''files'' ''id'' (not_null ''file_id'' UuidT)),
      plain (not_null ''context'' (VarcharT MAX_FIELD_LENGTH)),
      plain (not_null ''entity_type'' (VarcharT MAX_FIELD_LENGTH)),
      plain (nullable ''entity_id'' (VarcharT MAX_FIELD_LENGTH)), plain (nullable ''entity_uuid'' UuidT),
      plain (timestamp_column ''created_at'')]"

definition file_references_constraints :: "table_constraint list" where
  "file_references_constraints =
     [Unique ''uq_file_references_file_id_owner'' [''file_id'', ''context'', ''entity_type'', ''entity_id''] True]"

definition outbox_columns :: "column_decl list" where
  "outbox_columns =
     [primary (identity_column ''id''), unique_column (not_null ''message_id'' UuidT),
      plain (not_null ''message_type'' (VarcharT 255)), plain (not_null ''exchange'' (VarcharT 255)),
      plain (not_null ''routing_key'' (VarcharT 255)),
      plain (with_default empty_json (not_null ''headers'' JsonbT)),
      plain (with_default empty_json (not_null ''properties'' JsonbT)), plain (not_null ''body'' JsonbT),
      indexed (enum_column ''status'' 16 ''outbox_status'' (map outbox_status_value [PENDING, SENT])
        \<lparr>cd_column := with_default (TextDefault (outbox_status_value PENDING)) (not_null ''status'' (VarcharT 16))\<rparr>),
      plain (nullable ''sent_at'' TimestampT),
      plain (timestamp_column ''created_at''), plain (timestamp_column ''updated_at'')]"

definition inbox_columns :: "column_decl list" where
  "inbox_columns =
     [primary (identity_column ''id''), plain (not_null ''message_id'' UuidT),
      plain (not_null ''message_type'' (VarcharT 255)), plain (not_null ''handler_name'' (VarcharT 255)),
      plain (timestamp_column ''handled_at'')]"

definition inbox_constraints :: "table_constraint list" where
  "inbox_constraints =
     [Unique ''uq_inbox_messages_message_id_handler_name'' [''message_id'', ''handler_name''] False]"

text \<open>
  The metadata: table name, schema, columns and explicit constraints. The two tables of the
  message bus name no schema.
\<close>

definition metadata_tables :: "(string option \<times> string \<times> column_decl list \<times> table_constraint list) list" where
  "metadata_tables =
     [(None, ''outbox_messages'', outbox_columns, []),
      (None, ''inbox_messages'', inbox_columns, inbox_constraints),
      (Some CUSTOMS_SCHEMA, ''clearance_cases'', clearance_cases_columns, []),
      (Some CUSTOMS_SCHEMA, ''clearance_case_documents'', case_documents_columns, case_documents_constraints),
      (Some FILES_SCHEMA, ''files'', files_columns, files_constraints),
      (Some FILES_SCHEMA, ''file_references'', file_references_columns, file_references_constraints),
      (Some SHIPMENT_SCHEMA, ''shipments'', shipments_columns, [])]"

definition waybill_serial_sequence :: "string \<times> string \<times> int \<times> int \<times> int" where
  "waybill_serial_sequence = (SHIPMENT_SCHEMA, ''waybill_serial'', 1, 1, 9999999)"

definition file_references_owner_index :: "string \<times> string list" where
  "file_references_owner_index = (''file_references'', [''context'', ''entity_type'', ''entity_id''])"

section \<open>The migrations against the metadata\<close>

text \<open>
  The schemas in which the worker and the use cases place the tables that name none
  (\<open>schema_translate_map\<close>).
\<close>

definition BUS_SCHEMAS :: "string list" where
  "BUS_SCHEMAS = [SHIPMENT_SCHEMA, CUSTOMS_SCHEMA]"

definition placed :: "string option \<Rightarrow> string list" where
  "placed s = (case s of None \<Rightarrow> BUS_SCHEMAS | Some x \<Rightarrow> [x])"

definition placed_tables :: "(string \<times> string \<times> table_def) list" where
  "placed_tables =
     concat (map (\<lambda>(s, n, cols, extra). map (\<lambda>x. (x, n, declared_table n cols extra)) (placed s)) metadata_tables)"

definition placed_indexes :: "(string \<times> string \<times> string list) list" where
  "placed_indexes =
     concat (map (\<lambda>(s, n, cols, extra).
       concat (map (\<lambda>x. map (Pair x) (declared_indexes n cols)) (placed s))) metadata_tables)
     @ [(FILES_SCHEMA, file_references_owner_index)]"

definition tables_in :: "catalog \<Rightarrow> (string \<times> string \<times> table_def) list" where
  "tables_in cat = concat (map (\<lambda>(s, c). map (Pair s) (sc_tables c)) cat)"

definition indexes_in :: "catalog \<Rightarrow> (string \<times> string \<times> string list) list" where
  "indexes_in cat = concat (map (\<lambda>(s, c). map (\<lambda>(n, x). (s, x)) (sc_indexes c)) cat)"

definition sequences_in :: "catalog \<Rightarrow> (string \<times> string \<times> int \<times> int \<times> int) list" where
  "sequences_in cat = concat (map (\<lambda>(s, c). map (Pair s) (sc_sequences c)) cat)"

text \<open>The checks that only the migrations write.\<close>

definition migration_only :: "string \<Rightarrow> table_constraint list" where
  "migration_only table =
     (if table = ''shipments''
      then [Check ''route_endpoints_differ'' (Differs (Col ''origin_port_code'') (Col ''destination_port_code''))]
      else if table = ''clearance_cases''
      then [Check ''declaration_value_complete'' (both_or_neither ''declaration_amount'' ''declaration_currency''),
            Check ''duty_fee_complete'' (both_or_neither ''duty_amount'' ''duty_currency'')]
      else [])"

definition realises :: "catalog \<Rightarrow> string \<times> string \<times> table_def \<Rightarrow> bool" where
  "realises cat d =
     (case d of (s, n, t) \<Rightarrow>
        list_ex (\<lambda>(s', n', t'). s' = s \<and> n' = n \<and> tb_columns t' = tb_columns t
            \<and> set (tb_constraints t') = set (tb_constraints t @ migration_only n)) (tables_in cat))"

lemma catalog_lists:
  "tables_in migrated_catalog =
     map (Pair SHIPMENT_SCHEMA) (sc_tables shipment_content) @ map (Pair CUSTOMS_SCHEMA) (sc_tables customs_content)
     @ map (Pair FILES_SCHEMA) (sc_tables files_content)"
  "indexes_in migrated_catalog =
     map (\<lambda>(n, x). (SHIPMENT_SCHEMA, x)) (sc_indexes shipment_content)
     @ map (\<lambda>(n, x). (CUSTOMS_SCHEMA, x)) (sc_indexes customs_content)
     @ map (\<lambda>(n, x). (FILES_SCHEMA, x)) (sc_indexes files_content)"
  "sequences_in migrated_catalog =
     map (Pair SHIPMENT_SCHEMA) (sc_sequences shipment_content)
     @ map (Pair CUSTOMS_SCHEMA) (sc_sequences customs_content)
     @ map (Pair FILES_SCHEMA) (sc_sequences files_content)"
  by (simp_all add: tables_in_def indexes_in_def sequences_in_def migrated_catalog_def catalog_of_def
      MANAGED_SCHEMAS_def migrated_content_at)

lemma metadata_realised: "list_all (realises migrated_catalog) placed_tables"
  unfolding realises_def catalog_lists by code_simp

lemma metadata_complete:
  "set (map (\<lambda>(s, n, t). (s, n)) (tables_in migrated_catalog)) = set (map (\<lambda>(s, n, t). (s, n)) placed_tables)"
  unfolding catalog_lists by code_simp

lemma metadata_indexes: "set (indexes_in migrated_catalog) = set placed_indexes"
  unfolding catalog_lists by code_simp

lemma metadata_sequences: "sequences_in migrated_catalog = [waybill_serial_sequence]"
  unfolding catalog_lists by code_simp

text \<open>
  C38. The migrated database is the one the modules declare: the same tables, each with the
  same columns, types, nullability and defaults, keys, foreign keys and checks under the
  names of the convention, the same indexed columns and the same sequence. The migrations
  add three checks that the declarations lack.
\<close>

theorem migrations_match_metadata:
  "list_all (realises migrated_catalog) placed_tables
   \<and> set (map (\<lambda>(s, n, t). (s, n)) (tables_in migrated_catalog)) = set (map (\<lambda>(s, n, t). (s, n)) placed_tables)
   \<and> set (indexes_in migrated_catalog) = set placed_indexes
   \<and> sequences_in migrated_catalog = [waybill_serial_sequence]"
  by (intro conjI metadata_realised metadata_complete metadata_indexes metadata_sequences)

section \<open>Autogeneration\<close>

text \<open>
  The comparison of Alembic on table names: a declared table that the database lacks is
  created, a table of the database that is not declared is dropped. Either side leaves out
  what \<open>include_object\<close> refuses.
\<close>

definition considered :: "(string option \<times> string) list \<Rightarrow> (string option \<times> string) list" where
  "considered ts = filter (\<lambda>(s, n). include_object ''table'' s) ts"

definition autogenerated :: "catalog \<Rightarrow> (string option \<times> string) list \<times> (string option \<times> string) list" where
  "autogenerated cat =
     (let declared = considered (map (\<lambda>(s, n, cols, extra). (s, n)) metadata_tables);
          present = considered (map (\<lambda>(s, n, t). (Some s, n)) (tables_in cat))
      in (filter (\<lambda>x. x \<notin> set present) declared, filter (\<lambda>x. x \<notin> set declared) present))"

text \<open>
  On a database that is up to date a newly generated revision is not empty: the outbox
  and the inbox of both modules stand in managed schemas while the metadata declares them
  without one, so the revision would drop the four of them.
\<close>

theorem autogenerate_drops_bus_tables:
  "autogenerated migrated_catalog =
   ([], [(Some SHIPMENT_SCHEMA, ''outbox_messages''), (Some SHIPMENT_SCHEMA, ''inbox_messages''),
         (Some CUSTOMS_SCHEMA, ''outbox_messages''), (Some CUSTOMS_SCHEMA, ''inbox_messages'')])"
  unfolding autogenerated_def catalog_lists by code_simp

section \<open>Offline scripts\<close>

lemma first_statement_fails:
  "r \<in> set all_revisions \<Longrightarrow> run_ddl (rv_upgrade r @ ops) [] = Inl programming_error"
  by (auto simp: all_revisions_def revision_defs apply_ddl_def)

text \<open>
  The script that offline mode emits for a first installation fails at its first
  statement: unlike the online mode it does not create the schemas. On a database that has
  them it leaves the catalog of the online mode.
\<close>

theorem offline_script_needs_schemas:
  assumes "distinct plan" "set plan = set all_revisions" "respects_branches [] plan"
  shows "run_ddl (run_migrations_offline plan) [] = Inl programming_error
    \<and> run_ddl (run_migrations_offline plan) bare_catalog = Inr migrated_catalog"
proof -
  obtain r rs where p: "plan = r # rs" using assms(2) by (cases plan) (auto simp: all_revisions_def)
  have "r \<in> set all_revisions" using assms(2) p by auto
  then show ?thesis
    using plan_upgrades [OF assms] by (simp add: run_migrations_offline_def p first_statement_fails)
qed

lemma offline_script_needs_schemas_witness:
  "run_ddl (run_migrations_offline one_plan) [] = Inl programming_error
   \<and> run_ddl (run_migrations_offline one_plan) bare_catalog = Inr migrated_catalog"
  by (rule offline_script_needs_schemas [OF interleaved_plan])

end
