(* ===== verification/Table_Refinement.thy ===== *)
theory Table_Refinement
  imports Declared_Tables Module_Db
begin

text \<open>
  The constraints that the storage models check, against the tables of the migrations: a
  row passes a check exactly when the migrated table, with the column types and constraints
  of its definition, accepts it. Foreign keys are met by the order of the flush, which
  writes the row of an aggregate before those of its parts.
\<close>

section \<open>Rows\<close>

lemma sql_option_null [simp]: "(sql_option f v = SNull) = (case v of None \<Rightarrow> True | Some x \<Rightarrow> f x = SNull)"
  by (cases v) (simp_all add: sql_option_def)

lemma sql_option_fits [simp]:
  "value_fits num json t (sql_option f v) = (case v of None \<Rightarrow> True | Some x \<Rightarrow> value_fits num json t (f x))"
  by (cases v) (simp_all add: sql_option_def)

lemma passes_if: "((if c then Some e else x) = None) = (\<not> c \<and> x = None)"
  by simp

definition sql_shipment :: "shipment_row \<Rightarrow> pyfloat sql_row" where
  "sql_shipment r = sql_row_of
     [(''id'', SUuid (sr_id r)), (''waybill_number'', SText (sr_waybill_number r)),
      (''total_weight_kg'', sql_option SNum (sr_total_weight_kg r)),
      (''total_volume_cbm'', sql_option SNum (sr_total_volume_cbm r)),
      (''commodity_code'', sql_option SText (sr_commodity_code r)),
      (''origin_port_code'', SText (sr_origin_port_code r)),
      (''destination_port_code'', SText (sr_destination_port_code r)),
      (''transit_legs'', STexts (sr_transit_legs r)), (''status'', SText (sr_status r)),
      (''exception_reason'', sql_option SText (sr_exception_reason r)),
      (''created_at'', STime), (''updated_at'', STime)]"

lemma shipment_columns_hold:
  "list_all (column_holds (\<lambda>p s. fits) json (sql_shipment r)) (tb_columns migrated_shipments) = shipment_row_types_ok fits r"
  by (auto simp: migrated_shipments_def sql_shipment_def sql_row_simps shipment_row_types_ok_def split: option.splits)

lemma migrated_shipments_constraints:
  "tb_constraints migrated_shipments =
     [PrimaryKey ''pk_shipments'' [''id''],
      Unique ''uq_shipments_waybill_number'' [''waybill_number''] False,
      Check ''tracking_status'' (InTexts (Col ''status'') (map tracking_status_value all_tracking_statuses)),
      Check ''route_endpoints_differ'' (Differs (Col ''origin_port_code'') (Col ''destination_port_code''))]"
  by (simp add: migrated_shipments_def all_tracking_statuses_def)

text \<open>
  A row of a shipment passes the checks of the storage model exactly when the migrated
  table accepts it beside the other rows.
\<close>

theorem shipment_check_refines:
  assumes "sr_id r \<notin> sr_id ` set others"
  shows "shipment_check fits r others = None \<longleftrightarrow>
    row_accepted (\<lambda>p s. fits) json migrated_shipments (sql_shipment r) (map sql_shipment others)"
proof -
  let ?r = "sql_shipment r"
  have pk: "\<not> list_ex (same_key True [''id''] ?r) (map sql_shipment others)" "SNull \<notin> set (map ?r [''id''])"
    using assms by (auto simp: list_ex_iff image_iff same_key_def sql_shipment_def sql_row_of_def)
  have uq: "list_ex (same_key False [''waybill_number''] ?r) (map sql_shipment others)
      = list_ex (\<lambda>x. sr_waybill_number x = sr_waybill_number r) others"
    by (auto simp: list_ex_iff same_key_def sql_shipment_def sql_row_of_def)
  have st: "eval_expr ?r (InTexts (Col ''status'') vs) \<noteq> SBool False \<longleftrightarrow> sr_status r \<in> set vs" for vs
    by (simp add: sql_shipment_def sql_row_of_def)
  have ends: "eval_expr ?r (Differs (Col ''origin_port_code'') (Col ''destination_port_code'')) \<noteq> SBool False
      \<longleftrightarrow> sr_origin_port_code r \<noteq> sr_destination_port_code r"
    by (simp add: sql_shipment_def sql_row_of_def)
  show ?thesis
    unfolding row_accepted_def shipment_columns_hold migrated_shipments_constraints
    using pk uq st ends by (simp add: shipment_check_def del: eval_expr.simps set_map)
qed

definition sample_shipment_row :: "uuid \<Rightarrow> string \<Rightarrow> shipment_row" where
  "sample_shipment_row n w =
     \<lparr>sr_id = n, sr_waybill_number = w, sr_total_weight_kg = None, sr_total_volume_cbm = None,
      sr_commodity_code = None, sr_origin_port_code = ''PECLL'', sr_destination_port_code = ''NLRTM'',
      sr_transit_legs = [''PAPTY''], sr_status = ''Draft'', sr_exception_reason = None\<rparr>"

lemma shipment_check_refines_witness:
  "row_accepted (\<lambda>p s x. True) (\<lambda>d. True) migrated_shipments
     (sql_shipment (sample_shipment_row 1 ''MUST-0000001'')) (map sql_shipment [sample_shipment_row 2 ''MUST-0000002''])
   \<and> \<not> row_accepted (\<lambda>p s x. True) (\<lambda>d. True) migrated_shipments
     (sql_shipment (sample_shipment_row 1 ''MUST-0000002'')) (map sql_shipment [sample_shipment_row 2 ''MUST-0000002''])"
proof -
  have ids: "sr_id (sample_shipment_row 1 w) \<notin> sr_id ` set [sample_shipment_row 2 ''MUST-0000002'']" for w
    by (simp add: sample_shipment_row_def)
  show ?thesis
    unfolding shipment_check_refines [OF ids, symmetric] by code_simp
qed

section \<open>Clearance cases and their documents\<close>

definition sql_case :: "case_row \<Rightarrow> pydecimal sql_row" where
  "sql_case r = sql_row_of
     [(''id'', SUuid (kr_id r)), (''shipment_id'', SText (kr_shipment_id r)), (''status'', SText (kr_status r)),
      (''declaration_amount'', sql_option SNum (kr_declaration_amount r)),
      (''declaration_currency'', sql_option SText (kr_declaration_currency r)),
      (''duty_amount'', sql_option SNum (kr_duty_amount r)), (''duty_currency'', sql_option SText (kr_duty_currency r)),
      (''created_at'', STime), (''updated_at'', STime)]"

definition sql_document :: "uuid \<Rightarrow> document_row \<Rightarrow> pydecimal sql_row" where
  "sql_document k d = sql_row_of
     [(''id'', SUuid (dr_id d)), (''clearance_case_id'', SUuid k),
      (''document_type'', SText (dr_document_type d)), (''file_uuid'', SUuid (dr_file_uuid d)),
      (''is_verified'', SBool (dr_is_verified d)),
      (''verified_by_inspector_id'', sql_option SText (dr_verified_by_inspector_id d)),
      (''created_at'', STime), (''updated_at'', STime)]"

definition sql_documents :: "case_row \<Rightarrow> pydecimal sql_row list" where
  "sql_documents r = map (sql_document (kr_id r)) (kr_documents r)"

abbreviation decimal_fits :: "nat \<Rightarrow> nat \<Rightarrow> pydecimal \<Rightarrow> bool" where
  "decimal_fits p s d \<equiv> numeric_14_2_ok (Some d)"

lemma numeric_null: "numeric_14_2_ok d = (case d of None \<Rightarrow> True | Some x \<Rightarrow> numeric_14_2_ok (Some x))"
  by (cases d) (simp_all add: numeric_14_2_ok_def)

lemma case_columns_hold:
  "list_all (column_holds decimal_fits json (sql_case r)) (tb_columns migrated_clearance_cases) = case_row_types_ok r"
  unfolding case_row_types_ok_def numeric_null [of "kr_declaration_amount r"] numeric_null [of "kr_duty_amount r"]
  by (auto simp: migrated_clearance_cases_def sql_case_def sql_row_simps split: option.splits)

lemma migrated_cases_constraints:
  "tb_constraints migrated_clearance_cases =
     [PrimaryKey ''pk_clearance_cases'' [''id''],
      Check ''assessment_status'' (InTexts (Col ''status'') (map assessment_status_value all_assessment_statuses)),
      Check ''declaration_value_complete'' (both_or_neither ''declaration_amount'' ''declaration_currency''),
      Check ''duty_fee_complete'' (both_or_neither ''duty_amount'' ''duty_currency'')]"
  by (simp add: migrated_clearance_cases_def all_assessment_statuses_def)

lemma case_table_accepts:
  assumes "kr_id r \<notin> kr_id ` set others"
  shows "row_accepted decimal_fits json migrated_clearance_cases (sql_case r) (map sql_case others) \<longleftrightarrow>
    case_row_types_ok r \<and> kr_status r \<in> set (map assessment_status_value all_assessment_statuses)
    \<and> (kr_declaration_amount r = None) = (kr_declaration_currency r = None)
    \<and> (kr_duty_amount r = None) = (kr_duty_currency r = None)"
proof -
  let ?r = "sql_case r"
  have pk: "\<not> list_ex (same_key True [''id''] ?r) (map sql_case others)" "SNull \<notin> set (map ?r [''id''])"
    using assms by (auto simp: list_ex_iff image_iff same_key_def sql_case_def sql_row_of_def)
  have st: "eval_expr ?r (InTexts (Col ''status'') vs) \<noteq> SBool False \<longleftrightarrow> kr_status r \<in> set vs" for vs
    by (simp add: sql_case_def sql_row_of_def)
  have pairs: "eval_expr ?r (both_or_neither ''declaration_amount'' ''declaration_currency'') \<noteq> SBool False
      \<longleftrightarrow> (kr_declaration_amount r = None) = (kr_declaration_currency r = None)"
    "eval_expr ?r (both_or_neither ''duty_amount'' ''duty_currency'') \<noteq> SBool False
      \<longleftrightarrow> (kr_duty_amount r = None) = (kr_duty_currency r = None)"
    by (auto simp: sql_case_def sql_row_of_def both_or_neither_def split: option.splits)
  show ?thesis
    unfolding row_accepted_def case_columns_hold migrated_cases_constraints
    using pk st pairs by (simp del: eval_expr.simps set_map)
qed

lemma document_columns_hold:
  "list_all (column_holds num json (sql_document k d)) (tb_columns migrated_case_documents) = document_row_types_ok d"
  by (auto simp: migrated_case_documents_def sql_document_def sql_row_simps document_row_types_ok_def
      MAX_INSPECTOR_ID_LENGTH_def split: option.splits)

lemma migrated_documents_constraints:
  "tb_constraints migrated_case_documents =
     [PrimaryKey ''pk_clearance_case_documents'' [''id''],
      ForeignKey ''fk_clearance_case_documents_clearance_case_id_clearance_cases''
        [''clearance_case_id''] CUSTOMS_SCHEMA ''clearance_cases'' [''id''],
      Check ''document_type'' (InTexts (Col ''document_type'') (map document_type_value all_document_types)),
      Check ''inspector_only_when_verified'' (Or (Col ''is_verified'') (IsNull (Col ''verified_by_inspector_id''))),
      Unique ''uq_clearance_case_documents_case_file'' [''clearance_case_id'', ''file_uuid''] False]"
  by (simp add: migrated_case_documents_def all_document_types_def)

text \<open>Documents with the case they belong to.\<close>

abbreviation sql_filed :: "uuid \<times> document_row \<Rightarrow> pydecimal sql_row" where
  "sql_filed x \<equiv> sql_document (fst x) (snd x)"

lemma document_table_accepts:
  "row_accepted num json migrated_case_documents (sql_document k d) (map sql_filed filed) \<longleftrightarrow>
   document_check d = None \<and> dr_id d \<notin> dr_id ` snd ` set filed
   \<and> (k, dr_file_uuid d) \<notin> (\<lambda>x. (fst x, dr_file_uuid (snd x))) ` set filed"
proof -
  let ?r = "sql_document k d"
  have pk: "list_ex (same_key True [''id''] ?r) (map sql_filed filed) \<longleftrightarrow> dr_id d \<in> dr_id ` snd ` set filed"
      "SNull \<notin> set (map ?r [''id''])"
    by (auto simp: list_ex_iff image_iff same_key_def sql_document_def sql_row_of_def) (metis fst_conv snd_conv)+
  have uq: "list_ex (same_key False [''clearance_case_id'', ''file_uuid''] ?r) (map sql_filed filed)
      \<longleftrightarrow> (k, dr_file_uuid d) \<in> (\<lambda>x. (fst x, dr_file_uuid (snd x))) ` set filed"
    by (auto simp: list_ex_iff image_iff same_key_def sql_document_def sql_row_of_def)
  have ty: "eval_expr ?r (InTexts (Col ''document_type'') vs) \<noteq> SBool False \<longleftrightarrow> dr_document_type d \<in> set vs" for vs
    by (simp add: sql_document_def sql_row_of_def)
  have insp: "eval_expr ?r (Or (Col ''is_verified'') (IsNull (Col ''verified_by_inspector_id''))) \<noteq> SBool False
      \<longleftrightarrow> dr_is_verified d \<or> dr_verified_by_inspector_id d = None"
    by (auto simp: sql_document_def sql_row_of_def split: option.splits)
  show ?thesis
    unfolding row_accepted_def document_columns_hold migrated_documents_constraints
    using pk uq ty insp by (simp add: document_check_def del: eval_expr.simps set_map)
qed

lemma document_tables_accept:
  "rows_accepted num json migrated_case_documents (map (sql_document k) ds) (map sql_filed filed) \<longleftrightarrow>
   list_all (\<lambda>d. document_check d = None) ds \<and> distinct (map dr_id ds)
   \<and> dr_id ` set ds \<inter> dr_id ` snd ` set filed = {} \<and> distinct (map dr_file_uuid ds)
   \<and> list_all (\<lambda>d. (k, dr_file_uuid d) \<notin> (\<lambda>x. (fst x, dr_file_uuid (snd x))) ` set filed) ds"
proof (induction ds arbitrary: filed)
  case (Cons d ds)
  have step: "rows_accepted num json migrated_case_documents (map (sql_document k) ds)
      (map sql_filed filed @ [sql_document k d]) \<longleftrightarrow>
    list_all (\<lambda>d. document_check d = None) ds \<and> distinct (map dr_id ds)
    \<and> dr_id ` set ds \<inter> dr_id ` snd ` set (filed @ [(k, d)]) = {} \<and> distinct (map dr_file_uuid ds)
    \<and> list_all (\<lambda>d'. (k, dr_file_uuid d') \<notin> (\<lambda>x. (fst x, dr_file_uuid (snd x))) ` set (filed @ [(k, d)])) ds"
    using Cons.IH [of "filed @ [(k, d)]"] by simp
  show ?case
    by (simp add: step document_table_accepts list_all_iff image_iff) (auto simp: image_iff list_all_iff)
qed simp


definition sample_case_row :: "uuid \<Rightarrow> uuid \<Rightarrow> string option \<Rightarrow> case_row" where
  "sample_case_row n d inspector =
     \<lparr>kr_id = n, kr_shipment_id = ''s'', kr_status = ''DocumentVerification'', kr_declaration_amount = None,
      kr_declaration_currency = None, kr_duty_amount = None, kr_duty_currency = None,
      kr_documents = [\<lparr>dr_id = d, dr_document_type = ''BILL_OF_LADING'', dr_file_uuid = 9,
                       dr_is_verified = False, dr_verified_by_inspector_id = inspector\<rparr>]\<rparr>"


section \<open>Files and their references\<close>

definition sql_file :: "file_id \<Rightarrow> file_row \<Rightarrow> pyfloat sql_row" where
  "sql_file i r = sql_row_of
     [(''id'', SUuid (fid_value i)), (''disk'', SText (fl_disk r)), (''path'', SText (fl_path r)),
      (''name'', SText (fl_name r)), (''size_bytes'', SInt (fl_size_bytes r)),
      (''content_type'', SText (fl_content_type r)), (''checksum'', SText (fl_checksum r)),
      (''metadata'', SJson (fl_metadata r)), (''created_at'', STime), (''updated_at'', STime)]"

lemma file_columns_hold:
  "list_all (column_holds num json (sql_file i r)) (tb_columns migrated_files) \<longleftrightarrow>
   file_row_types_ok r \<and> json (fl_metadata r)"
  by (auto simp: migrated_files_def sql_file_def sql_row_simps file_row_types_ok_def MAX_DISK_LENGTH_def
      MAX_PATH_LENGTH_def MAX_NAME_LENGTH_def MAX_CONTENT_TYPE_LENGTH_def)

text \<open>
  The row of a file passes the checks of the storage model, and its metadata are taken by
  the database, exactly when the migrated table accepts it beside the rows of the other files.
\<close>

theorem file_check_refines:
  "file_check r (other_rows i rows) = None \<and> json (fl_metadata r) \<longleftrightarrow>
   row_accepted num json migrated_files (sql_file i r)
     (map (\<lambda>(k, x). sql_file k x) (filter (\<lambda>(k, x). k \<noteq> i) rows))"
proof -
  let ?r = "sql_file i r"
  let ?others = "map (\<lambda>(k, x). sql_file k x) (filter (\<lambda>(k, x). k \<noteq> i) rows)"
  have pk: "\<not> list_ex (same_key True [''id''] ?r) ?others" "SNull \<notin> set (map ?r [''id''])"
    by (auto simp: list_ex_iff same_key_def sql_file_def sql_row_of_def file_id.expand)
  have uq: "list_ex (same_key False [''disk'', ''path'', ''name''] ?r) ?others
      = list_ex (same_location r) (other_rows i rows)"
    by (induction rows) (auto simp: same_key_def sql_file_def sql_row_of_def same_location_def other_rows_def)
  have size: "eval_expr ?r (Greater (Col ''size_bytes'') (IntLit 0)) \<noteq> SBool False \<longleftrightarrow> \<not> fl_size_bytes r \<le> 0"
    by (auto simp: sql_file_def sql_row_of_def)
  have cons: "tb_constraints migrated_files =
      [PrimaryKey ''pk_files'' [''id''], Check ''size_bytes_positive'' (Greater (Col ''size_bytes'') (IntLit 0)),
       Unique ''uq_files_disk_path_name'' [''disk'', ''path'', ''name''] False]"
    by (simp add: migrated_files_def)
  show ?thesis
    unfolding row_accepted_def file_columns_hold cons file_check_def passes_if
    using pk uq size by (auto simp del: eval_expr.simps set_map)
qed

definition sql_reference :: "reference_row \<Rightarrow> pyfloat sql_row" where
  "sql_reference r = sql_row_of
     [(''id'', SInt (rr_id r)), (''file_id'', SUuid (fid_value (rr_file_id r))), (''context'', SText (rr_context r)),
      (''entity_type'', SText (rr_entity_type r)), (''entity_id'', sql_option SText (rr_entity_id r)),
      (''entity_uuid'', sql_option SUuid (rr_entity_uuid r)), (''created_at'', STime)]"

text \<open>The numbers of the identity column.\<close>

definition big_int :: "int \<Rightarrow> bool" where
  "big_int n \<longleftrightarrow> - (2 ^ 63) \<le> n \<and> n < 2 ^ 63"

lemma reference_columns_hold:
  "list_all (column_holds num json (sql_reference (reference_to_row i r))) (tb_columns migrated_file_references) \<longleftrightarrow>
   reference_types_ok r \<and> big_int (the (ref_id r))"
  by (auto simp: migrated_file_references_def sql_reference_def reference_to_row_def sql_row_simps
      reference_types_ok_def big_int_def MAX_FIELD_LENGTH_def split: option.splits)

lemma sql_option_text_eq [simp]: "sql_option SText a = sql_option SText b \<longleftrightarrow> a = b"
  by (cases a; cases b) (simp_all add: sql_option_def)

lemma reference_table_accepts:
  "row_accepted num json migrated_file_references (sql_reference (reference_to_row i r)) (map sql_reference rows) \<longleftrightarrow>
   reference_types_ok r \<and> big_int (the (ref_id r)) \<and> the (ref_id r) \<notin> rr_id ` set rows
   \<and> (i, ref_target r) \<notin> (\<lambda>x. (rr_file_id x, ref_target (reference_of_row x))) ` set rows"
proof -
  let ?r = "sql_reference (reference_to_row i r)"
  have pk: "list_ex (same_key True [''id''] ?r) (map sql_reference rows) \<longleftrightarrow> the (ref_id r) \<in> rr_id ` set rows"
      "SNull \<notin> set (map ?r [''id''])"
    by (auto simp: list_ex_iff image_iff same_key_def sql_reference_def reference_to_row_def sql_row_of_def) metis
  have uq: "list_ex (same_key True [''file_id'', ''context'', ''entity_type'', ''entity_id''] ?r)
      (map sql_reference rows)
      \<longleftrightarrow> (i, ref_target r) \<in> (\<lambda>x. (rr_file_id x, ref_target (reference_of_row x))) ` set rows"
    by (auto simp: list_ex_iff image_iff same_key_def sql_reference_def reference_to_row_def sql_row_of_def
        ref_target_def reference_of_row_def) (metis file_id.expand)
  have cons: "tb_constraints migrated_file_references =
      [PrimaryKey ''pk_file_references'' [''id''],
       ForeignKey ''fk_file_references_file_id_files'' [''file_id''] FILES_SCHEMA ''files'' [''id''],
       Unique ''uq_file_references_file_id_owner'' [''file_id'', ''context'', ''entity_type'', ''entity_id''] True]"
    by (simp add: migrated_file_references_def)
  show ?thesis
    unfolding row_accepted_def reference_columns_hold cons using pk uq by (auto simp del: set_map)
qed

lemma reference_of_to_row: "ref_target (reference_of_row (reference_to_row i r)) = ref_target r"
  by (simp add: ref_target_def reference_of_row_def reference_to_row_def)

lemma reference_tables_accept:
  "rows_accepted num json migrated_file_references (map (\<lambda>r. sql_reference (reference_to_row i r)) refs)
     (map sql_reference rows) \<longleftrightarrow>
   list_all reference_types_ok refs \<and> list_all (\<lambda>r. big_int (the (ref_id r))) refs
   \<and> distinct (map (\<lambda>r. the (ref_id r)) refs) \<and> (\<lambda>r. the (ref_id r)) ` set refs \<inter> rr_id ` set rows = {}
   \<and> distinct (map ref_target refs)
   \<and> list_all (\<lambda>r. (i, ref_target r) \<notin> (\<lambda>x. (rr_file_id x, ref_target (reference_of_row x))) ` set rows) refs"
proof (induction refs arbitrary: rows)
  case (Cons r refs)
  have row: "rr_id (reference_to_row i r) = the (ref_id r)" "rr_file_id (reference_to_row i r) = i"
    by (simp_all add: reference_to_row_def)
  show ?case
    using Cons.IH [of "rows @ [reference_to_row i r]"]
    by (simp add: reference_table_accepts reference_of_to_row row list_all_iff) (auto simp: image_iff)
qed simp

text \<open>
  The references of a file, numbered by the identity column, pass the checks of the
  storage model exactly when the migrated table accepts them one after the other beside the
  references of the other files.
\<close>

theorem references_check_refines:
  assumes "distinct (map (\<lambda>r. the (ref_id r)) refs)" "list_all (\<lambda>r. big_int (the (ref_id r))) refs"
    and "(\<lambda>r. the (ref_id r)) ` set refs \<inter> rr_id ` set (filter (\<lambda>x. rr_file_id x \<noteq> i) rows) = {}"
  shows "references_check refs = None \<longleftrightarrow>
    rows_accepted num json migrated_file_references (map (\<lambda>r. sql_reference (reference_to_row i r)) refs)
      (map sql_reference (filter (\<lambda>x. rr_file_id x \<noteq> i) rows))"
proof -
  have "list_all (\<lambda>r. (i, ref_target r) \<notin> (\<lambda>x. (rr_file_id x, ref_target (reference_of_row x))) `
      set (filter (\<lambda>x. rr_file_id x \<noteq> i) rows)) refs"
    by (auto simp: list_all_iff)
  then show ?thesis
    unfolding reference_tables_accept using assms by (simp add: references_check_def)
qed

lemma references_check_refines_witness:
  "\<not> rows_accepted (\<lambda>p s x. True) (\<lambda>d. True) migrated_file_references
     (map (\<lambda>r. sql_reference (reference_to_row (FileId 1) r))
       [\<lparr>ref_context = ''a'', ref_entity_type = ''b'', ref_entity_id = None, ref_entity_uuid = None, ref_id = Some 1\<rparr>,
        \<lparr>ref_context = ''a'', ref_entity_type = ''b'', ref_entity_id = None, ref_entity_uuid = None, ref_id = Some 2\<rparr>])
     (map sql_reference [])"
proof -
  let ?refs = "[\<lparr>ref_context = ''a'', ref_entity_type = ''b'', ref_entity_id = None, ref_entity_uuid = None, ref_id = Some 1\<rparr>,
        \<lparr>ref_context = ''a'', ref_entity_type = ''b'', ref_entity_id = None, ref_entity_uuid = None, ref_id = Some 2\<rparr>]
        :: file_reference list"
  have "references_check ?refs \<noteq> None" by code_simp
  then show ?thesis
    using references_check_refines [where refs = ?refs and i = "FileId 1" and rows = "[]"
        and num = "\<lambda>p s x. True" and json = "\<lambda>d. True"]
    by (simp add: big_int_def)
qed

section \<open>The outbox and the inbox\<close>

definition sql_outbox :: "int \<Rightarrow> outbox_message \<Rightarrow> pyfloat sql_row" where
  "sql_outbox n r = sql_row_of
     [(''id'', SInt n), (''message_id'', SUuid (ob_message_id r)), (''message_type'', SText (ob_message_type r)),
      (''exchange'', SText (ob_exchange r)), (''routing_key'', SText (ob_routing_key r)),
      (''headers'', SJson (ob_headers r)), (''properties'', SJson (ob_properties r)), (''body'', SJson (ob_body r)),
      (''status'', SText (outbox_status_value (ob_status r))),
      (''sent_at'', sql_option (\<lambda>t. STime) (ob_sent_at r)), (''created_at'', STime), (''updated_at'', STime)]"

definition sql_inbox :: "int \<Rightarrow> inbox_message \<Rightarrow> pyfloat sql_row" where
  "sql_inbox n r = sql_row_of
     [(''id'', SInt n), (''message_id'', SUuid (ib_message_id r)), (''message_type'', SText (ib_message_type r)),
      (''handler_name'', SText (ib_handler_name r)), (''handled_at'', STime)]"

lemma outbox_status_fits: "column_text 16 (outbox_status_value s)" "outbox_status_value s \<in> {''Pending'', ''Sent''}"
  by (cases s; simp add: column_text_def)+

text \<open>Numbered rows: a fresh number and a fresh key.\<close>

lemma numbered_key:
  assumes "\<And>n x. f n x ''id'' = SInt n" "n \<notin> fst ` set rows"
  shows "\<not> list_ex (same_key True [''id''] (f n r)) (map (\<lambda>(m, x). f m x) rows)" "SNull \<notin> set (map (f n r) [''id''])"
  using assms by (induction rows) (auto simp: same_key_def)

lemma outbox_table_accepts:
  assumes "n \<notin> fst ` set rows" "big_int n" "json (ob_headers r)" "json (ob_properties r)" "json (ob_body r)"
  shows "insert_outbox r (map snd rows) = Inr (map snd rows @ [r]) \<longleftrightarrow>
    row_accepted num json shipment_outbox (sql_outbox n r) (map (\<lambda>(m, x). sql_outbox m x) rows)"
proof -
  let ?r = "sql_outbox n r"
  have cols: "list_all (column_holds num json ?r) (tb_columns shipment_outbox) \<longleftrightarrow>
      list_all (column_text 255) [ob_message_type r, ob_exchange r, ob_routing_key r]"
    using assms(2-5)
    by (auto simp: shipment_outbox_def sql_outbox_def sql_row_simps big_int_def outbox_status_fits split: option.splits)
  have pk: "\<not> list_ex (same_key True [''id''] ?r) (map (\<lambda>(m, x). sql_outbox m x) rows)" "SNull \<notin> set (map ?r [''id''])"
    by (rule numbered_key(1) [OF _ assms(1)]; simp add: sql_outbox_def sql_row_of_def)
      (simp add: sql_outbox_def sql_row_of_def)
  have uq: "list_ex (same_key False [''message_id''] ?r) (map (\<lambda>(m, x). sql_outbox m x) rows)
      = list_ex (\<lambda>x. ob_message_id x = ob_message_id r) (map snd rows)"
    by (induction rows) (auto simp: same_key_def sql_outbox_def sql_row_of_def)
  have st: "eval_expr ?r (InTexts (Col ''status'') [''Pending'', ''Sent'']) \<noteq> SBool False"
    using outbox_status_fits by (simp add: sql_outbox_def sql_row_of_def)
  have cons: "tb_constraints shipment_outbox =
      [PrimaryKey ''pk_outbox_messages'' [''id''], Unique ''uq_outbox_messages_message_id'' [''message_id''] False,
       Check ''outbox_status'' (InTexts (Col ''status'') [''Pending'', ''Sent''])]"
    by (simp add: shipment_outbox_def)
  show ?thesis
    unfolding row_accepted_def cols cons insert_outbox_def
    using pk uq st by (simp del: eval_expr.simps set_map list.map) blast
qed

lemma inbox_table_accepts:
  assumes "n \<notin> fst ` set rows" "big_int n"
  shows "record_inbox (ib_message_id r) (ib_message_type r) (ib_handler_name r) (map snd rows) = Inr (map snd rows @ [r]) \<longleftrightarrow>
    row_accepted num json shipment_inbox (sql_inbox n r) (map (\<lambda>(m, x). sql_inbox m x) rows)"
proof -
  let ?r = "sql_inbox n r"
  have cols: "list_all (column_holds num json ?r) (tb_columns shipment_inbox) \<longleftrightarrow>
      column_text 255 (ib_message_type r) \<and> column_text 255 (ib_handler_name r)"
    using assms(2) by (auto simp: shipment_inbox_def sql_inbox_def sql_row_simps big_int_def)
  have pk: "\<not> list_ex (same_key True [''id''] ?r) (map (\<lambda>(m, x). sql_inbox m x) rows)" "SNull \<notin> set (map ?r [''id''])"
    by (rule numbered_key(1) [OF _ assms(1)]; simp add: sql_inbox_def sql_row_of_def)
      (simp add: sql_inbox_def sql_row_of_def)
  have uq: "list_ex (same_key False [''message_id'', ''handler_name''] ?r) (map (\<lambda>(m, x). sql_inbox m x) rows)
      = list_ex (\<lambda>x. inbox_key x = (ib_message_id r, ib_handler_name r)) (map snd rows)"
    by (induction rows) (auto simp: same_key_def sql_inbox_def sql_row_of_def inbox_key_def)
  have cons: "tb_constraints shipment_inbox =
      [PrimaryKey ''pk_inbox_messages'' [''id''],
       Unique ''uq_inbox_messages_message_id_handler_name'' [''message_id'', ''handler_name''] False]"
    by (simp add: shipment_inbox_def)
  show ?thesis
    unfolding row_accepted_def cols cons record_inbox_def
    using pk uq by (simp del: set_map list.map) blast
qed

lemma same_bus_tables: "customs_outbox = shipment_outbox" "customs_inbox = shipment_inbox"
  by (simp_all add: customs_outbox_def shipment_outbox_def customs_inbox_def shipment_inbox_def)

text \<open>
  C40. The outbox takes a row exactly when the migrated table does, in either schema, and so
  does the inbox: a message identifier once in the outbox, and once per handler in the inbox.
\<close>

theorem bus_tables_refine:
  assumes "n \<notin> fst ` set rows" "n \<notin> fst ` set handled" "big_int n"
    and "json (ob_headers r)" "json (ob_properties r)" "json (ob_body r)"
    and "out_table \<in> {shipment_outbox, customs_outbox}" "in_table \<in> {shipment_inbox, customs_inbox}"
  shows "(insert_outbox r (map snd rows) = Inr (map snd rows @ [r]) \<longleftrightarrow>
      row_accepted num json out_table (sql_outbox n r) (map (\<lambda>(k, x). sql_outbox k x) rows))
    \<and> (record_inbox (ib_message_id m) (ib_message_type m) (ib_handler_name m) (map snd handled)
        = Inr (map snd handled @ [m]) \<longleftrightarrow>
      row_accepted num json in_table (sql_inbox n m) (map (\<lambda>(k, x). sql_inbox k x) handled))"
  using assms outbox_table_accepts inbox_table_accepts same_bus_tables by auto

lemma bus_tables_refine_witness:
  "row_accepted (\<lambda>p s x. True) (\<lambda>d. True) customs_inbox (sql_inbox 2 \<lparr>ib_message_id = 1, ib_message_type = ''t'', ib_handler_name = ''h''\<rparr>)
     (map (\<lambda>(k, x). sql_inbox k x) [(1, \<lparr>ib_message_id = 1, ib_message_type = ''t'', ib_handler_name = ''g''\<rparr>)])"
proof -
  have "record_inbox 1 ''t'' ''h'' [\<lparr>ib_message_id = 1, ib_message_type = ''t'', ib_handler_name = ''g''\<rparr>]
      = Inr [\<lparr>ib_message_id = 1, ib_message_type = ''t'', ib_handler_name = ''g''\<rparr>,
             \<lparr>ib_message_id = 1, ib_message_type = ''t'', ib_handler_name = ''h''\<rparr>]"
    by (simp add: record_inbox_def column_text_def inbox_key_def)
  then show ?thesis
    using bus_tables_refine [where n = 2 and rows = "[]" and json = "\<lambda>d. True" and out_table = customs_outbox
        and handled = "[(1, \<lparr>ib_message_id = 1, ib_message_type = ''t'', ib_handler_name = ''g''\<rparr>)]"
        and m = "\<lparr>ib_message_id = 1, ib_message_type = ''t'', ib_handler_name = ''h''\<rparr>"
        and in_table = customs_inbox and num = "\<lambda>p s x. True"]
    by (simp add: big_int_def)
qed

end
