(* ===== verification/System.thy ===== *)
theory System
  imports Composition
begin

text \<open>
  The whole system: the HTTP requests of the Shipment and Customs modules, the relay of
  either outbox and the deliveries to the Customs worker, interleaved in any order over one
  database and one broker. A step is one request, one relay run or one delivery, each with
  the failures it may have. The broker may hand over any message that it accepted, any number
  of times and at any time, with further headers. The Files module shares no state with the
  others.
\<close>

section \<open>Worlds and steps\<close>

record 'b world =
  wo_shipments :: shipment_db
  wo_serial :: int
  wo_customs :: customs_db
  wo_broker :: 'b
  wo_drawn :: "uuid set"

text \<open>
  \<open>wo_drawn\<close> holds the identifiers that \<open>uuid4\<close> has drawn; a step draws others.
\<close>

inductive system_step ::
  "settings \<Rightarrow> 'b amqp \<Rightarrow> ('b \<Rightarrow> amqp_call list) \<Rightarrow> (pyval dict \<Rightarrow> exc + 8 word list) \<Rightarrow>
   (8 word list \<Rightarrow> json_error + pyval) \<Rightarrow> 'b world \<Rightarrow> 'b world \<Rightarrow> bool"
  for st :: settings and amqp :: "'b amqp" and accepted :: "'b \<Rightarrow> amqp_call list"
    and dumps :: "pyval dict \<Rightarrow> exc + 8 word list" and loads :: "8 word list \<Rightarrow> json_error + pyval" where
  create: "u \<notin> wo_drawn w \<Longrightarrow>
    create_draft_requests numeric fits commit [(u, c)] (wo_serial w) (wo_shipments w) = (resps, db', v') \<Longrightarrow>
    system_step st amqp accepted dumps loads w
      (w\<lparr>wo_shipments := db', wo_serial := v', wo_drawn := insert u (wo_drawn w)\<rparr>)"
| assign: "assign_route_request numeric fits commit sid c (wo_shipments w) = (resp, db') \<Longrightarrow>
    system_step st amqp accepted dumps loads w (w\<lparr>wo_shipments := db'\<rparr>)"
| finalize: "u \<notin> wo_drawn w \<Longrightarrow>
    finalize_manifest_request numeric fits (lifespan_destinations st) u now commit sid c (wo_shipments w) = (resp, db') \<Longrightarrow>
    system_step st amqp accepted dumps loads w
      (w\<lparr>wo_shipments := db', wo_drawn := insert u (wo_drawn w)\<rparr>)"
| relay_shipment: "(\<And>b x b'. opening b = (x, b') \<Longrightarrow> filter is_publication (accepted b') = filter is_publication (accepted b)) \<Longrightarrow>
    run_dispatch opening amqp dumps commit now locked topology limit (md_outbox (wo_shipments w), wo_broker w)
      = (n, rows, b') \<Longrightarrow>
    system_step st amqp accepted dumps loads w
      (w\<lparr>wo_shipments := (wo_shipments w)\<lparr>md_outbox := rows\<rparr>, wo_broker := b'\<rparr>)"
| relay_customs: "(\<And>b x b'. opening b = (x, b') \<Longrightarrow> filter is_publication (accepted b') = filter is_publication (accepted b)) \<Longrightarrow>
    run_dispatch opening amqp dumps commit now locked topology limit (md_outbox (wo_customs w), wo_broker w)
      = (n, rows, b') \<Longrightarrow>
    system_step st amqp accepted dumps loads w
      (w\<lparr>wo_customs := (wo_customs w)\<lparr>md_outbox := rows\<rparr>, wo_broker := b'\<rparr>)"
| deliver: "Publish ex rk m \<in> set (accepted (wo_broker w)) \<Longrightarrow> same_delivery m (dl_message d) \<Longrightarrow>
    bc_broker c = wo_broker w \<Longrightarrow> inj_on draw {t..<t'} \<Longrightarrow> draw ` {t..<t'} \<inter> wo_drawn w = {} \<Longrightarrow>
    get_module (build_module_registry st) ''customs_clearance'' = Inr binding \<Longrightarrow>
    handle_delivery amqp failure_text loads (customs_run cases_persist draw) commit (mb_handlers binding) retries t d
      (c, wo_customs w) = (r, (c', db'), t', ks) \<Longrightarrow>
    system_step st amqp accepted dumps loads w
      (w\<lparr>wo_customs := db', wo_broker := bc_broker c', wo_drawn := wo_drawn w \<union> draw ` {t..<t'}\<rparr>)"
| attach: "u \<notin> wo_drawn w \<Longrightarrow> attach_document_request commit u raw cmd (wo_customs w) = (resp', db') \<Longrightarrow>
    system_step st amqp accepted dumps loads w
      (w\<lparr>wo_customs := db', wo_drawn := insert u (wo_drawn w)\<rparr>)"
| verify: "u \<notin> wo_drawn w \<Longrightarrow>
    verify_document_request (lifespan_destinations st) u now commit raw i cmd' (wo_customs w) = (resp'', db') \<Longrightarrow>
    system_step st amqp accepted dumps loads w
      (w\<lparr>wo_customs := db', wo_drawn := insert u (wo_drawn w)\<rparr>)"
| broker: "filter is_publication (accepted b') = filter is_publication (accepted (wo_broker w)) \<Longrightarrow>
    system_step st amqp accepted dumps loads w (w\<lparr>wo_broker := b'\<rparr>)"

text \<open>A fresh installation: empty tables and a broker that has no message.\<close>

definition first_world :: "int \<Rightarrow> 'b \<Rightarrow> 'b world" where
  "first_world serial b =
     \<lparr>wo_shipments = empty_shipment_db, wo_serial = serial, wo_customs = empty_customs_db, wo_broker = b,
      wo_drawn = {}\<rparr>"

inductive system_reachable ::
  "settings \<Rightarrow> 'b amqp \<Rightarrow> ('b \<Rightarrow> amqp_call list) \<Rightarrow> (pyval dict \<Rightarrow> exc + 8 word list) \<Rightarrow>
   (8 word list \<Rightarrow> json_error + pyval) \<Rightarrow> 'b world \<Rightarrow> bool"
  for st :: settings and amqp :: "'b amqp" and accepted :: "'b \<Rightarrow> amqp_call list"
    and dumps :: "pyval dict \<Rightarrow> exc + 8 word list" and loads :: "8 word list \<Rightarrow> json_error + pyval" where
  installed: "filter is_publication (accepted b) = [] \<Longrightarrow>
    system_reachable st amqp accepted dumps loads (first_world serial b)"
| stepped: "system_reachable st amqp accepted dumps loads w \<Longrightarrow> system_step st amqp accepted dumps loads w w' \<Longrightarrow>
    system_reachable st amqp accepted dumps loads w'"

section \<open>What the rows say\<close>

text \<open>The outbox row that announces the finalized manifest of a shipment.\<close>

definition announces_shipment :: "outbox_message \<Rightarrow> shipment_id \<Rightarrow> bool" where
  "announces_shipment r i \<longleftrightarrow>
     ob_message_type r = SHIPMENT_MANIFEST_FINALIZED \<and> ob_headers r = []
     \<and> (\<exists>s m. wf_manifest m \<and> sh_id s = i \<and> ob_body r = to_body (finalized_event s m))"

lemma announces_shipment_of:
  "announces dests (finalized_event s m) r \<Longrightarrow> wf_manifest m \<Longrightarrow> announces_shipment r (sh_id s)"
  by (auto simp: announces_def announces_shipment_def finalized_event_def ShipmentManifestFinalized_def
      init_message_class_def SHIPMENT_MANIFEST_FINALIZED_def)

lemma announces_shipment_command:
  assumes "announces_shipment r i"
  obtains c where "open_command_of_body (ob_body r) = Inr \<lparr>oc_shipment_id = str_shipment_id i, oc_commodity_code = c\<rparr>"
proof -
  obtain s m where m: "wf_manifest m" "sh_id s = i" "ob_body r = to_body (finalized_event s m)"
    using assms by (auto simp: announces_shipment_def)
  show thesis using that finalized_body_command [OF m(1), of s] m(2,3) by simp
qed

lemma str_shipment_id_inj: "str_shipment_id i = str_shipment_id j \<Longrightarrow> i = j"
  by (metis mk_str_shipment_id sum.inject(2))

lemma announces_one_shipment: "announces_shipment r i \<Longrightarrow> announces_shipment r j \<Longrightarrow> i = j"
proof -
  assume a: "announces_shipment r i" "announces_shipment r j"
  obtain c where c: "open_command_of_body (ob_body r) = Inr \<lparr>oc_shipment_id = str_shipment_id i, oc_commodity_code = c\<rparr>"
    by (rule announces_shipment_command [OF a(1)])
  obtain c' where c': "open_command_of_body (ob_body r) = Inr \<lparr>oc_shipment_id = str_shipment_id j, oc_commodity_code = c'\<rparr>"
    by (rule announces_shipment_command [OF a(2)])
  have "str_shipment_id i = str_shipment_id j" using c c' by simp
  then show ?thesis by (rule str_shipment_id_inj)
qed

lemma announces_shipment_sent [simp]: "announces_shipment (mark_as_sent now r) i = announces_shipment r i"
  by (simp add: announces_shipment_def mark_as_sent_def)

lemma row_message_sent [simp]: "row_message dumps (mark_as_sent now r) = row_message dumps r"
  "row_parcel dumps (mark_as_sent now r) = row_parcel dumps r"
  by (simp_all add: row_message_def row_parcel_def mark_as_sent_def)

section \<open>Invariants\<close>

definition not_draft :: "shipment_table \<Rightarrow> shipment_id \<Rightarrow> bool" where
  "not_draft rows i \<longleftrightarrow> (\<exists>row. map_of rows i = Some row \<and> sr_status row \<noteq> ''Draft'')"

definition keyed_shipments :: "shipment_table \<Rightarrow> bool" where
  "keyed_shipments rows \<longleftrightarrow> distinct (map fst rows) \<and> (\<forall>(k, row) \<in> set rows. k = ShipmentId (sr_id row))"

text \<open>
  The Shipment schema: the outbox announces shipments that are no longer drafts, each in one
  row, and every such shipment is announced.
\<close>

definition shipment_side :: "shipment_db \<Rightarrow> uuid set \<Rightarrow> bool" where
  "shipment_side db drawn \<longleftrightarrow>
     keyed_shipments (md_store db) \<and> sid_value ` fst ` set (md_store db) \<subseteq> drawn
     \<and> distinct (map ob_message_id (md_outbox db))
     \<and> (\<forall>r \<in> set (md_outbox db). \<exists>i. announces_shipment r i \<and> not_draft (md_store db) i)
     \<and> (\<forall>i. not_draft (md_store db) i \<longrightarrow> (\<exists>r \<in> set (md_outbox db). announces_shipment r i))
     \<and> (\<forall>r \<in> set (md_outbox db). \<forall>r' \<in> set (md_outbox db). \<forall>i.
          announces_shipment r i \<longrightarrow> announces_shipment r' i \<longrightarrow> r = r')"

text \<open>The broker holds announcements of the outbox only, and every row marked sent.\<close>

definition carries :: "(pyval dict \<Rightarrow> exc + 8 word list) \<Rightarrow> outbox_message list \<Rightarrow> amqp_message \<Rightarrow> bool" where
  "carries dumps rows m \<longleftrightarrow>
     (am_type m = Some SHIPMENT_MANIFEST_FINALIZED \<longrightarrow>
       (\<exists>r \<in> set rows. am_message_id m = am_message_id (row_message dumps r) \<and> am_body m = am_body (row_message dumps r)))"

definition broker_side ::
  "(pyval dict \<Rightarrow> exc + 8 word list) \<Rightarrow> amqp_call list \<Rightarrow> outbox_message list \<Rightarrow> bool" where
  "broker_side dumps calls rows \<longleftrightarrow>
     (\<forall>ex rk m. Publish ex rk m \<in> set calls \<longrightarrow> carries dumps rows m)
     \<and> (\<forall>r \<in> set rows. is_sent r \<longrightarrow> row_parcel dumps r \<in> set calls)"

text \<open>The Customs schema: cases and inbox rows correspond, in order.\<close>

definition case_of_message :: "outbox_message list \<Rightarrow> case_id \<times> case_row \<Rightarrow> uuid \<times> string \<Rightarrow> bool" where
  "case_of_message rows kc k \<longleftrightarrow>
     fst kc = CaseId (kr_id (snd kc)) \<and> snd k = ''OpenClearanceCaseMessageHandler''
     \<and> (\<exists>r \<in> set rows. \<exists>i. ob_message_id r = fst k \<and> announces_shipment r i
          \<and> kr_shipment_id (snd kc) = str_shipment_id i)"

definition customs_side :: "customs_db \<Rightarrow> outbox_message list \<Rightarrow> uuid set \<Rightarrow> bool" where
  "customs_side db rows drawn \<longleftrightarrow>
     list_all2 (case_of_message rows) (md_store db) (map inbox_key (md_inbox db))
     \<and> distinct (map inbox_key (md_inbox db)) \<and> distinct (map fst (md_store db))
     \<and> cid_value ` fst ` set (md_store db) \<subseteq> drawn
     \<and> (\<forall>r \<in> set (md_outbox db). ob_message_type r \<noteq> SHIPMENT_MANIFEST_FINALIZED)
     \<and> distinct (map ob_message_id (md_outbox db)) \<and> documents_distinct (md_store db)"

definition system_inv ::
  "('b \<Rightarrow> amqp_call list) \<Rightarrow> (pyval dict \<Rightarrow> exc + 8 word list) \<Rightarrow> 'b world \<Rightarrow> bool" where
  "system_inv accepted dumps w \<longleftrightarrow>
     shipment_side (wo_shipments w) (wo_drawn w)
     \<and> broker_side dumps (filter is_publication (accepted (wo_broker w))) (md_outbox (wo_shipments w))
     \<and> customs_side (wo_customs w) (md_outbox (wo_shipments w)) (wo_drawn w)"

section \<open>The Shipment requests on their rows\<close>

lemma postgres_persist_Inr:
  "postgres_persist numeric fits s rows = Inr rows' \<Longrightarrow>
   rows' = AList.update (sh_id s) (shipment_column numeric (shipment_to_row s)) rows"
  by (auto simp: postgres_persist_def table_save_Inr shipment_to_row_def)

lemma stored_shipment:
  "sr_status (shipment_column numeric (shipment_to_row s)) = tracking_status_value (sh_status s)"
  "sr_id (shipment_column numeric (shipment_to_row s)) = sid_value (sh_id s)"
  by (simp_all add: shipment_column_def shipment_to_row_def)

lemma found_shipment:
  assumes "postgres_find_by_id i rows = Inr (Some s)" "keyed_shipments rows"
  obtains row where "map_of rows i = Some row" "sr_status row = tracking_status_value (sh_status s)" "sh_id s = i"
proof -
  obtain row where row: "map_of rows i = Some row" "shipment_of_row row = Inr s"
    using assms(1)
    by (auto simp: postgres_find_by_id_def load_mapped_def table_load_def bindE_Inr_iff split: option.splits)
  have s: "sr_status row = tracking_status_value (sh_status s)" "sh_id s = ShipmentId (sr_id row)"
    using row(2)
    by (auto simp: shipment_of_row_def bindE_Inr_iff mk_shipment_id_def split: option.splits
        dest: tracking_status_of_Some)
  have "i = ShipmentId (sr_id row)" using assms(2) map_of_SomeD [OF row(1)] by (auto simp: keyed_shipments_def)
  then show thesis using that row(1) s by simp
qed

lemma draft_status: "tracking_status_value st = ''Draft'' \<longleftrightarrow> st = DRAFT"
  by (cases st) simp_all

lemma keyed_update:
  assumes "keyed_shipments rows"
  shows "keyed_shipments (AList.update (sh_id s) (shipment_column numeric (shipment_to_row s)) rows)"
proof -
  have d: "distinct (map fst (AList.update (sh_id s) (shipment_column numeric (shipment_to_row s)) rows))"
    using assms by (simp add: keyed_shipments_def distinct_update)
  have "k = ShipmentId (sr_id row)"
    if "(k, row) \<in> set (AList.update (sh_id s) (shipment_column numeric (shipment_to_row s)) rows)" for k row
  proof -
    have "map_of (AList.update (sh_id s) (shipment_column numeric (shipment_to_row s)) rows) k = Some row"
      using that d by simp
    then show ?thesis
      using assms stored_shipment(2) [of numeric s]
      by (auto simp: update_conv' keyed_shipments_def split: if_splits dest!: map_of_SomeD)
  qed
  then show ?thesis using d by (auto simp: keyed_shipments_def)
qed

lemma not_draft_update:
  "not_draft (AList.update (sh_id s) (shipment_column numeric (shipment_to_row s)) rows) i \<longleftrightarrow>
   (if i = sh_id s then sh_status s \<noteq> DRAFT else not_draft rows i)"
  by (auto simp: not_draft_def update_conv' stored_shipment draft_status)

lemma shipment_keys_update:
  "fst ` set (AList.update k x rows) = insert k (fst ` set rows)"
  by (induction rows) auto

lemma shipment_side_store:
  assumes "shipment_side db drawn" "drawn \<subseteq> drawn'"
    and "keyed_shipments store" "sid_value ` fst ` set store \<subseteq> drawn'"
    and "\<And>i. not_draft store i = not_draft (md_store db) i"
  shows "shipment_side (db\<lparr>md_store := store\<rparr>) drawn'"
  using assms by (simp add: shipment_side_def)

lemma create_keeps:
  assumes inv: "shipment_side db drawn" and u: "u \<notin> drawn"
    and run: "create_draft_requests numeric fits commit [(u, c)] v db = (resps, db', v')"
  shows "shipment_side db' (insert u drawn)" "md_outbox db' = md_outbox db"
proof -
  obtain resp where one: "create_draft_shipment postgres_next_waybill (\<lambda>s. on_store (postgres_persist numeric fits s))
      commit u c v db = (resp, db', v')"
    using run by (auto simp: create_draft_requests_def split: prod.splits)
  have grow: "shipment_side db (insert u drawn)" using inv by (auto simp: shipment_side_def)
  have "shipment_side db' (insert u drawn) \<and> md_outbox db' = md_outbox db"
  proof (cases resp)
    case (Inl e)
    have "db' = db" by (rule create_draft_failure [OF one [unfolded Inl]])
    then show ?thesis using grow by simp
  next
    case (Inr resp')
    obtain w s where s: "create (ShipmentId u) w (PStr (cd_origin_port_code c)) (PStr (cd_destination_port_code c)) = Inr s"
      and p: "on_store (postgres_persist numeric fits s) db = Inr db'"
      using create_draft_success [OF one [unfolded Inr]] by metis
    have id: "sh_id s = ShipmentId u" "sh_status s = DRAFT" using s by (auto simp: create_def bindE_Inr_iff)
    let ?rows = "AList.update (sh_id s) (shipment_column numeric (shipment_to_row s)) (md_store db)"
    have db': "db' = db\<lparr>md_store := ?rows\<rparr>" using p postgres_persist_Inr by (auto simp: on_store_Inr)
    have absent: "ShipmentId u \<notin> fst ` set (md_store db)" using inv u by (force simp: shipment_side_def)
    have "shipment_side (db\<lparr>md_store := ?rows\<rparr>) (insert u drawn)"
    proof (rule shipment_side_store [OF inv])
      show "keyed_shipments ?rows" using inv by (intro keyed_update) (simp add: shipment_side_def)
      show "sid_value ` fst ` set ?rows \<subseteq> insert u drawn"
        unfolding shipment_keys_update using inv by (auto simp: shipment_side_def id)
      show "not_draft ?rows i = not_draft (md_store db) i" for i
        using absent unfolding not_draft_update by (auto simp: id not_draft_def map_of_eq_None_iff [symmetric])
    qed auto
    then show ?thesis by (simp add: db')
  qed
  then show "shipment_side db' (insert u drawn)" "md_outbox db' = md_outbox db" by blast+
qed

lemma assign_keeps:
  assumes inv: "shipment_side db drawn"
    and run: "assign_route_request numeric fits commit sid c db = (resp, db')"
  shows "shipment_side db' drawn" "md_outbox db' = md_outbox db"
proof -
  have "shipment_side db' drawn \<and> md_outbox db' = md_outbox db"
  proof (cases resp)
    case (Inl e)
    have "db' = db" by (rule assign_endpoint_failure [OF run [unfolded assign_route_request_def Inl]])
    then show ?thesis using inv by simp
  next
    case (Inr resp')
    obtain i s s' route where f: "postgres_find_by_id i (md_store db) = Inr (Some s)" and a: "assign_route route s = Inr s'"
      and p: "on_store (postgres_persist numeric fits s') db = Inr db'"
      using run Inr
      by (auto simp: assign_route_request_def assign_route_endpoint_def request_scope_Inr assign_route_handle_def
          bindE_Inr_iff split: option.splits)
    have keyed: "keyed_shipments (md_store db)" using inv by (simp add: shipment_side_def)
    obtain row where row: "map_of (md_store db) i = Some row" "sr_status row = tracking_status_value (sh_status s)" "sh_id s = i"
      using found_shipment [OF f keyed] .
    have s': "sh_id s' = i" "sh_status s' = sh_status s" using a row(3) by (auto simp: assign_route_Inr)
    let ?rows = "AList.update (sh_id s') (shipment_column numeric (shipment_to_row s')) (md_store db)"
    have db': "db' = db\<lparr>md_store := ?rows\<rparr>" using p postgres_persist_Inr by (auto simp: on_store_Inr)
    have mem: "i \<in> fst ` set (md_store db)" using map_of_SomeD [OF row(1)] by force
    have "shipment_side (db\<lparr>md_store := ?rows\<rparr>) drawn"
    proof (rule shipment_side_store [OF inv])
      show "keyed_shipments ?rows" using keyed by (rule keyed_update)
      show "sid_value ` fst ` set ?rows \<subseteq> drawn"
        unfolding shipment_keys_update using inv mem by (auto simp: shipment_side_def s')
      show "not_draft ?rows j = not_draft (md_store db) j" for j
        unfolding not_draft_update using row by (auto simp: s' not_draft_def draft_status)
    qed simp
    then show ?thesis by (simp add: db')
  qed
  then show "shipment_side db' drawn" "md_outbox db' = md_outbox db" by blast+
qed

lemma schedule_row_id:
  "schedule dests u now m db = Inr db' \<Longrightarrow>
   \<exists>r. md_outbox db' = md_outbox db @ [r] \<and> md_store db' = md_store db \<and> md_inbox db' = md_inbox db
     \<and> announces dests m r \<and> ob_message_id r \<notin> set (map ob_message_id (md_outbox db))"
  by (drule schedule_Inr) auto

lemma finalize_keeps:
  assumes inv: "shipment_side db drawn"
    and run: "finalize_manifest_request numeric fits dests u now commit sid c db = (resp, db')"
  shows "shipment_side db' drawn"
    and "md_outbox db' = md_outbox db \<or> (\<exists>r. md_outbox db' = md_outbox db @ [r] \<and> \<not> is_sent r)"
proof -
  have "shipment_side db' drawn
    \<and> (md_outbox db' = md_outbox db \<or> (\<exists>r. md_outbox db' = md_outbox db @ [r] \<and> \<not> is_sent r))"
  proof (cases resp)
    case (Inl e)
    have "db' = db" by (rule finalize_endpoint_failure [OF run [unfolded finalize_manifest_request_def Inl]])
    then show ?thesis using inv by simp
  next
    case (Inr resp')
    obtain i s m s' ev db1 where f: "postgres_find_by_id i (md_store db) = Inr (Some s)"
      and m: "mk_cargo_manifest (PFloat (fm_total_weight_kg c)) (PFloat (fm_total_volume_cbm c))
         (PStr (fm_commodity_code c)) = Inr m"
      and a: "finalize_manifest m s = Inr (s', ev)" and p: "on_store (postgres_persist numeric fits s') db = Inr db1"
      and put: "schedule dests u now ev db1 = Inr db'"
      using run Inr
      by (auto simp: finalize_manifest_request_def finalize_manifest_endpoint_def request_scope_Inr
          finalize_manifest_handle_def bindE_Inr_iff split: option.splits prod.splits)
    have keyed: "keyed_shipments (md_store db)" using inv by (simp add: shipment_side_def)
    obtain row where row: "map_of (md_store db) i = Some row" "sr_status row = tracking_status_value (sh_status s)" "sh_id s = i"
      using found_shipment [OF f keyed] .
    have s': "sh_id s' = i" "sh_status s' = READY_FOR_MANIFEST" and st: "sh_status s = DRAFT" and ev: "ev = finalized_event s m"
      using a row(3) by (auto simp: finalize_manifest_Inr)
    let ?rows = "AList.update (sh_id s') (shipment_column numeric (shipment_to_row s')) (md_store db)"
    have db1: "db1 = db\<lparr>md_store := ?rows\<rparr>" using p postgres_persist_Inr by (auto simp: on_store_Inr)
    obtain r where out: "md_outbox db' = md_outbox db @ [r]" and store: "md_store db' = ?rows"
      and ann: "announces dests ev r" and id: "ob_message_id r \<notin> set (map ob_message_id (md_outbox db))"
      using schedule_row_id [OF put] by (auto simp: db1)
    have as: "announces_shipment r i"
      using announces_shipment_of [OF ann [unfolded ev] mk_cargo_manifest_wf [OF m]] by (simp add: row(3))
    have mem: "i \<in> fst ` set (md_store db)" using map_of_SomeD [OF row(1)] by force
    have draft: "\<not> not_draft (md_store db) i" using row st by (simp add: not_draft_def)
    have other: "\<not> announces_shipment x i" if "x \<in> set (md_outbox db)" for x
      using inv that draft announces_one_shipment unfolding shipment_side_def by blast
    have nd: "not_draft ?rows j = (j = i \<or> not_draft (md_store db) j)" for j
      unfolding not_draft_update by (auto simp: s')
    have "shipment_side db' drawn"
      unfolding shipment_side_def store out
    proof (intro conjI)
      show "keyed_shipments ?rows" using keyed by (rule keyed_update)
      show "sid_value ` fst ` set ?rows \<subseteq> drawn"
        unfolding shipment_keys_update using inv mem by (auto simp: shipment_side_def s')
      show "distinct (map ob_message_id (md_outbox db @ [r]))" using inv id by (simp add: shipment_side_def)
      show "\<forall>x \<in> set (md_outbox db @ [r]). \<exists>i. announces_shipment x i \<and> not_draft ?rows i"
        using inv as unfolding nd shipment_side_def by auto
      show "\<forall>j. not_draft ?rows j \<longrightarrow> (\<exists>x \<in> set (md_outbox db @ [r]). announces_shipment x j)"
        using inv as unfolding nd shipment_side_def by auto
      show "\<forall>x \<in> set (md_outbox db @ [r]). \<forall>y \<in> set (md_outbox db @ [r]). \<forall>j.
          announces_shipment x j \<longrightarrow> announces_shipment y j \<longrightarrow> x = y"
      proof (intro ballI allI impI)
        fix x y j assume "x \<in> set (md_outbox db @ [r])" "y \<in> set (md_outbox db @ [r])"
          and j: "announces_shipment x j" "announces_shipment y j"
        then consider "x = r" "y = r" | "x = r" "y \<in> set (md_outbox db)" | "x \<in> set (md_outbox db)" "y = r"
          | "x \<in> set (md_outbox db)" "y \<in> set (md_outbox db)" by auto
        then show "x = y"
        proof cases
          case 2
          then show ?thesis using j as other announces_one_shipment by blast
        next
          case 3
          then show ?thesis using j as other announces_one_shipment by blast
        next
          case 4
          then show ?thesis using inv j unfolding shipment_side_def by blast
        qed simp
      qed
    qed
    moreover have "\<not> is_sent r" using ann by (simp add: announces_def is_sent_def)
    ultimately show ?thesis using out by blast
  qed
  then show "shipment_side db' drawn"
    and "md_outbox db' = md_outbox db \<or> (\<exists>r. md_outbox db' = md_outbox db @ [r] \<and> \<not> is_sent r)" by blast+
qed

section \<open>The relay\<close>

lemma run_dispatch_published:
  assumes channel: "amqp_channel amqp accepted"
    and silent: "\<And>b x b'. opening b = (x, b') \<Longrightarrow> filter is_publication (accepted b') = filter is_publication (accepted b)"
    and run: "run_dispatch opening amqp dumps commit now locked topology limit (rows, b) = (n, rows', b')"
    and ids: "distinct (map ob_message_id rows)"
  shows "\<exists>ds. filter is_publication (accepted b') = filter is_publication (accepted b) @ ds
    \<and> set ds \<subseteq> row_parcel dumps ` set rows
    \<and> list_all2 (\<lambda>r r'. r' = r \<or> (r' = mark_as_sent now r \<and> row_parcel dumps r \<in> set ds)) rows rows'"
proof -
  obtain x b1 where x: "opening b = (x, b1)" by fastforce
  note o = silent [OF x]
  show ?thesis
  proof (cases x)
    case (Some e)
    then have "rows' = rows" "b' = b1"
      using run x by (simp_all add: run_dispatch_def connect_def new_connection_def)
    then show ?thesis using o by (intro exI [of _ "[]"]) (simp add: list_all2_same)
  next
    case None
    let ?c = "(new_connection topology b)\<lparr>bc_broker := b1, bc_open := True\<rparr>"
    obtain c' where rel: "relay_dispatch (relay_declares amqp) (publish_row amqp dumps) commit now locked limit (rows, ?c)
        = (n, rows', c')" and b': "b' = bc_broker c'"
      using run x None
      by (auto simp: run_dispatch_def connect_def new_connection_def close_connection_def Let_def split: prod.splits)
    have "\<exists>ds. published_on accepted c' = published_on accepted ?c @ ds \<and> set ds \<subseteq> row_parcel dumps ` set rows
      \<and> list_all2 (\<lambda>r r'. r' = r \<or> (r' = mark_as_sent now r \<and> row_parcel dumps r \<in> set ds)) rows rows'"
      by (rule publisher.relay_dispatch_published [OF amqp_channel.connection_publishes [OF channel] rel _ ids])
        (rule amqp_channel.relay_declares_publishes_nothing [OF channel])
    then show ?thesis using o by (simp add: published_on_def b')
  qed
qed

text \<open>Rows that stay, as far as the other parts of the system see them.\<close>

definition outbox_kept :: "outbox_message list \<Rightarrow> outbox_message list \<Rightarrow> bool" where
  "outbox_kept rows rows' \<longleftrightarrow>
     (\<forall>r \<in> set rows. \<exists>r' \<in> set rows'. ob_message_id r' = ob_message_id r
        \<and> (\<forall>i. announces_shipment r' i = announces_shipment r i)
        \<and> (\<forall>dumps. row_message dumps r' = row_message dumps r))"

lemma outbox_kept_append: "outbox_kept rows (rows @ extra)"
  by (auto simp: outbox_kept_def)

lemma kept_carries: "carries dumps rows m \<Longrightarrow> outbox_kept rows rows' \<Longrightarrow> carries dumps rows' m"
  unfolding carries_def outbox_kept_def by metis

lemma kept_case: "case_of_message rows kc ib \<Longrightarrow> outbox_kept rows rows' \<Longrightarrow> case_of_message rows' kc ib"
  unfolding case_of_message_def outbox_kept_def by metis

lemma kept_customs:
  assumes "customs_side db rows drawn" "outbox_kept rows rows'" "drawn \<subseteq> drawn'"
  shows "customs_side db rows' drawn'"
proof -
  have "list_all2 (case_of_message rows') (md_store db) (map inbox_key (md_inbox db))"
    using assms(1) kept_case [OF _ assms(2)] unfolding customs_side_def by (auto elim: list_all2_mono)
  then show ?thesis using assms(1,3) by (auto simp: customs_side_def)
qed

abbreviation same_or_sent :: "int \<Rightarrow> (outbox_message \<Rightarrow> bool) \<Rightarrow> outbox_message \<Rightarrow> outbox_message \<Rightarrow> bool" where
  "same_or_sent now P r r' \<equiv> r' = r \<or> (r' = mark_as_sent now r \<and> P r)"

lemma marked_rows:
  assumes "list_all2 (same_or_sent now P) rows rows'"
  shows "map ob_message_id rows' = map ob_message_id rows" "outbox_kept rows rows'"
    and "r' \<in> set rows' \<Longrightarrow> \<exists>r \<in> set rows. same_or_sent now P r r'"
proof -
  show "map ob_message_id rows' = map ob_message_id rows"
    using assms by (induction rows rows' rule: list_all2_induct) auto
  have "\<exists>r' \<in> set rows'. same_or_sent now P r r'" if "r \<in> set rows" for r
    using assms that by (induction rows rows' rule: list_all2_induct) auto
  then show "outbox_kept rows rows'"
    unfolding outbox_kept_def
  proof (intro ballI)
    fix r assume "r \<in> set rows"
    then obtain r' where "r' \<in> set rows'" "same_or_sent now P r r'"
      using \<open>\<And>r. r \<in> set rows \<Longrightarrow> \<exists>r' \<in> set rows'. same_or_sent now P r r'\<close> by blast
    then show "\<exists>r' \<in> set rows'. ob_message_id r' = ob_message_id r
        \<and> (\<forall>i. announces_shipment r' i = announces_shipment r i)
        \<and> (\<forall>dumps. row_message dumps r' = row_message dumps r)"
      by (intro bexI [of _ r']) auto
  qed
  show "\<exists>r \<in> set rows. same_or_sent now P r r'" if "r' \<in> set rows'"
    using assms that by (induction rows rows' rule: list_all2_induct) auto
qed

lemma relay_keeps_shipments:
  assumes inv: "shipment_side db drawn" and rows: "list_all2 (same_or_sent now P) (md_outbox db) rows'"
  shows "shipment_side (db\<lparr>md_outbox := rows'\<rparr>) drawn"
proof -
  note M = marked_rows [OF rows]
  have dist: "distinct (map ob_message_id rows')" using inv unfolding M(1) by (simp add: shipment_side_def)
  have a: "\<exists>i. announces_shipment x i \<and> not_draft (md_store db) i" if "x \<in> set rows'" for x
    using M(3) [OF that] inv unfolding shipment_side_def by (metis announces_shipment_sent)
  have b: "\<exists>x \<in> set rows'. announces_shipment x i" if nd: "not_draft (md_store db) i" for i
  proof -
    obtain r where "r \<in> set (md_outbox db)" "announces_shipment r i" using inv nd unfolding shipment_side_def by blast
    then show ?thesis using M(2) unfolding outbox_kept_def by blast
  qed
  have c: "x = y"
    if xy: "x \<in> set rows'" "y \<in> set rows'" and i: "announces_shipment x i" "announces_shipment y i" for x y i
  proof -
    have old: "\<exists>r \<in> set (md_outbox db). ob_message_id r = ob_message_id z \<and> announces_shipment r i"
      if "z \<in> set rows'" "announces_shipment z i" for z
      using M(3) [OF that(1)] that(2) by (auto simp: Bex_def)
    obtain r s where r: "r \<in> set (md_outbox db)" "ob_message_id r = ob_message_id x" "announces_shipment r i"
      and s: "s \<in> set (md_outbox db)" "ob_message_id s = ob_message_id y" "announces_shipment s i"
      using old [OF xy(1) i(1)] old [OF xy(2) i(2)] by blast
    have "r = s" using inv r s unfolding shipment_side_def by blast
    then have "ob_message_id x = ob_message_id y" using r(2) s(2) by simp
    then show ?thesis using dist xy by (auto simp: distinct_map dest: inj_onD)
  qed
  show ?thesis using inv dist a b c by (simp add: shipment_side_def)
qed

lemma broker_side_append:
  assumes "broker_side dumps calls rows" "outbox_kept rows rows'"
    and "\<And>ex rk m. Publish ex rk m \<in> set ds \<Longrightarrow> carries dumps rows' m"
    and "\<And>r'. r' \<in> set rows' \<Longrightarrow> is_sent r' \<Longrightarrow> row_parcel dumps r' \<in> set (calls @ ds)"
  shows "broker_side dumps (calls @ ds) rows'"
  using assms kept_carries unfolding broker_side_def by (metis Un_iff set_append)

lemma relay_step_shipments:
  assumes inv: "system_inv accepted dumps w"
    and ds: "filter is_publication (accepted b') = filter is_publication (accepted (wo_broker w)) @ ds"
      "set ds \<subseteq> row_parcel dumps ` set (md_outbox (wo_shipments w))"
    and rows: "list_all2 (same_or_sent now (\<lambda>r. row_parcel dumps r \<in> set ds)) (md_outbox (wo_shipments w)) rows'"
  shows "system_inv accepted dumps
    (w\<lparr>wo_shipments := (wo_shipments w)\<lparr>md_outbox := rows'\<rparr>, wo_broker := b'\<rparr>)"
proof -
  note M = marked_rows [OF rows]
  have parts: "shipment_side (wo_shipments w) (wo_drawn w)"
    "broker_side dumps (filter is_publication (accepted (wo_broker w))) (md_outbox (wo_shipments w))"
    "customs_side (wo_customs w) (md_outbox (wo_shipments w)) (wo_drawn w)"
    using inv by (simp_all add: system_inv_def)
  have "broker_side dumps (filter is_publication (accepted (wo_broker w)) @ ds) rows'"
  proof (rule broker_side_append [OF parts(2) M(2)])
    fix ex rk m assume "Publish ex rk m \<in> set ds"
    then obtain r where "r \<in> set (md_outbox (wo_shipments w))" "m = row_message dumps r"
      using ds(2) by (auto simp: row_parcel_def)
    then have "carries dumps (md_outbox (wo_shipments w)) m" by (auto simp: carries_def)
    then show "carries dumps rows' m" using M(2) by (rule kept_carries)
  next
    fix r' assume r': "r' \<in> set rows'" "is_sent r'"
    obtain r where "r \<in> set (md_outbox (wo_shipments w))" "r' = r \<or> (r' = mark_as_sent now r \<and> row_parcel dumps r \<in> set ds)"
      using M(3) [OF r'(1)] by blast
    then show "row_parcel dumps r' \<in> set (filter is_publication (accepted (wo_broker w)) @ ds)"
      using parts(2) r'(2) by (auto simp: broker_side_def)
  qed
  then show ?thesis
    using relay_keeps_shipments [OF parts(1) rows] kept_customs [OF parts(3) M(2) subset_refl] ds(1)
    by (simp add: system_inv_def)
qed

lemma relay_step_customs:
  assumes inv: "system_inv accepted dumps w"
    and ds: "filter is_publication (accepted b') = filter is_publication (accepted (wo_broker w)) @ ds"
      "set ds \<subseteq> row_parcel dumps ` set (md_outbox (wo_customs w))"
    and rows: "list_all2 (same_or_sent now (\<lambda>r. row_parcel dumps r \<in> set ds)) (md_outbox (wo_customs w)) rows'"
  shows "system_inv accepted dumps
    (w\<lparr>wo_customs := (wo_customs w)\<lparr>md_outbox := rows'\<rparr>, wo_broker := b'\<rparr>)"
proof -
  note M = marked_rows [OF rows]
  have parts: "shipment_side (wo_shipments w) (wo_drawn w)"
    "broker_side dumps (filter is_publication (accepted (wo_broker w))) (md_outbox (wo_shipments w))"
    "customs_side (wo_customs w) (md_outbox (wo_shipments w)) (wo_drawn w)"
    using inv by (simp_all add: system_inv_def)
  have other: "ob_message_type r \<noteq> SHIPMENT_MANIFEST_FINALIZED" if "r \<in> set (md_outbox (wo_customs w))" for r
    using parts(3) that by (simp add: customs_side_def)
  have "broker_side dumps (filter is_publication (accepted (wo_broker w)) @ ds) (md_outbox (wo_shipments w))"
  proof (rule broker_side_append [OF parts(2)])
    show "outbox_kept (md_outbox (wo_shipments w)) (md_outbox (wo_shipments w))"
      using outbox_kept_append [of _ "[]"] by simp
    fix ex rk m assume "Publish ex rk m \<in> set ds"
    then obtain r where "r \<in> set (md_outbox (wo_customs w))" "m = row_message dumps r"
      using ds(2) by (auto simp: row_parcel_def)
    then show "carries dumps (md_outbox (wo_shipments w)) m" using other by (auto simp: carries_def row_message_def)
  next
    fix r assume "r \<in> set (md_outbox (wo_shipments w))" "is_sent r"
    then show "row_parcel dumps r \<in> set (filter is_publication (accepted (wo_broker w)) @ ds)"
      using parts(2) by (simp add: broker_side_def)
  qed
  moreover have "ob_message_type r' \<noteq> SHIPMENT_MANIFEST_FINALIZED" if r': "r' \<in> set rows'" for r'
    using M(3) [OF r'] other by (auto simp: mark_as_sent_def)
  ultimately show ?thesis
    using parts(1,3) ds(1) M(1) by (simp add: system_inv_def customs_side_def)
qed

section \<open>Deliveries\<close>

text \<open>What a delivery publishes is a copy of it: the same identifier, type and body.\<close>

definition same_content :: "amqp_message \<Rightarrow> amqp_call \<Rightarrow> bool" where
  "same_content m call \<longleftrightarrow>
     (\<exists>ex rk m'. call = Publish ex rk m' \<and> am_message_id m' = am_message_id m \<and> am_type m' = am_type m
        \<and> am_body m' = am_body m)"

lemma recovery_same_content: "same_content m (recovery_call failure_text t m e n)"
  by (simp add: same_content_def recovery_call_def retry_copy_def dead_letter_copy_def)

lemma delivery_publishes_copies:
  assumes channel: "amqp_channel amqp accepted"
    and run: "handle_delivery amqp failure_text loads run commit reg retries t d (c, db) = (r, (c', db'), t', ks)"
  shows "\<exists>ds. published_on accepted c' = published_on accepted c @ ds \<and> list_all (same_content (dl_message d)) ds"
  using run
proof (cases rule: handle_delivery_cases)
  case (refused e)
  then show ?thesis by (intro exI [of _ "[]"]) simp
next
  case ignored
  then show ?thesis using amqp_channel.ack_log(1) [OF channel] by (intro exI [of _ "[]"]) simp
next
  case (handled env)
  then show ?thesis using amqp_channel.ack_log(1) [OF channel] by (intro exI [of _ "[]"]) simp
next
  case (failed env e r1 c1 r2)
  obtain n where n: "read_redelivery_count (am_headers (dl_message d)) = Inr n"
    using should_process_True(1) [OF failed(1)] by blast
  have "published_on accepted c1 = published_on accepted c @ [recovery_call failure_text (bc_topology c) (dl_message d) e n]
      \<or> published_on accepted c1 = published_on accepted c"
    using amqp_channel.recover_published(1) [OF channel failed(4) envelope_of_Inr(1) [OF failed(2)] n] by blast
  moreover have "published_on accepted c' = published_on accepted c1"
    by (rule amqp_channel.ack_log(1) [OF channel failed(5)])
  ultimately show ?thesis
    using recovery_same_content [of "dl_message d" failure_text "bc_topology c" e n]
    by (metis append_Nil2 list.pred_inject(1) list.pred_inject(2))
qed

text \<open>
  Dispatching one announcement: nothing is processed, or one case is opened for the
  announced shipment.
\<close>

lemma dispatch_opens_at_most_one:
  assumes run: "dispatch (customs_run cases_persist draw) commit build_message_handlers retries t env db = (r, db', t', ks)"
    and keys: "distinct (map inbox_key (md_inbox db))" and inj: "inj_on draw {t..<t'}"
    and free: "\<And>s. s \<in> {t..<t'} \<Longrightarrow> CaseId (draw s) \<notin> fst ` set (md_store db)"
  shows "md_outbox db' = md_outbox db" "map inbox_key (md_inbox db') = map inbox_key (md_inbox db) @ ks"
    and "distinct (map inbox_key (md_inbox db'))"
    and "(ks = [] \<and> md_store db' = md_store db)
      \<or> (ks = [(env_message_id env, ''OpenClearanceCaseMessageHandler'')]
         \<and> (\<exists>kc. md_store db' = md_store db @ [kc] \<and> opened_from [env] kc \<and> kr_id (snd kc) \<in> draw ` {t..<t'}))"
proof -
  have "opening_progress draw t t' [env] db t' db' (0 + length ks)"
    by (rule dispatch_advances [where I = "opening_progress draw t t' [env] db", OF run])
      (use inj free in \<open>auto simp: list_all_iff opening_progress_def intro!: opening_advances\<close>)
  then obtain opened where out: "md_outbox db' = md_outbox db" and store: "md_store db' = md_store db @ opened"
    and len: "length opened = length ks"
    and each: "list_all (\<lambda>kr. opened_from [env] kr \<and> kr_id (snd kr) \<in> draw ` {t..<t'}) opened"
    by (auto simp: opening_progress_def)
  show "md_outbox db' = md_outbox db" by (rule out)
  show inbox: "map inbox_key (md_inbox db') = map inbox_key (md_inbox db) @ ks"
    and dist: "distinct (map inbox_key (md_inbox db'))"
    using customs_handlers.dispatch_inbox(1,2) [OF run keys] by blast+
  have "distinct ks" using dist unfolding inbox by simp
  moreover have "k = (env_message_id env, ''OpenClearanceCaseMessageHandler'')" if "k \<in> set ks" for k
    using dispatch_keys [OF run that]
    by (auto simp: handlers_for_build OpenClearanceCaseMessageHandler_def init_handler_class_def split: if_splits)
  ultimately have "ks = [] \<or> ks = [(env_message_id env, ''OpenClearanceCaseMessageHandler'')]"
    by (cases ks; cases "tl ks") auto
  then show "(ks = [] \<and> md_store db' = md_store db)
      \<or> (ks = [(env_message_id env, ''OpenClearanceCaseMessageHandler'')]
         \<and> (\<exists>kc. md_store db' = md_store db @ [kc] \<and> opened_from [env] kc \<and> kr_id (snd kc) \<in> draw ` {t..<t'}))"
  proof
    assume "ks = []"
    then show ?thesis using store len by simp
  next
    assume ks: "ks = [(env_message_id env, ''OpenClearanceCaseMessageHandler'')]"
    then obtain kc where "opened = [kc]" using len by (auto simp: length_Suc_conv)
    then show ?thesis using ks store each by simp
  qed
qed

text \<open>The envelope of an announcement is that of its row.\<close>

lemma carried_envelope:
  assumes json: "json_transports dumps loads (ob_body r)"
    and m: "am_message_id m = am_message_id (row_message dumps r)" "am_body m = am_body (row_message dumps r)"
    and env: "envelope_of loads m = Inr env"
  shows "env_message_id env = ob_message_id r" "env_body env = ob_body r"
proof -
  have id: "am_message_id m = Some (show_uuid (ob_message_id r))" using m(1) by (simp add: row_message_def)
  show "env_message_id env = ob_message_id r"
    using envelope_of_Inr(4) [OF env id] by (simp add: parse_show_uuid)
  have "decode_body loads (am_body (row_message dumps r)) = Inr (ob_body r)"
    using json object_items_back by (auto simp: json_transports_def row_message_def decode_body_def)
  then show "env_body env = ob_body r" using envelope_of_Inr(3) [OF env] m(2) by simp
qed

lemma deliver_step:
  assumes channel: "amqp_channel amqp accepted"
    and json: "\<And>s m. json_transports dumps loads (to_body (finalized_event s m))"
    and inv: "system_inv accepted dumps w"
    and m: "Publish ex rk m \<in> set (accepted (wo_broker w))" "same_delivery m (dl_message d)"
    and c: "bc_broker c = wo_broker w" and inj: "inj_on draw {t..<t'}" and drawn: "draw ` {t..<t'} \<inter> wo_drawn w = {}"
    and run: "handle_delivery amqp failure_text loads (customs_run cases_persist draw) commit build_message_handlers
      retries t d (c, wo_customs w) = (r, (c', db'), t', ks)"
  shows "system_inv accepted dumps
    (w\<lparr>wo_customs := db', wo_broker := bc_broker c', wo_drawn := wo_drawn w \<union> draw ` {t..<t'}\<rparr>)"
proof -
  let ?rows = "md_outbox (wo_shipments w)" and ?drawn = "wo_drawn w \<union> draw ` {t..<t'}"
  have parts: "shipment_side (wo_shipments w) (wo_drawn w)"
    "broker_side dumps (filter is_publication (accepted (wo_broker w))) ?rows"
    "customs_side (wo_customs w) ?rows (wo_drawn w)"
    using inv by (simp_all add: system_inv_def)
  have shipments: "shipment_side (wo_shipments w) ?drawn" using parts(1) by (auto simp: shipment_side_def)
  have content: "am_message_id (dl_message d) = am_message_id m" "am_type (dl_message d) = am_type m"
    "am_body (dl_message d) = am_body m"
    using m(2) by (simp_all add: same_delivery_def)
  have carried: "carries dumps ?rows (dl_message d)"
  proof -
    have "carries dumps ?rows m" using parts(2) m(1) by (simp add: broker_side_def)
    then show ?thesis using content by (simp add: carries_def)
  qed
  obtain ds where ds: "filter is_publication (accepted (bc_broker c')) = filter is_publication (accepted (wo_broker w)) @ ds"
    and copies: "list_all (same_content (dl_message d)) ds"
    using delivery_publishes_copies [OF channel run] by (auto simp: published_on_def c)
  have kept: "outbox_kept ?rows ?rows" using outbox_kept_append [of _ "[]"] by simp
  have broker: "broker_side dumps (filter is_publication (accepted (bc_broker c'))) ?rows"
    unfolding ds
  proof (rule broker_side_append [OF parts(2) kept])
    fix ex rk m' assume "Publish ex rk m' \<in> set ds"
    then have "am_message_id m' = am_message_id (dl_message d)" "am_type m' = am_type (dl_message d)"
      "am_body m' = am_body (dl_message d)"
      using copies by (auto simp: list_all_iff same_content_def)
    then show "carries dumps ?rows m'" using carried by (simp add: carries_def)
  next
    fix x assume "x \<in> set ?rows" "is_sent x"
    then show "row_parcel dumps x \<in> set (filter is_publication (accepted (wo_broker w)) @ ds)"
      using parts(2) by (simp add: broker_side_def)
  qed
  have free: "CaseId (draw s) \<notin> fst ` set (md_store (wo_customs w))" if "s \<in> {t..<t'}" for s
    using parts(3) drawn that by (force simp: customs_side_def)
  have grown: "customs_side db' ?rows ?drawn"
    if env: "should_process (bc_topology c) build_message_handlers (dl_message d) = Inr True"
      "envelope_of loads (dl_message d) = Inr env"
      and disp: "dispatch (customs_run cases_persist draw) commit build_message_handlers retries t env (wo_customs w)
        = (x, db', t', ks)" for env x
  proof -
    have keys: "distinct (map inbox_key (md_inbox (wo_customs w)))" using parts(3) by (simp add: customs_side_def)
    note D = dispatch_opens_at_most_one [OF disp keys inj free]
    from D(4) show ?thesis
    proof
      assume "ks = [] \<and> md_store db' = md_store (wo_customs w)"
      then show ?thesis using parts(3) D(1-3) by (auto simp: customs_side_def)
    next
      assume "ks = [(env_message_id env, ''OpenClearanceCaseMessageHandler'')]
         \<and> (\<exists>kc. md_store db' = md_store (wo_customs w) @ [kc] \<and> opened_from [env] kc \<and> kr_id (snd kc) \<in> draw ` {t..<t'})"
      then obtain kc where ks: "ks = [(env_message_id env, ''OpenClearanceCaseMessageHandler'')]"
        and store: "md_store db' = md_store (wo_customs w) @ [kc]"
        and kc: "opened_from [env] kc" "kr_id (snd kc) \<in> draw ` {t..<t'}" by blast
      obtain cmd where key: "fst kc = CaseId (kr_id (snd kc))" and ty: "env_message_type env = SHIPMENT_MANIFEST_FINALIZED"
        and cmd: "open_command_of_body (env_body env) = Inr cmd" "kr_shipment_id (snd kc) = strip (oc_shipment_id cmd)"
        using kc(1) by (auto simp: opened_from_def)
      have "am_type (dl_message d) = Some SHIPMENT_MANIFEST_FINALIZED"
        using should_process_True(3) [OF env(1)] envelope_of_Inr(2) [OF env(2)] ty by auto
      then obtain r where r: "r \<in> set ?rows" "am_message_id (dl_message d) = am_message_id (row_message dumps r)"
        "am_body (dl_message d) = am_body (row_message dumps r)"
        using carried by (auto simp: carries_def)
      obtain i where i: "announces_shipment r i" using parts(1) r(1) by (auto simp: shipment_side_def)
      have "json_transports dumps loads (ob_body r)" using i json by (auto simp: announces_shipment_def)
      note E = carried_envelope [OF this r(2,3) env(2)]
      obtain com where "open_command_of_body (ob_body r) = Inr \<lparr>oc_shipment_id = str_shipment_id i, oc_commodity_code = com\<rparr>"
        by (rule announces_shipment_command [OF i])
      then have sid: "kr_shipment_id (snd kc) = str_shipment_id i" using cmd E(2) by (auto simp: str_shipment_id_def)
      have "case_of_message ?rows kc (env_message_id env, ''OpenClearanceCaseMessageHandler'')"
        unfolding case_of_message_def using key r(1) i E(1) sid by auto
      moreover have "fst kc \<notin> fst ` set (md_store (wo_customs w))"
      proof -
        obtain s where s: "s \<in> {t..<t'}" "kr_id (snd kc) = draw s" using kc(2) by blast
        show ?thesis using free [OF s(1)] unfolding key s(2) .
      qed
      moreover have "list_all2 (case_of_message ?rows) (md_store (wo_customs w)) (map inbox_key (md_inbox (wo_customs w)))"
        using parts(3) by (simp add: customs_side_def)
      moreover have inbox: "map inbox_key (md_inbox db') = map inbox_key (md_inbox (wo_customs w))
          @ [(env_message_id env, ''OpenClearanceCaseMessageHandler'')]"
        using D(2) ks by simp
      ultimately have "list_all2 (case_of_message ?rows) (md_store db') (map inbox_key (md_inbox db'))"
        unfolding store inbox by (intro list_all2_appendI) simp_all
      moreover have "cid_value ` fst ` set (md_store db') \<subseteq> ?drawn"
      proof -
        have "cid_value ` fst ` set (md_store (wo_customs w)) \<subseteq> wo_drawn w" using parts(3) by (simp add: customs_side_def)
        then show ?thesis using kc(2) key by (auto simp: store)
      qed
      moreover have "documents_distinct (md_store db')"
        using parts(3) kc(1) by (simp add: store customs_side_def documents_distinct_def opened_from_def)
      ultimately show ?thesis
        using parts(3) D(1,3) \<open>fst kc \<notin> _\<close> unfolding customs_side_def store by auto
    qed
  qed
  have same: "customs_side (wo_customs w) ?rows ?drawn" by (rule kept_customs [OF parts(3) kept]) simp
  have "customs_side db' ?rows ?drawn"
    using run by (cases rule: handle_delivery_cases) (use grown same in auto)
  then show ?thesis using shipments broker by (simp add: system_inv_def)
qed

section \<open>The Customs requests on their rows\<close>

lemma cases_persist_Inr:
  "cases_persist c rows = Inr rows' \<Longrightarrow> rows' = AList.update (cc_id c) (case_to_row c) rows"
  by (auto simp: cases_persist_def table_save_Inr case_key_def case_to_row_def)

text \<open>The constraints of the table keep the documents of all cases apart.\<close>

lemma updated_documents:
  "distinct (map fst rows) \<Longrightarrow>
   mset (concat (map (kr_documents \<circ> snd) (AList.update k r rows)))
   = mset (kr_documents r) + mset (concat (map kr_documents (other_rows k rows)))"
proof (induction rows)
  case (Cons x rows)
  show ?case
  proof (cases "fst x = k")
    case True
    then have "k \<notin> fst ` set rows" using Cons.prems by auto
    then show ?thesis using True by (cases x) (simp add: other_rows_def other_rows_absent [unfolded other_rows_def] comp_def)
  next
    case False
    then show ?thesis using Cons by (cases x) (simp add: other_rows_def ac_simps)
  qed
qed (simp add: other_rows_def)

lemma case_check_documents:
  assumes "case_check r others = None"
  shows "distinct (map dr_id (kr_documents r @ concat (map kr_documents others)))"
proof (cases "find (\<lambda>d. document_check d \<noteq> None) (kr_documents r)")
  case None
  have pass: "(if P then Some e else x) = None \<longleftrightarrow> \<not> P \<and> x = None" for P and e :: exc and x by simp
  show ?thesis using assms unfolding case_check_def None option.case pass by blast
next
  case (Some d)
  have pass: "(if P then Some e else x) = None \<longleftrightarrow> \<not> P \<and> x = None" for P and e :: exc and x by simp
  have "document_check d \<noteq> None" using Some by (auto simp: find_Some_iff)
  moreover have "document_check d = None" using assms unfolding case_check_def Some option.case pass by blast
  ultimately show ?thesis by blast
qed

lemma cases_persist_documents:
  assumes "cases_persist c rows = Inr rows'" "distinct (map fst rows)"
  shows "documents_distinct rows'"
proof -
  let ?r = "case_to_row c"
  have check: "case_check ?r (other_rows (cc_id c) rows) = None" and rows': "rows' = AList.update (cc_id c) ?r rows"
    using assms(1) by (auto simp: cases_persist_def table_save_Inr case_key_def case_to_row_def)
  have "distinct (map dr_id (kr_documents ?r @ concat (map kr_documents (other_rows (cc_id c) rows))))"
    by (rule case_check_documents [OF check])
  moreover have "mset (map dr_id (concat (map (kr_documents \<circ> snd) rows')))
      = mset (map dr_id (kr_documents ?r @ concat (map kr_documents (other_rows (cc_id c) rows))))"
    using arg_cong [OF updated_documents [OF assms(2), of "cc_id c" ?r], of "image_mset dr_id"] by (simp add: rows')
  ultimately show ?thesis unfolding documents_distinct_def by (metis mset_eq_imp_distinct_iff)
qed

lemma found_case:
  assumes "cases_find_by_id k rows = Inr (Some c)"
  obtains row where "map_of rows k = Some row" "kr_shipment_id row = cc_shipment_id c" "cc_id c = CaseId (kr_id row)"
  using assms
  by (auto simp: cases_find_by_id_def load_mapped_def table_load_def case_of_row_def mk_case_id_def bindE_Inr_iff
      split: option.splits)

lemma update_present_list_all2:
  assumes "list_all2 P rows ks" "distinct (map fst rows)" "map_of rows k = Some x"
    and "\<And>y. P (k, x) y \<Longrightarrow> P (k, x') y"
  shows "list_all2 P (AList.update k x' rows) ks \<and> map fst (AList.update k x' rows) = map fst rows"
  using assms(1-3)
proof (induction rows ks rule: list_all2_induct)
  case (Cons r rows y ks)
  then show ?case using assms(4) by (cases r) (auto split: if_splits)
qed simp

lemma case_update_keeps:
  assumes inv: "customs_side db rows drawn" and f: "cases_find_by_id k (md_store db) = Inr (Some c)"
    and c': "cc_id c' = cc_id c" "cc_shipment_id c' = cc_shipment_id c"
    and out: "\<And>r. r \<in> set outbox \<Longrightarrow> ob_message_type r \<noteq> SHIPMENT_MANIFEST_FINALIZED" "distinct (map ob_message_id outbox)"
    and store: "store = AList.update (cc_id c') (case_to_row c') (md_store db)" and inbox: "md_inbox db' = md_inbox db"
    and db': "md_store db' = store" "md_outbox db' = outbox" and docs: "documents_distinct store"
  shows "customs_side db' rows (insert u drawn)"
proof -
  have parts: "list_all2 (case_of_message rows) (md_store db) (map inbox_key (md_inbox db))"
    "distinct (map fst (md_store db))" "cid_value ` fst ` set (md_store db) \<subseteq> drawn"
    using inv by (simp_all add: customs_side_def)
  obtain row where row: "map_of (md_store db) k = Some row" "kr_shipment_id row = cc_shipment_id c" "cc_id c = CaseId (kr_id row)"
    by (rule found_case [OF f])
  have "(k, row) \<in> set (md_store db)" by (rule map_of_SomeD [OF row(1)])
  then have "k = CaseId (kr_id row)"
    using parts(1) by (auto simp: list_all2_conv_all_nth in_set_conv_nth case_of_message_def)
  then have k: "k = cc_id c" using row(3) by simp
  have "list_all2 (case_of_message rows) store (map inbox_key (md_inbox db)) \<and> map fst store = map fst (md_store db)"
    unfolding store c'(1) k [symmetric]
  proof (rule update_present_list_all2 [OF parts(1,2) row(1)])
    show "case_of_message rows (k, case_to_row c') y" if "case_of_message rows (k, row) y" for y
      using that row k c' by (auto simp: case_of_message_def case_to_row_def)
  qed
  then show ?thesis
    using inv out inbox db' docs unfolding customs_side_def by (auto simp flip: set_map)
qed

lemma attach_keeps:
  assumes inv: "customs_side db rows drawn"
    and run: "attach_document_request commit u raw cmd db = (resp, db')"
  shows "customs_side db' rows (insert u drawn)"
proof (cases resp)
  case (Inl e)
  have "db' = db" by (rule attach_endpoint_failure [OF run [unfolded attach_document_request_def Inl]])
  then show ?thesis using inv by (auto simp: customs_side_def)
next
  case (Inr resp')
  obtain k c c' d where f: "cases_find_by_id k (md_store db) = Inr (Some c)"
    and a: "attach_document u (Inl (ad_document_type cmd)) (PUuid (ad_file_uuid cmd)) c = Inr (c', d)"
    and p: "on_store (cases_persist c') db = Inr db'"
    using run Inr
    by (auto simp: attach_document_request_def attach_document_endpoint_def request_scope_Inr attach_document_handle_def
        bindE_Inr_iff split: option.splits)
  let ?store = "AList.update (cc_id c') (case_to_row c') (md_store db)"
  have same: "cc_id c' = cc_id c" "cc_shipment_id c' = cc_shipment_id c" using a by (auto simp: attach_document_Inr)
  have db': "db' = db\<lparr>md_store := ?store\<rparr>" using p by (auto simp: on_store_Inr dest: cases_persist_Inr)
  have docs: "documents_distinct ?store"
    using p inv cases_persist_documents cases_persist_Inr by (fastforce simp: on_store_Inr customs_side_def)
  show ?thesis
    by (rule case_update_keeps [OF inv f same, where outbox = "md_outbox db" and store = ?store])
      (use inv docs in \<open>auto simp: db' customs_side_def\<close>)
qed

lemma verify_keeps:
  assumes inv: "customs_side db rows drawn"
    and run: "verify_document_request dests u now commit raw i cmd db = (resp, db')"
  shows "customs_side db' rows (insert u drawn)"
proof (cases resp)
  case (Inl e)
  have "db' = db" by (rule verify_endpoint_failure [OF run [unfolded verify_document_request_def Inl]])
  then show ?thesis using inv by (auto simp: customs_side_def)
next
  case (Inr resp')
  obtain k c c' ev db1 where f: "cases_find_by_id k (md_store db) = Inr (Some c)"
    and v: "verify_document i (PStr (vd_inspector_id cmd)) c = Inr (c', ev)"
    and p: "on_store (cases_persist c') db = Inr db1"
    and put: "(case ev of None \<Rightarrow> Inr db1 | Some m \<Rightarrow> schedule dests u now m db1) = Inr db'"
    using run Inr
    by (auto simp: verify_document_request_def verify_document_endpoint_def request_scope_Inr verify_document_handle_def
        bindE_Inr_iff split: option.splits prod.splits)
  have same: "cc_id c' = cc_id c" "cc_shipment_id c' = cc_shipment_id c"
    using v by (auto simp: verify_document_Inr with_document_def split: if_splits)
  have ev: "ev = None \<or> ev = Some (completed_event c)" using v by (auto simp: verify_document_Inr split: if_splits)
  let ?store = "AList.update (cc_id c') (case_to_row c') (md_store db)"
  have db1: "db1 = db\<lparr>md_store := ?store\<rparr>" using p cases_persist_Inr by (auto simp: on_store_Inr)
  have docs: "documents_distinct ?store"
    using p inv cases_persist_documents cases_persist_Inr by (fastforce simp: on_store_Inr customs_side_def)
  have db': "md_store db' = ?store \<and> md_inbox db' = md_inbox db
    \<and> (md_outbox db' = md_outbox db
       \<or> (\<exists>r. md_outbox db' = md_outbox db @ [r] \<and> announces dests (completed_event c) r
           \<and> ob_message_id r \<notin> set (map ob_message_id (md_outbox db))))"
    using ev put schedule_row_id [of dests u now "completed_event c" db1 db'] by (auto simp: db1)
  have "ob_message_type r \<noteq> SHIPMENT_MANIFEST_FINALIZED" if "announces dests (completed_event c) r" for r
    using that by (auto simp: announces_def completed_event_def DocumentVerificationCompleted_def init_message_class_def
        SHIPMENT_MANIFEST_FINALIZED_def)
  then show ?thesis
    using db' inv docs
    by (intro case_update_keeps [OF inv f same, where outbox = "md_outbox db'" and store = ?store])
      (auto simp: customs_side_def)
qed

section \<open>The invariant of the system\<close>

lemma system_step_inv:
  assumes channel: "amqp_channel amqp accepted"
    and json: "\<And>s m. json_transports dumps loads (to_body (finalized_event s m))"
    and step: "system_step st amqp accepted dumps loads w w'" and inv: "system_inv accepted dumps w"
  shows "system_inv accepted dumps w'"
proof -
  have parts: "shipment_side (wo_shipments w) (wo_drawn w)"
    "broker_side dumps (filter is_publication (accepted (wo_broker w))) (md_outbox (wo_shipments w))"
    "customs_side (wo_customs w) (md_outbox (wo_shipments w)) (wo_drawn w)"
    using inv by (simp_all add: system_inv_def)
  have customs: "customs_side (wo_customs w) rows (insert u (wo_drawn w))"
    if "outbox_kept (md_outbox (wo_shipments w)) rows" for rows u
    by (rule kept_customs [OF parts(3) that]) auto
  have kept: "outbox_kept rows rows" for rows using outbox_kept_append [of _ "[]"] by simp
  from step show ?thesis
  proof cases
    case (create u numeric fits commit c resps db' v')
    show ?thesis
      using create_keeps [OF parts(1) create(2,3)] parts(2) customs [OF kept]
      by (simp add: create(1) system_inv_def)
  next
    case (assign numeric fits commit sid c resp db')
    show ?thesis
      using assign_keeps [OF parts(1) assign(2)] parts(2,3) by (simp add: assign(1) system_inv_def)
  next
    case (finalize u numeric fits now commit sid c resp db')
    have side: "shipment_side (wo_shipments w) (insert u (wo_drawn w))" using parts(1) by (auto simp: shipment_side_def)
    note F = finalize_keeps [OF side finalize(3)]
    from F(2) obtain extra where out: "md_outbox db' = md_outbox (wo_shipments w) @ extra"
      and new: "\<forall>r \<in> set extra. \<not> is_sent r"
      by (elim disjE exE conjE) (rule_tac that [of "[]"], simp, simp, rule_tac that [of "[_]"], simp, simp)
    have "broker_side dumps (filter is_publication (accepted (wo_broker w)) @ []) (md_outbox db')"
      by (rule broker_side_append [OF parts(2)])
        (use parts(2) new in \<open>auto simp: out outbox_kept_append broker_side_def\<close>)
    then show ?thesis
      using F(1) customs [OF outbox_kept_append] by (simp add: finalize(1) system_inv_def out)
  next
    case (relay_shipment connecting commit now locked topology limit n rows b')
    have "\<exists>ds. filter is_publication (accepted b') = filter is_publication (accepted (wo_broker w)) @ ds
      \<and> set ds \<subseteq> row_parcel dumps ` set (md_outbox (wo_shipments w))
      \<and> list_all2 (same_or_sent now (\<lambda>r. row_parcel dumps r \<in> set ds)) (md_outbox (wo_shipments w)) rows"
      by (rule run_dispatch_published [OF channel _ relay_shipment(3)])
        (rule relay_shipment(2), assumption, use parts(1) in \<open>simp add: shipment_side_def\<close>)
    then obtain ds where "filter is_publication (accepted b') = filter is_publication (accepted (wo_broker w)) @ ds"
      "set ds \<subseteq> row_parcel dumps ` set (md_outbox (wo_shipments w))"
      "list_all2 (same_or_sent now (\<lambda>r. row_parcel dumps r \<in> set ds)) (md_outbox (wo_shipments w)) rows" by blast
    from relay_step_shipments [OF inv this] show ?thesis by (simp add: relay_shipment(1))
  next
    case (relay_customs connecting commit now locked topology limit n rows b')
    have "\<exists>ds. filter is_publication (accepted b') = filter is_publication (accepted (wo_broker w)) @ ds
      \<and> set ds \<subseteq> row_parcel dumps ` set (md_outbox (wo_customs w))
      \<and> list_all2 (same_or_sent now (\<lambda>r. row_parcel dumps r \<in> set ds)) (md_outbox (wo_customs w)) rows"
      by (rule run_dispatch_published [OF channel _ relay_customs(3)])
        (rule relay_customs(2), assumption, use parts(3) in \<open>simp add: customs_side_def\<close>)
    then obtain ds where "filter is_publication (accepted b') = filter is_publication (accepted (wo_broker w)) @ ds"
      "set ds \<subseteq> row_parcel dumps ` set (md_outbox (wo_customs w))"
      "list_all2 (same_or_sent now (\<lambda>r. row_parcel dumps r \<in> set ds)) (md_outbox (wo_customs w)) rows" by blast
    from relay_step_customs [OF inv this] show ?thesis by (simp add: relay_customs(1))
  next
    case (deliver ex rk m d c draw t t' binding failure_text commit retries r c' db' ks)
    have b: "mb_handlers binding = build_message_handlers" using deliver(7) by (auto simp: build_module_registry_get)
    show ?thesis
      using deliver_step [OF channel json inv deliver(2-6) deliver(8) [unfolded b]] by (simp add: deliver(1))
  next
    case (attach u commit raw cmd resp' db')
    show ?thesis
      using attach_keeps [OF parts(3) attach(3)] parts(1,2) by (auto simp: attach(1) system_inv_def shipment_side_def)
  next
    case (verify u now commit raw i cmd' resp'' db')
    show ?thesis
      using verify_keeps [OF parts(3) verify(3)] parts(1,2) by (auto simp: verify(1) system_inv_def shipment_side_def)
  next
    case (broker b')
    then show ?thesis using inv by (simp add: system_inv_def)
  qed
qed

lemma first_world_inv: "filter is_publication (accepted b) = [] \<Longrightarrow> system_inv accepted dumps (first_world serial b)"
  by (simp add: system_inv_def first_world_def shipment_side_def broker_side_def customs_side_def keyed_shipments_def
      not_draft_def empty_shipment_db_def empty_customs_db_def documents_distinct_def)

lemma system_reachable_inv:
  assumes "amqp_channel amqp accepted" "\<And>s m. json_transports dumps loads (to_body (finalized_event s m))"
    and "system_reachable st amqp accepted dumps loads w"
  shows "system_inv accepted dumps w"
  using assms(3)
  by (induction rule: system_reachable.induct) (auto intro: first_world_inv system_step_inv [OF assms(1,2)])

end
