(* ===== verification/System_Safety.thy ===== *)
theory System_Safety
  imports System
begin

text \<open>
  What every reachable world satisfies, a concrete run of the system (a manifest that is
  finalized, relayed, delivered and delivered again), and what two requests that overlap do.
\<close>

section \<open>Safety of the whole system\<close>

lemma announced_rows:
  assumes "shipment_side db drawn" "not_draft (md_store db) i"
  shows "\<exists>!r. r \<in> set (md_outbox db) \<and> announces_shipment r i"
  using assms unfolding shipment_side_def by blast


lemma cases_of_messages_distinct:
  assumes pairs: "list_all2 (case_of_message rows) store keys" and keys: "distinct keys"
    and one: "\<And>r r' i. r \<in> set rows \<Longrightarrow> r' \<in> set rows \<Longrightarrow> announces_shipment r i \<Longrightarrow> announces_shipment r' i \<Longrightarrow> r = r'"
  shows "distinct (map (kr_shipment_id \<circ> snd) store)"
proof (unfold distinct_conv_nth, intro allI impI)
  have len: "length store = length keys" using pairs by (rule list_all2_lengthD)
  fix a b
  assume ab: "a < length (map (kr_shipment_id \<circ> snd) store)" "b < length (map (kr_shipment_id \<circ> snd) store)" "a \<noteq> b"
  have at: "\<exists>r \<in> set rows. \<exists>i. ob_message_id r = fst (keys ! n) \<and> announces_shipment r i
      \<and> kr_shipment_id (snd (store ! n)) = str_shipment_id i \<and> snd (keys ! n) = ''OpenClearanceCaseMessageHandler''"
    if "n < length store" for n
    using list_all2_nthD [OF pairs that] by (auto simp: case_of_message_def)
  obtain r i where r: "r \<in> set rows" "ob_message_id r = fst (keys ! a)" "announces_shipment r i"
      "kr_shipment_id (snd (store ! a)) = str_shipment_id i" "snd (keys ! a) = ''OpenClearanceCaseMessageHandler''"
    using at [of a] ab(1) by auto
  obtain r' j where r': "r' \<in> set rows" "ob_message_id r' = fst (keys ! b)" "announces_shipment r' j"
      "kr_shipment_id (snd (store ! b)) = str_shipment_id j" "snd (keys ! b) = ''OpenClearanceCaseMessageHandler''"
    using at [of b] ab(2) by auto
  have "keys ! a \<noteq> keys ! b" using keys ab len by (simp add: nth_eq_iff_index_eq)
  moreover have "keys ! a = keys ! b" if "str_shipment_id i = str_shipment_id j"
  proof -
    have "i = j" by (rule str_shipment_id_inj [OF that])
    then have "r = r'" using one [OF r(1) r'(1) r(3)] r'(3) by simp
    then show ?thesis using r(2,5) r'(2,5) by (simp add: prod_eq_iff)
  qed
  ultimately show "map (kr_shipment_id \<circ> snd) store ! a \<noteq> map (kr_shipment_id \<circ> snd) store ! b"
    using ab r(4) r'(4) by auto
qed


section \<open>A run of the system\<close>

text \<open>
  An encoding of the three texts of an announcement, in the place of JSON: each character
  behind a mark, each text with an end; another body is encoded as nothing.
\<close>

definition put_text :: "string \<Rightarrow> 8 word list" where
  "put_text s = concat (map (\<lambda>c. [1, word_of_nat (of_char c)]) s) @ [0]"

fun take_text :: "8 word list \<Rightarrow> string \<times> 8 word list" where
  "take_text (m # b # bs) =
     (if m = 0 then ([], b # bs) else (let (s, rest) = take_text bs in (char_of (unat b) # s, rest)))"
| "take_text bs = ([], [])"

definition texts_dumps :: "pyval dict \<Rightarrow> exc + 8 word list" where
  "texts_dumps body =
     (case map snd body of
        [PStr a, PStr b, PStr c] \<Rightarrow> Inr (put_text a @ put_text b @ put_text c)
      | _ \<Rightarrow> Inr [])"

definition texts_loads :: "8 word list \<Rightarrow> json_error + pyval" where
  "texts_loads bytes =
     (let (a, r) = take_text bytes; (b, r') = take_text r; (c, r'') = take_text r'
      in Inr (PDict [(PStr ''shipment_id'', PStr a), (PStr ''waybill_number'', PStr b),
                     (PStr ''commodity_code'', PStr c)]))"

lemma texts_dumps_total: "\<exists>bytes. texts_dumps body = Inr bytes"
  by (simp add: texts_dumps_def split: list.split pyval.split)

lemma take_put_text: "take_text (put_text s @ rest) = (s, rest)"
proof (induction s)
  case Nil
  then show ?case by (cases rest) (simp_all add: put_text_def)
next
  case (Cons c s)
  have "char_of (unat (word_of_nat (of_char c) :: 8 word)) = c" by (simp add: unat_of_nat)
  then show ?case using Cons by (simp add: put_text_def)
qed

lemma texts_transport: "json_transports texts_dumps texts_loads (to_body (finalized_event s m))"
  using take_put_text [of _ "[]"]
  by (simp add: json_transports_def texts_dumps_def texts_loads_def to_body_def finalized_event_def take_put_text)
    (simp add: put_text_def)

text \<open>
  A shipment is drafted and finalized, its announcement is relayed, delivered, and delivered
  again. The states that this goes through:
\<close>

definition drafted_db :: shipment_db where
  "drafted_db =
     \<lparr>md_store = [(ShipmentId 7, draft_row\<lparr>sr_waybill_number := ''MUST-0000002''\<rparr>)], md_outbox = [], md_inbox = []\<rparr>"

definition announcing_row :: outbox_message where
  "announcing_row =
     \<lparr>ob_message_id = 8, ob_message_type = ''ShipmentManifestFinalized'', ob_exchange = ''trade-logistics.topic'',
      ob_routing_key = ''trade-logistics.shipment.manifest-finalized'',
      ob_body = [(''shipment_id'', PStr ''00000000-0000-0000-0000-000000000007''),
                 (''waybill_number'', PStr ''MUST-0000002''), (''commodity_code'', PStr ''8471'')],
      ob_headers = [], ob_properties = [], ob_status = PENDING, ob_sent_at = None, ob_created_at = 0\<rparr>"

definition finalized_db :: shipment_db where
  "finalized_db =
     \<lparr>md_store = [(ShipmentId 7, draft_row\<lparr>sr_waybill_number := ''MUST-0000002'', sr_total_weight_kg := Some (Fin 10),
         sr_total_volume_cbm := Some (Fin 1), sr_commodity_code := Some ''8471'', sr_status := ''ReadyForManifest''\<rparr>)],
      md_outbox = [announcing_row], md_inbox = []\<rparr>"

definition announcement :: amqp_message where
  "announcement = row_message texts_dumps announcing_row"

definition announced_broker :: "nat list \<Rightarrow> scripted" where
  "announced_broker tags =
     ([DeclareExchange ''trade-logistics.topic'' TOPIC,
       Publish ''trade-logistics.topic'' ''trade-logistics.shipment.manifest-finalized'' announcement] @ map Ack tags, [])"

definition opened_db :: customs_db where
  "opened_db =
     \<lparr>md_store = [(CaseId 50, opened_row 50 ''00000000-0000-0000-0000-000000000007'')], md_outbox = [],
      md_inbox = [\<lparr>ib_message_id = 8, ib_message_type = ''ShipmentManifestFinalized'',
                   ib_handler_name = ''OpenClearanceCaseMessageHandler''\<rparr>]\<rparr>"

definition worker_delivery ::
  "nat \<Rightarrow> (nat \<Rightarrow> uuid) \<Rightarrow> scripted \<Rightarrow> customs_db \<Rightarrow>
   unit res \<times> (scripted broker_connection \<times> customs_db) \<times> nat \<times> (uuid \<times> string) list" where
  "worker_delivery tag draw b db =
     handle_delivery obedient (\<lambda>_. ([], [], [])) texts_loads (customs_run cases_persist draw) (\<lambda>_ _. None)
       build_message_handlers 3 0 \<lparr>dl_tag = tag, dl_message = announcement\<rparr>
       ((new_connection default_topology b)\<lparr>bc_open := True\<rparr>, db)"

lemma sample_drafted:
  "create_draft_handle postgres_next_waybill (\<lambda>s. on_store (postgres_persist (\<lambda>x. x) (\<lambda>_. True) s)) 7
     \<lparr>cd_origin_port_code = ''ESVLC'', cd_destination_port_code = ''USNYC''\<rparr> 1 empty_shipment_db =
   (Inr (\<lparr>sh_id = ShipmentId 7, sh_waybill = WaybillNumber ''MUST-0000002'',
          sh_route = \<lparr>origin_port_code = ''ESVLC'', destination_port_code = ''USNYC'', transit_legs = []\<rparr>,
          sh_status = DRAFT, sh_manifest = None, sh_exception_reason = None\<rparr>, drafted_db), 2)"
  by code_simp

lemma sample_finalized:
  "snd (finalize_manifest_request (\<lambda>x. x) (\<lambda>_. True) (lifespan_destinations default_settings) 8 0
     (\<lambda>_. None) (str_shipment_id (ShipmentId 7)) sample_finalize drafted_db) = finalized_db"
  by code_simp

lemma sample_relayed:
  "run_dispatch (\<lambda>b. (None, b)) obedient texts_dumps (\<lambda>_. None) 1 {} default_topology 5 ([announcing_row], ([], []))
     = (Inr 1, [mark_as_sent 1 announcing_row], announced_broker [])"
  by code_simp

lemma sample_delivered:
  "snd (fst (snd (worker_delivery 1 (\<lambda>t. of_nat (t + 50)) (announced_broker []) empty_customs_db))) = opened_db"
  "bc_broker (fst (fst (snd (worker_delivery 1 (\<lambda>t. of_nat (t + 50)) (announced_broker []) empty_customs_db))))
     = announced_broker [1]"
  "fst (snd (snd (worker_delivery 1 (\<lambda>t. of_nat (t + 50)) (announced_broker []) empty_customs_db))) = 1"
  by code_simp+

lemma sample_delivered_again:
  "snd (fst (snd (worker_delivery 2 (\<lambda>t. of_nat (t + 90)) (announced_broker [1]) opened_db))) = opened_db"
  "bc_broker (fst (fst (snd (worker_delivery 2 (\<lambda>t. of_nat (t + 90)) (announced_broker [1]) opened_db))))
     = announced_broker [1, 2]"
  "fst (snd (snd (worker_delivery 2 (\<lambda>t. of_nat (t + 90)) (announced_broker [1]) opened_db))) = 1"
  by code_simp+

definition run_world :: "shipment_db \<Rightarrow> int \<Rightarrow> customs_db \<Rightarrow> scripted \<Rightarrow> uuid set \<Rightarrow> scripted world" where
  "run_world sdb v cdb b drawn =
     \<lparr>wo_shipments = sdb, wo_serial = v, wo_customs = cdb, wo_broker = b, wo_drawn = drawn\<rparr>"

abbreviation sample_reachable :: "scripted world \<Rightarrow> bool" where
  "sample_reachable \<equiv> system_reachable default_settings obedient fst texts_dumps texts_loads"

lemma sample_delivery_step:
  assumes r: "sample_reachable (run_world sdb v cdb b drawn)"
    and x: "snd (fst (snd (worker_delivery tag draw b cdb))) = cdb'"
      "bc_broker (fst (fst (snd (worker_delivery tag draw b cdb)))) = b'"
      "fst (snd (snd (worker_delivery tag draw b cdb))) = 1"
    and m: "Publish ''trade-logistics.topic'' ''trade-logistics.shipment.manifest-finalized'' announcement \<in> set (fst b)"
    and new: "draw 0 \<notin> drawn"
  shows "sample_reachable (run_world sdb v cdb' b' (drawn \<union> {draw 0}))"
proof -
  let ?c = "(new_connection default_topology b)\<lparr>bc_open := True\<rparr>"
  let ?b = "\<lparr>mb_name = ''customs_clearance'', mb_schema = customs_schema default_settings,
    mb_handlers = build_message_handlers\<rparr>"
  have bind: "get_module (build_module_registry default_settings) ''customs_clearance'' = Inr ?b"
    by (simp add: build_module_registry_get)
  obtain res c' ks where h: "handle_delivery obedient (\<lambda>_. ([], [], [])) texts_loads (customs_run cases_persist draw)
      (\<lambda>_ _. None) (mb_handlers ?b) 3 0 \<lparr>dl_tag = tag, dl_message = announcement\<rparr> (?c, wo_customs (run_world sdb v cdb b drawn))
      = (res, (c', cdb'), 1, ks)" and b': "bc_broker c' = b'"
    using x by (cases "worker_delivery tag draw b cdb") (auto simp: worker_delivery_def run_world_def)
  have "system_step default_settings obedient fst texts_dumps texts_loads (run_world sdb v cdb b drawn)
      ((run_world sdb v cdb b drawn)\<lparr>wo_customs := cdb', wo_broker := bc_broker c',
         wo_drawn := wo_drawn (run_world sdb v cdb b drawn) \<union> draw ` {0..<1}\<rparr>)"
    by (rule system_step.deliver [OF _ _ _ _ _ bind h]) (use m new in \<open>simp_all add: run_world_def same_delivery_def new_connection_def\<close>)
  then show ?thesis
    using system_reachable.stepped [OF r] by (simp add: run_world_def b')
qed

lemma finalized_world_reachable:
  "sample_reachable (run_world finalized_db 2 empty_customs_db ([], []) {8, 7})"
proof -
  have w0: "sample_reachable (run_world empty_shipment_db 1 empty_customs_db ([], []) {})"
    using system_reachable.installed [where serial = 1 and accepted = fst and b = "([], []) :: scripted"]
    by (simp add: first_world_def run_world_def)
  obtain resps where c: "create_draft_requests (\<lambda>x. x) (\<lambda>_. True) (\<lambda>_. None)
      [(7, \<lparr>cd_origin_port_code = ''ESVLC'', cd_destination_port_code = ''USNYC''\<rparr>)] 1 empty_shipment_db = (resps, drafted_db, 2)"
    by (simp add: create_draft_requests_def create_draft_shipment_def request_scope_def sample_drafted)
  have "system_step default_settings obedient fst texts_dumps texts_loads
      (run_world empty_shipment_db 1 empty_customs_db ([], []) {}) (run_world drafted_db 2 empty_customs_db ([], []) {7})"
    using system_step.create [where w = "run_world empty_shipment_db 1 empty_customs_db ([], []) {}" and u = 7] c
    by (fastforce simp: run_world_def)
  note w1 = system_reachable.stepped [OF w0 this]
  obtain resp where f: "finalize_manifest_request (\<lambda>x. x) (\<lambda>_. True) (lifespan_destinations default_settings) 8 0
      (\<lambda>_. None) (str_shipment_id (ShipmentId 7)) sample_finalize drafted_db = (resp, finalized_db)"
    using sample_finalized by (metis prod.collapse)
  have "system_step default_settings obedient fst texts_dumps texts_loads
      (run_world drafted_db 2 empty_customs_db ([], []) {7}) (run_world finalized_db 2 empty_customs_db ([], []) {8, 7})"
    using system_step.finalize [where w = "run_world drafted_db 2 empty_customs_db ([], []) {7}" and u = 8] f
    by (fastforce simp: run_world_def)
  from system_reachable.stepped [OF w1 this] show ?thesis .
qed

lemma run_world_reachable:
  "sample_reachable (run_world (finalized_db\<lparr>md_outbox := [mark_as_sent 1 announcing_row]\<rparr>) 2 opened_db
     (announced_broker [1, 2]) {8, 7, 50, 90})"
proof -
  let ?w3 = "run_world (finalized_db\<lparr>md_outbox := [mark_as_sent 1 announcing_row]\<rparr>) 2 empty_customs_db
      (announced_broker []) {8, 7}"
  have rel: "run_dispatch (\<lambda>b. (None, b)) obedient texts_dumps (\<lambda>_. None) 1 {} default_topology 5
      (md_outbox (wo_shipments (run_world finalized_db 2 empty_customs_db ([], []) {8, 7})),
       wo_broker (run_world finalized_db 2 empty_customs_db ([], []) {8, 7}))
      = (Inr 1, [mark_as_sent 1 announcing_row], announced_broker [])"
    using sample_relayed by (simp add: run_world_def finalized_db_def)
  have "system_step default_settings obedient fst texts_dumps texts_loads
      (run_world finalized_db 2 empty_customs_db ([], []) {8, 7}) ?w3"
    using system_step.relay_shipment [OF _ rel, of fst] by (simp add: run_world_def)
  note w3 = system_reachable.stepped [OF finalized_world_reachable this]
  show ?thesis
    using sample_delivery_step [OF sample_delivery_step [OF w3 sample_delivered] sample_delivered_again]
    by (simp add: announced_broker_def insert_commute)
qed



section \<open>Two requests at once\<close>

text \<open>
  \<open>find_by_id\<close> takes no lock and the row has no version, so a request may write after another
  one has committed and still work on the row it read before: \<open>read\<close> is what it read.
\<close>

definition late_finalize_request ::
  "(pyfloat \<Rightarrow> pyfloat) \<Rightarrow> (pyfloat \<Rightarrow> bool) \<Rightarrow> destination_registry \<Rightarrow> uuid \<Rightarrow> int \<Rightarrow>
   (shipment_db \<Rightarrow> exc option) \<Rightarrow> shipment_table \<Rightarrow> string \<Rightarrow> finalize_manifest_command \<Rightarrow> shipment_db \<Rightarrow>
   finalize_manifest_response res \<times> shipment_db" where
  "late_finalize_request numeric fits dests fresh now commit read =
     finalize_manifest_endpoint (\<lambda>i _. postgres_find_by_id i read)
       (\<lambda>s. on_store (postgres_persist numeric fits s)) (schedule dests fresh now) commit"

lemma finalize_schedules:
  assumes "finalize_manifest_endpoint (\<lambda>i db. postgres_find_by_id i (read db)) (\<lambda>s. on_store (postgres_persist numeric fits s))
      (schedule dests u now) commit sid c db = (Inr resp, db')"
  obtains i s s' r where "mk_shipment_id (PStr sid) = Inr i" "postgres_find_by_id i (read db) = Inr (Some s)"
    "sh_status s = DRAFT" "md_outbox db' = md_outbox db @ [r]" "announces_shipment r (sh_id s)"
    "ob_message_id r \<notin> set (map ob_message_id (md_outbox db))"
    "sh_id s' = sh_id s" "sh_status s' = READY_FOR_MANIFEST"
    "md_store db' = AList.update (sh_id s') (shipment_column numeric (shipment_to_row s')) (md_store db)"
proof -
  obtain i s m s' ev db1 where i: "mk_shipment_id (PStr sid) = Inr i"
    and f: "postgres_find_by_id i (read db) = Inr (Some s)"
    and m: "mk_cargo_manifest (PFloat (fm_total_weight_kg c)) (PFloat (fm_total_volume_cbm c))
         (PStr (fm_commodity_code c)) = Inr m"
    and a: "finalize_manifest m s = Inr (s', ev)" and p: "on_store (postgres_persist numeric fits s') db = Inr db1"
    and put: "schedule dests u now ev db1 = Inr db'"
    using assms
    by (auto simp: finalize_manifest_endpoint_def request_scope_Inr
        finalize_manifest_handle_def bindE_Inr_iff split: option.splits prod.splits)
  have ev: "ev = finalized_event s m" and d: "sh_status s = DRAFT"
    and s': "sh_id s' = sh_id s" "sh_status s' = READY_FOR_MANIFEST"
    using a by (auto simp: finalize_manifest_Inr)
  have db1: "md_outbox db1 = md_outbox db"
    "md_store db1 = AList.update (sh_id s') (shipment_column numeric (shipment_to_row s')) (md_store db)"
    using p by (auto simp: on_store_Inr dest: postgres_persist_Inr)
  obtain r where out: "md_outbox db' = md_outbox db1 @ [r]" and ann: "announces dests ev r" "md_store db' = md_store db1"
    and id: "ob_message_id r \<notin> set (map ob_message_id (md_outbox db1))"
    using schedule_Inr [OF put] by auto
  have "announces_shipment r (sh_id s)"
    using announces_shipment_of [OF ann(1) [unfolded ev] mk_cargo_manifest_wf [OF m]] .
  then show thesis
    using that [OF i f d _ _ _ s'] out ann(2) id by (simp add: db1)
qed

text \<open>
  C33. Two requests that finalize one shipment, the later of which read the draft before the
  other one committed, may both succeed: the outbox then holds two announcements of one
  shipment under two identifiers. Run one after the other, the second request is refused.
\<close>

theorem racing_finalizations:
  assumes "finalize_manifest_request numeric fits dests u now commit sid c db = (Inr resp, db1)"
    and "late_finalize_request numeric fits dests u' now' commit (md_store db) sid c' db1 = (Inr resp', db2)"
  shows "(\<exists>i r r'. md_outbox db2 = md_outbox db @ [r, r'] \<and> ob_message_id r \<noteq> ob_message_id r'
        \<and> announces_shipment r i \<and> announces_shipment r' i)
    \<and> (keyed_shipments (md_store db) \<longrightarrow>
        (\<exists>e. finalize_manifest_request numeric fits dests u' now' commit sid c' db1 = (Inl e, db1)))"
proof -
  obtain i s s' r where first: "mk_shipment_id (PStr sid) = Inr i" "postgres_find_by_id i (md_store db) = Inr (Some s)"
    "md_outbox db1 = md_outbox db @ [r]" "announces_shipment r (sh_id s)"
    "sh_id s' = sh_id s" "sh_status s' = READY_FOR_MANIFEST"
    "md_store db1 = AList.update (sh_id s') (shipment_column numeric (shipment_to_row s')) (md_store db)"
    using finalize_schedules [OF assms(1) [unfolded finalize_manifest_request_def]] by metis
  obtain j t r' where second: "mk_shipment_id (PStr sid) = Inr j" "postgres_find_by_id j (md_store db) = Inr (Some t)"
    "md_outbox db2 = md_outbox db1 @ [r']" "announces_shipment r' (sh_id t)"
    "ob_message_id r' \<notin> set (map ob_message_id (md_outbox db1))"
    using finalize_schedules [OF assms(2) [unfolded late_finalize_request_def]] by metis
  have both: "\<exists>i r r'. md_outbox db2 = md_outbox db @ [r, r'] \<and> ob_message_id r \<noteq> ob_message_id r'
        \<and> announces_shipment r i \<and> announces_shipment r' i"
    using first second by (intro exI [of _ "sh_id s"] exI [of _ r] exI [of _ r']) auto
  have refused: "\<exists>e. x = Inl e \<and> db3 = db1" if keyed: "keyed_shipments (md_store db)"
    and again: "finalize_manifest_request numeric fits dests u' now' commit sid c' db1 = (x, db3)" for x db3
  proof (cases x)
    case (Inl e)
    then show ?thesis
      using finalize_endpoint_failure [OF again [unfolded finalize_manifest_request_def Inl]] by simp
  next
    case (Inr resp3)
    obtain k v where third: "mk_shipment_id (PStr sid) = Inr k" "postgres_find_by_id k (md_store db1) = Inr (Some v)"
      "sh_status v = DRAFT"
      using finalize_schedules [OF again [unfolded finalize_manifest_request_def Inr]] by metis
    have keyed1: "keyed_shipments (md_store db1)" unfolding first(7) by (rule keyed_update [OF keyed])
    obtain row where "map_of (md_store db1) i = Some row" "sr_status row = ''Draft''"
      using found_shipment [OF third(2) keyed1] first(1) third(1,3) by (metis Inr_inject draft_status)
    moreover have "sh_id s = i" using found_shipment [OF first(2) keyed] by metis
    ultimately show ?thesis
      using first(5,6) stored_shipment(1) [of numeric s'] by (simp add: first(7) update_conv')
  qed
  show ?thesis using both refused by (metis prod.exhaust)
qed

theorem racing_finalizations_witness:
  "\<exists>(db2 :: shipment_db) r r'. md_outbox db2 = [r, r'] \<and> ob_message_id r \<noteq> ob_message_id r'
     \<and> (\<exists>i. announces_shipment r i \<and> announces_shipment r' i)"
proof -
  let ?first = "finalize_manifest_request (\<lambda>x. x) (\<lambda>_. True) (lifespan_destinations default_settings) 8 0 (\<lambda>_. None)
     (str_shipment_id (ShipmentId 7)) sample_finalize drafted_db"
  let ?late = "late_finalize_request (\<lambda>x. x) (\<lambda>_. True) (lifespan_destinations default_settings) 9 0 (\<lambda>_. None)
     (md_store drafted_db) (str_shipment_id (ShipmentId 7)) sample_finalize finalized_db"
  have "isl (fst ?first) = False" "isl (fst ?late) = False" by code_simp+
  then obtain resp resp' db2 where r: "?first = (Inr resp, finalized_db)" "?late = (Inr resp', db2)"
    using sample_finalized by (cases ?first; cases "fst ?first"; cases ?late; cases "fst ?late") auto
  obtain i a b where "md_outbox db2 = [a, b]" "ob_message_id a \<noteq> ob_message_id b"
    "announces_shipment a i" "announces_shipment b i"
    using conjunct1 [OF racing_finalizations [OF r]] by (auto simp: drafted_db_def)
  then show ?thesis by (intro exI [of _ db2] exI [of _ a] exI [of _ b] conjI exI [of _ i])
qed

end
