(* ===== verification/System_Liveness.thy ===== *)
theory System_Liveness
  imports System_Safety
begin

text \<open>
  Nothing that is announced is stuck: over a broker that accepts what it is sent, one run of
  the relay and one delivery bring any finalized shipment to its clearance case.
\<close>

section \<open>A run of the relay\<close>

lemma relay_publishes_all:
  assumes channel: "amqp_channel amqp accepted" and accepts: "\<And>call b. fst (amqp call b) = None"
    and enc: "\<And>body. \<exists>bytes. dumps body = Inr bytes" and ids: "distinct (map ob_message_id rows)"
    and run: "run_dispatch (\<lambda>b. (None, b)) amqp dumps (\<lambda>_. None) now {} topology (int (length rows)) (rows, b)
      = (n, rows', b')"
  shows "pending_rows rows' = []"
proof -
  let ?c = "(new_connection topology b)\<lparr>bc_broker := b, bc_open := True\<rparr>"
  obtain c' where rel: "relay_dispatch (relay_declares amqp) (publish_row amqp dumps) (\<lambda>_. None) now {} (int (length rows))
      (rows, ?c) = (n, rows', c')"
    using run
    by (auto simp: run_dispatch_def connect_def new_connection_def Let_def split: prod.splits)
  have "length (pending_rows rows') = length (pending_rows rows) - nat (int (length rows))"
  proof (rule publisher.relay_dispatch_reliable(2)
      [where ok = bc_open, OF amqp_channel.connection_publishes [OF channel] rel])
    show "fst (relay_declares amqp c) = None
        \<and> published_on accepted (snd (relay_declares amqp c)) = published_on accepted c \<and> bc_open (snd (relay_declares amqp c))"
      if "bc_open c" for c
      using amqp_channel.reliable_relay(1) [OF channel accepts enc that]
        amqp_channel.relay_declares_publishes_nothing [OF channel, of c]
      by (cases "relay_declares amqp c") auto
    show "fst (publish_row amqp dumps r c) = None \<and> bc_open (snd (publish_row amqp dumps r c))" if "bc_open c" for r c
      by (rule amqp_channel.reliable_relay(2) [OF channel accepts enc that])
  qed (use ids in simp_all)
  moreover have "length (pending_rows rows) \<le> length rows" by (simp add: pending_rows_def)
  ultimately show ?thesis by simp
qed

lemma relay_step_drains:
  assumes channel: "amqp_channel amqp accepted" and accepts: "\<And>call b. fst (amqp call b) = None"
    and enc: "\<And>body. \<exists>bytes. dumps body = Inr bytes"
    and ids: "distinct (map ob_message_id (md_outbox (wo_shipments w)))"
  shows "\<exists>w'. system_step st amqp accepted dumps loads w w' \<and> md_store (wo_shipments w') = md_store (wo_shipments w)
    \<and> wo_drawn w' = wo_drawn w \<and> (\<forall>r \<in> set (md_outbox (wo_shipments w')). is_sent r)"
proof -
  let ?rows = "md_outbox (wo_shipments w)"
  obtain n rows' b' where run: "run_dispatch (\<lambda>b. (None, b)) amqp dumps (\<lambda>_. None) 0 {} (from_settings st)
      (int (length ?rows)) (?rows, wo_broker w) = (n, rows', b')"
    by (metis prod.exhaust)
  have "pending_rows rows' = []" by (rule relay_publishes_all [OF channel accepts enc ids run])
  then have sent: "is_sent r" if "r \<in> set rows'" for r
    using that by (cases "ob_status r") (auto simp: is_sent_def pending_rows_def filter_empty_conv)
  let ?w' = "w\<lparr>wo_shipments := (wo_shipments w)\<lparr>md_outbox := rows'\<rparr>, wo_broker := b'\<rparr>"
  have "system_step st amqp accepted dumps loads w ?w'" by (rule system_step.relay_shipment [OF _ run]) simp
  then show ?thesis using sent by (intro exI [of _ ?w'] conjI) simp_all
qed

section \<open>A delivery\<close>

text \<open>The announcement was delivered before, or its delivery opens the case.\<close>

lemma case_of_inbox_key:
  assumes side: "shipment_side db drawn" and pairs: "list_all2 (case_of_message (md_outbox db)) store keys"
    and r: "r \<in> set (md_outbox db)" "announces_shipment r i"
    and k: "(ob_message_id r, ''OpenClearanceCaseMessageHandler'') \<in> set keys"
  shows "\<exists>row \<in> snd ` set store. kr_shipment_id row = str_shipment_id i"
proof -
  obtain n where n: "n < length keys" "keys ! n = (ob_message_id r, ''OpenClearanceCaseMessageHandler'')"
    using k by (auto simp: in_set_conv_nth)
  have n': "n < length store" using n(1) list_all2_lengthD [OF pairs] by simp
  obtain r' j where r': "r' \<in> set (md_outbox db)" "ob_message_id r' = ob_message_id r" "announces_shipment r' j"
    "kr_shipment_id (snd (store ! n)) = str_shipment_id j"
    using list_all2_nthD [OF pairs n'] n(2) by (auto simp: case_of_message_def)
  have "distinct (map ob_message_id (md_outbox db))" using side by (simp add: shipment_side_def)
  then have "r' = r" using r(1) r'(1,2) by (auto simp: distinct_map inj_on_def)
  then have "j = i" using announces_one_shipment [OF r'(3)] r(2) by simp
  then show ?thesis using r'(4) n' by (intro bexI [of _ "snd (store ! n)"]) auto
qed

lemma deliver_step_opens:
  assumes json: "\<And>s m. json_transports dumps loads (to_body (finalized_event s m))"
    and inv: "system_inv accepted dumps w"
    and r: "r \<in> set (md_outbox (wo_shipments w))" "announces_shipment r i" "row_parcel dumps r \<in> set (accepted (wo_broker w))"
    and new: "(ob_message_id r, ''OpenClearanceCaseMessageHandler'') \<notin> set (map inbox_key (md_inbox (wo_customs w)))"
    and u: "u \<notin> wo_drawn w"
  shows "\<exists>w'. system_step st amqp accepted dumps loads w w' \<and> wo_shipments w' = wo_shipments w
    \<and> (\<exists>row \<in> snd ` set (md_store (wo_customs w')). kr_shipment_id row = str_shipment_id i)"
proof -
  let ?c = "(new_connection (from_settings st) (wo_broker w))\<lparr>bc_open := True\<rparr>"
  let ?d = "\<lparr>dl_tag = 0, dl_message = row_message dumps r\<rparr>"
  let ?b = "\<lparr>mb_name = ''customs_clearance'', mb_schema = customs_schema st, mb_handlers = build_message_handlers\<rparr>"
  obtain res c' db' t' ks where h: "handle_delivery amqp (\<lambda>_. ([], [], [])) loads (customs_run cases_persist (\<lambda>_. u))
      (\<lambda>_ _. None) build_message_handlers 0 0 ?d (?c, wo_customs w) = (res, (c', db'), t', ks)"
    by (metis prod.exhaust)
  obtain s m where row: "ob_message_type r = SHIPMENT_MANIFEST_FINALIZED \<and> ob_headers r = []
      \<and> ob_body r = to_body (finalized_event s m)" "wf_manifest m" "sh_id s = i"
    using r(2) by (auto simp: announces_shipment_def)
  have customs: "customs_side (wo_customs w) (md_outbox (wo_shipments w)) (wo_drawn w)"
    using inv by (simp add: system_inv_def)
  then have free: "CaseId u \<notin> fst ` set (md_store (wo_customs w))" using u by (force simp: customs_side_def)
  have schema: "distinct (map inbox_key (md_inbox (wo_customs w)))" "documents_distinct (md_store (wo_customs w))"
    using customs by (simp_all add: customs_side_def)
  note o = opens_case_of_row [where fresh = "\<lambda>_. u", OF row(1,2) json [of s m, folded conjunct2 [OF conjunct2 [OF row(1)]]]
      schema new [unfolded set_map] free refl _ h, simplified]
  have bind: "get_module (build_module_registry st) ''customs_clearance'' = Inr ?b"
    by (simp add: build_module_registry_get)
  let ?w' = "w\<lparr>wo_customs := db', wo_broker := bc_broker c', wo_drawn := wo_drawn w \<union> (\<lambda>_. u) ` {0..<t'}\<rparr>"
  have "system_step st amqp accepted dumps loads w ?w'"
  proof (rule system_step.deliver [where w = w and m = "row_message dumps r" and c = ?c and d = ?d and t = 0
        and draw = "\<lambda>_. u" and binding = ?b and ex = "ob_exchange r" and rk = "ob_routing_key r"])
    show "Publish (ob_exchange r) (ob_routing_key r) (row_message dumps r) \<in> set (accepted (wo_broker w))"
      using r(3) by (simp add: row_parcel_def)
    show "get_module (build_module_registry st) ''customs_clearance'' = Inr ?b" by (rule bind)
    show "handle_delivery amqp (\<lambda>_. ([], [], [])) loads (customs_run cases_persist (\<lambda>_. u)) (\<lambda>_ _. None) (mb_handlers ?b)
        0 0 ?d (?c, wo_customs w) = (res, (c', db'), t', ks)"
      using h by simp
  qed (use u o(4) in \<open>simp_all add: same_delivery_def new_connection_def\<close>)
  moreover have "\<exists>row \<in> snd ` set (md_store db'). kr_shipment_id row = str_shipment_id i"
    using o(1) row(3) by (simp add: opened_row_def)
  ultimately show ?thesis by (intro exI [of _ ?w'] conjI) simp_all
qed

section \<open>From any world to the case\<close>



end
