(* ===== verification/Sessions.thy ===== *)
theory Sessions
  imports Composition Declared_Tables
begin

text \<open>
  Engines, session factories and sessions: the process-wide engine of the HTTP application
  (\<open>modules/shared/database/session.py\<close>), the engine of a worker that is bound to the schema of
  a module (\<open>modules/shared/message_bus/session.py\<close>), and which table an unqualified mapping
  reads and writes in either. What a transaction does is \<open>request_scope\<close>.
\<close>

section \<open>The process\<close>

text \<open>
  \<open>en_pool\<close> is the size and overflow of the pool, \<open>None\<close> where the code leaves the library's
  default; \<open>en_translate\<close> is the \<open>schema_translate_map\<close> of the execution options. Connections
  are tested before use by every engine. \<open>en_id\<close> tells engines apart.
\<close>

type_synonym translate_map = "(string option \<times> string) list"

record engine =
  en_id :: nat
  en_url :: string
  en_echo :: bool
  en_pool :: "(int \<times> int) option"
  en_translate :: translate_map

record session_factory =
  sf_engine :: engine
  sf_expire_on_commit :: bool
  sf_autoflush :: bool

text \<open>
  The module-level variables: the cached settings, the engine and the factory; with the number
  of engines made and the list of those that were disposed.
\<close>

record db_process =
  pr_settings :: "settings option"
  pr_engine :: "engine option"
  pr_factory :: "session_factory option"
  pr_opened :: nat
  pr_disposed :: "nat list"

definition new_process :: db_process where
  "new_process = \<lparr>pr_settings = None, pr_engine = None, pr_factory = None, pr_opened = 0, pr_disposed = []\<rparr>"

text \<open>The settings are read once; an environment that they reject raises, and is read again.\<close>

definition get_settings :: "settings res \<Rightarrow> db_process \<Rightarrow> settings res \<times> db_process" where
  "get_settings reading p =
     (case pr_settings p of
        Some s \<Rightarrow> (Inr s, p)
      | None \<Rightarrow> (case reading of Inl e \<Rightarrow> (Inl e, p) | Inr s \<Rightarrow> (Inr s, p\<lparr>pr_settings := Some s\<rparr>)))"

text \<open>\<open>rejects\<close>: what the library's constructor raises for the settings, a malformed URL for instance.\<close>

definition get_engine ::
  "settings res \<Rightarrow> (settings \<Rightarrow> exc option) \<Rightarrow> db_process \<Rightarrow> engine res \<times> db_process" where
  "get_engine reading rejects p =
     (case pr_engine p of
        Some e \<Rightarrow> (Inr e, p)
      | None \<Rightarrow>
          (case get_settings reading p of
             (Inl x, p1) \<Rightarrow> (Inl x, p1)
           | (Inr s, p1) \<Rightarrow>
               (case rejects s of
                  Some x \<Rightarrow> (Inl x, p1)
                | None \<Rightarrow>
                    (let e = \<lparr>en_id = pr_opened p1, en_url = database_url s, en_echo = database_echo s,
                              en_pool = Some (database_pool_size s, database_max_overflow s), en_translate = []\<rparr>
                     in (Inr e, p1\<lparr>pr_engine := Some e, pr_opened := Suc (pr_opened p1)\<rparr>)))))"

definition get_session_factory ::
  "settings res \<Rightarrow> (settings \<Rightarrow> exc option) \<Rightarrow> db_process \<Rightarrow> session_factory res \<times> db_process" where
  "get_session_factory reading rejects p =
     (case pr_factory p of
        Some f \<Rightarrow> (Inr f, p)
      | None \<Rightarrow>
          (case get_engine reading rejects p of
             (Inl x, p1) \<Rightarrow> (Inl x, p1)
           | (Inr e, p1) \<Rightarrow>
               (let f = \<lparr>sf_engine = e, sf_expire_on_commit = False, sf_autoflush = False\<rparr>
                in (Inr f, p1\<lparr>pr_factory := Some f\<rparr>))))"

text \<open>Disposing may raise, and then neither variable is reset.\<close>

definition dispose_engine :: "(engine \<Rightarrow> exc option) \<Rightarrow> db_process \<Rightarrow> unit res \<times> db_process" where
  "dispose_engine closing p =
     (case pr_engine p of
        Some e \<Rightarrow>
          (case closing e of
             Some x \<Rightarrow> (Inl x, p)
           | None \<Rightarrow> (Inr (), p\<lparr>pr_engine := None, pr_factory := None, pr_disposed := en_id e # pr_disposed p\<rparr>))
      | None \<Rightarrow> (Inr (), p\<lparr>pr_engine := None, pr_factory := None\<rparr>))"

datatype process_call =
    AskEngine "settings res" "settings \<Rightarrow> exc option"
  | AskFactory "settings res" "settings \<Rightarrow> exc option"
  | Shutdown "engine \<Rightarrow> exc option"

fun process_step :: "process_call \<Rightarrow> db_process \<Rightarrow> db_process" where
  "process_step (AskEngine reading rejects) p = snd (get_engine reading rejects p)"
| "process_step (AskFactory reading rejects) p = snd (get_session_factory reading rejects p)"
| "process_step (Shutdown closing) p = snd (dispose_engine closing p)"

definition process_run :: "process_call list \<Rightarrow> db_process \<Rightarrow> db_process" where
  "process_run = fold process_step"

section \<open>The invariant of the process\<close>

text \<open>
  The engine is made of the cached settings, the factory is bound to it, and it is the only
  engine that was opened and not disposed.
\<close>

definition engine_of_settings :: "settings \<Rightarrow> engine \<Rightarrow> bool" where
  "engine_of_settings s e \<longleftrightarrow>
     en_url e = database_url s \<and> en_echo e = database_echo s
     \<and> en_pool e = Some (database_pool_size s, database_max_overflow s) \<and> en_translate e = []"

definition live_engines :: "db_process \<Rightarrow> nat set" where
  "live_engines p = {..<pr_opened p} - set (pr_disposed p)"

definition process_inv :: "db_process \<Rightarrow> bool" where
  "process_inv p \<longleftrightarrow>
     set (pr_disposed p) \<subseteq> {..<pr_opened p}
     \<and> (case pr_engine p of
          None \<Rightarrow> pr_factory p = None \<and> live_engines p = {}
        | Some e \<Rightarrow> live_engines p = {en_id e} \<and> (\<exists>s. pr_settings p = Some s \<and> engine_of_settings s e)
            \<and> (case pr_factory p of None \<Rightarrow> True
               | Some f \<Rightarrow> sf_engine f = e \<and> \<not> sf_expire_on_commit f \<and> \<not> sf_autoflush f))"

lemma get_settings_inv: "process_inv p \<Longrightarrow> process_inv (snd (get_settings reading p))"
  by (auto simp: get_settings_def process_inv_def live_engines_def split: option.splits sum.splits)

lemma get_settings_Inr:
  "get_settings reading p = (Inr s, p') \<Longrightarrow>
   pr_settings p' = Some s \<and> pr_engine p' = pr_engine p \<and> pr_factory p' = pr_factory p \<and> pr_opened p' = pr_opened p
   \<and> pr_disposed p' = pr_disposed p"
  by (auto simp: get_settings_def split: option.splits sum.splits)

lemma get_settings_Inl: "get_settings reading p = (Inl x, p') \<Longrightarrow> p' = p"
  by (auto simp: get_settings_def split: option.splits sum.splits)

lemma opened_engine_live:
  "set ds \<subseteq> {..<n} \<Longrightarrow> {..<n} - set ds = {} \<Longrightarrow> {..<Suc n} - set ds = {n}"
  by (auto simp: lessThan_Suc)

lemma get_engine_inv:
  assumes "process_inv p" "get_engine reading rejects p = (r, p')"
  shows "process_inv p' \<and> (\<forall>e. r = Inr e \<longrightarrow> pr_engine p' = Some e)
    \<and> (pr_engine p = None \<longrightarrow> pr_factory p' = None)"
proof (cases "pr_engine p")
  case (Some e)
  then show ?thesis using assms by (auto simp: get_engine_def)
next
  case None
  obtain rs p1 where g: "get_settings reading p = (rs, p1)" by fastforce
  have inv1: "process_inv p1" using get_settings_inv [OF assms(1), of reading] g by simp
  show ?thesis
  proof (cases rs)
    case (Inl x)
    have "p1 = p" by (rule get_settings_Inl [OF g [unfolded Inl]])
    then have "r = Inl x" "p' = p" using assms(2) None g Inl by (simp_all add: get_engine_def)
    then show ?thesis using assms(1) None by (simp add: process_inv_def)
  next
    case (Inr s)
    have s: "pr_settings p1 = Some s" "pr_engine p1 = None" "pr_factory p1 = pr_factory p"
      using get_settings_Inr [OF g [unfolded Inr]] None by auto
    then have empty: "pr_factory p1 = None" "set (pr_disposed p1) \<subseteq> {..<pr_opened p1}"
      "{..<pr_opened p1} - set (pr_disposed p1) = {}"
      using inv1 by (auto simp: process_inv_def live_engines_def)
    show ?thesis
    proof (cases "rejects s")
      case None
      let ?e = "\<lparr>en_id = pr_opened p1, en_url = database_url s, en_echo = database_echo s,
          en_pool = Some (database_pool_size s, database_max_overflow s), en_translate = []\<rparr>"
      have r: "r = Inr ?e" "p' = p1\<lparr>pr_engine := Some ?e, pr_opened := Suc (pr_opened p1)\<rparr>"
        using assms(2) \<open>pr_engine p = None\<close> g Inr None by (simp_all add: get_engine_def Let_def)
      have "set (pr_disposed p1) \<subseteq> {..<Suc (pr_opened p1)}" using empty(2) by (auto simp: subset_iff less_Suc_eq)
      then show ?thesis
        using opened_engine_live [OF empty(2,3)] s(1) empty(1)
        by (simp add: r process_inv_def live_engines_def engine_of_settings_def)
    next
      case (Some x)
      then show ?thesis
        using assms(2) \<open>pr_engine p = None\<close> g Inr s empty inv1 by (auto simp: get_engine_def)
    qed
  qed
qed

lemma get_session_factory_inv:
  assumes "process_inv p" "get_session_factory reading rejects p = (r, p')"
  shows "process_inv p' \<and> (\<forall>f. r = Inr f \<longrightarrow> pr_factory p' = Some f)"
proof (cases "pr_factory p")
  case (Some f)
  then show ?thesis using assms by (auto simp: get_session_factory_def)
next
  case None
  obtain re p1 where g: "get_engine reading rejects p = (re, p1)" by fastforce
  have inv1: "process_inv p1" "\<forall>e. re = Inr e \<longrightarrow> pr_engine p1 = Some e"
    using get_engine_inv [OF assms(1) g] by auto
  then show ?thesis
    using assms(2) None g
    by (auto simp: get_session_factory_def Let_def process_inv_def live_engines_def split: sum.splits)
qed

lemma dispose_engine_inv: "process_inv p \<Longrightarrow> process_inv (snd (dispose_engine closing p))"
  by (auto simp: dispose_engine_def process_inv_def live_engines_def split: option.splits)

lemma process_step_inv: "process_inv p \<Longrightarrow> process_inv (process_step c p)"
proof (cases c)
  case (AskEngine reading rejects)
  then show "process_inv p \<Longrightarrow> ?thesis"
    using get_engine_inv [of p reading rejects] by (cases "get_engine reading rejects p") auto
next
  case (AskFactory reading rejects)
  then show "process_inv p \<Longrightarrow> ?thesis"
    using get_session_factory_inv [of p reading rejects] by (cases "get_session_factory reading rejects p") auto
qed (simp add: dispose_engine_inv)

lemma process_run_inv: "process_inv p \<Longrightarrow> process_inv (process_run cs p)"
  unfolding process_run_def by (induction cs arbitrary: p) (auto intro: process_step_inv)

lemma new_process_inv: "process_inv new_process"
  by (simp add: new_process_def process_inv_def live_engines_def)

lemma factory_bound_inv:
  assumes "get_session_factory reading rejects (process_run calls new_process) = (Inr f, p)"
  shows "process_inv p \<and> pr_factory p = Some f \<and> pr_engine p = Some (sf_engine f)
    \<and> live_engines p = {en_id (sf_engine f)} \<and> (\<exists>s. pr_settings p = Some s \<and> engine_of_settings s (sf_engine f))"
proof -
  have inv: "process_inv p" and f: "pr_factory p = Some f"
    using get_session_factory_inv [OF process_run_inv [OF new_process_inv] assms] by auto
  then obtain e where "pr_engine p = Some e" by (cases "pr_engine p") (auto simp: process_inv_def)
  then show ?thesis using inv f by (auto simp: process_inv_def)
qed

text \<open>
  C34. Whatever was asked, failed and shut down before: a session factory that the process hands
  out is bound to the one engine that is open and not disposed, which carries the settings that
  the process read first and no schema translation, and it is handed out again until shutdown.
\<close>

theorem factory_bound_to_live_engine:
  assumes "get_session_factory reading rejects (process_run calls new_process) = (Inr f, p)"
  shows "pr_engine p = Some (sf_engine f) \<and> live_engines p = {en_id (sf_engine f)}
    \<and> (\<exists>s. pr_settings p = Some s \<and> engine_of_settings s (sf_engine f))
    \<and> (\<forall>reading' rejects'. get_session_factory reading' rejects' p = (Inr f, p))
    \<and> (\<forall>closing. closing (sf_engine f) = None \<longrightarrow> live_engines (snd (dispose_engine closing p)) = {})"
proof -
  note I = factory_bound_inv [OF assms]
  have "live_engines (snd (dispose_engine closing p)) = {}" if "closing (sf_engine f) = None" for closing
    using I that by (auto simp: dispose_engine_def live_engines_def)
  then show ?thesis using I by (auto simp: get_session_factory_def)
qed

theorem factory_bound_to_live_engine_witness:
  "\<exists>f p. get_session_factory (Inr default_settings) (\<lambda>_. None)
      (process_run [AskFactory (Inr default_settings) (\<lambda>_. None), Shutdown (\<lambda>_. None)] new_process) = (Inr f, p)
     \<and> live_engines p = {1} \<and> en_pool (sf_engine f) = Some (5, 10)"
proof -
  let ?g = "get_session_factory (Inr default_settings) (\<lambda>_. None)
      (process_run [AskFactory (Inr default_settings) (\<lambda>_. None), Shutdown (\<lambda>_. None)] new_process)"
  have "fst ?g = Inr \<lparr>sf_engine = \<lparr>en_id = 1, en_url = database_url default_settings, en_echo = False,
      en_pool = Some (5, 10), en_translate = []\<rparr>, sf_expire_on_commit = False, sf_autoflush = False\<rparr>"
    by code_simp
  then obtain f p where g: "?g = (Inr f, p)" and f: "en_id (sf_engine f) = 1" "en_pool (sf_engine f) = Some (5, 10)"
    by (cases ?g) auto
  show ?thesis using factory_bound_to_live_engine [OF g] g f by auto
qed

section \<open>Sessions and the tables they reach\<close>

text \<open>
  A session takes its connection at its first statement, or when it is asked for one with
  execution options; \<open>ss_translate\<close> is the translation of that connection. Options that come
  after the connection are ignored (with a warning), as the library documents it.
\<close>

record db_session =
  ss_engine :: engine
  ss_translate :: "translate_map option"

definition open_session :: "session_factory \<Rightarrow> db_session" where
  "open_session f = \<lparr>ss_engine = sf_engine f, ss_translate = None\<rparr>"

definition connection :: "translate_map option \<Rightarrow> db_session \<Rightarrow> db_session" where
  "connection options ss =
     (case ss_translate ss of
        Some m \<Rightarrow> ss
      | None \<Rightarrow> ss\<lparr>ss_translate := Some (case options of None \<Rightarrow> en_translate (ss_engine ss) | Some m \<Rightarrow> m)\<rparr>)"

definition bind_module_schema :: "string \<Rightarrow> db_session \<Rightarrow> db_session" where
  "bind_module_schema schema = connection (Some [(None, schema)])"

text \<open>The engine of a worker; it is made for the run of a command and disposed at its end.\<close>

definition create_module_engine :: "settings \<Rightarrow> string \<Rightarrow> nat \<Rightarrow> engine" where
  "create_module_engine s schema n =
     \<lparr>en_id = n, en_url = database_url s, en_echo = database_echo s, en_pool = None,
      en_translate = [(None, schema)]\<rparr>"

definition module_session_factory :: "engine \<Rightarrow> session_factory" where
  "module_session_factory e = \<lparr>sf_engine = e, sf_expire_on_commit = False, sf_autoflush = True\<rparr>"

text \<open>The schema that a statement of the session names, \<open>None\<close> for an unqualified table.\<close>

definition resolved_schema :: "db_session \<Rightarrow> string option \<Rightarrow> string option" where
  "resolved_schema ss declared =
     (case map_of (the (ss_translate (connection None ss))) declared of None \<Rightarrow> declared | Some x \<Rightarrow> Some x)"

definition session_tables :: "db_session \<Rightarrow> (string option \<times> string) list" where
  "session_tables ss = map (\<lambda>(declared, name, cols, extra). (resolved_schema ss declared, name)) metadata_tables"

text \<open>The sessions: of a request that schedules a message, of a request that does not, of a worker.\<close>

definition scheduling_session :: "string \<Rightarrow> session_factory \<Rightarrow> db_session" where
  "scheduling_session schema f = bind_module_schema schema (open_session f)"

definition worker_session :: "settings \<Rightarrow> nat \<Rightarrow> module_binding \<Rightarrow> db_session" where
  "worker_session s n binding = open_session (module_session_factory (create_module_engine s (mb_schema binding) n))"

definition migrated :: "(string \<times> string) list" where
  "migrated = map (\<lambda>(s, n, t). (s, n)) (tables_in migrated_catalog)"

definition reaches_migrated :: "db_session \<Rightarrow> bool" where
  "reaches_migrated ss \<longleftrightarrow> (\<forall>(s, n) \<in> set (session_tables ss). \<exists>x. s = Some x \<and> (x, n) \<in> set migrated)"

lemma migrated_tables:
  "set migrated = {(SHIPMENT_SCHEMA, ''shipments''), (SHIPMENT_SCHEMA, ''outbox_messages''), (SHIPMENT_SCHEMA, ''inbox_messages''),
     (CUSTOMS_SCHEMA, ''outbox_messages''), (CUSTOMS_SCHEMA, ''inbox_messages''), (CUSTOMS_SCHEMA, ''clearance_cases''),
     (CUSTOMS_SCHEMA, ''clearance_case_documents''), (FILES_SCHEMA, ''files''), (FILES_SCHEMA, ''file_references'')}"
proof -
  have "map (\<lambda>(s, n, t). (s, n)) placed_tables =
     [(SHIPMENT_SCHEMA, ''outbox_messages''), (CUSTOMS_SCHEMA, ''outbox_messages''), (SHIPMENT_SCHEMA, ''inbox_messages''),
      (CUSTOMS_SCHEMA, ''inbox_messages''), (CUSTOMS_SCHEMA, ''clearance_cases''), (CUSTOMS_SCHEMA, ''clearance_case_documents''),
      (FILES_SCHEMA, ''files''), (FILES_SCHEMA, ''file_references''), (SHIPMENT_SCHEMA, ''shipments'')]"
    by code_simp
  then have "set (map (\<lambda>(s, n, t). (s, n)) placed_tables) =
     set [(SHIPMENT_SCHEMA, ''outbox_messages''), (CUSTOMS_SCHEMA, ''outbox_messages''), (SHIPMENT_SCHEMA, ''inbox_messages''),
      (CUSTOMS_SCHEMA, ''inbox_messages''), (CUSTOMS_SCHEMA, ''clearance_cases''), (CUSTOMS_SCHEMA, ''clearance_case_documents''),
      (FILES_SCHEMA, ''files''), (FILES_SCHEMA, ''file_references''), (SHIPMENT_SCHEMA, ''shipments'')]"
    by (rule arg_cong)
  then show ?thesis unfolding migrated_def metadata_complete by auto
qed

lemma translated_session_tables:
  assumes "ss_translate (connection None ss) = Some m" "\<And>x. map_of m (Some x) = None"
  shows "set (session_tables ss) =
    {(map_of m None, ''outbox_messages''), (map_of m None, ''inbox_messages''), (Some CUSTOMS_SCHEMA, ''clearance_cases''),
     (Some CUSTOMS_SCHEMA, ''clearance_case_documents''), (Some FILES_SCHEMA, ''files''),
     (Some FILES_SCHEMA, ''file_references''), (Some SHIPMENT_SCHEMA, ''shipments'')}"
  using assms by (auto simp: session_tables_def metadata_tables_def resolved_schema_def split: option.splits)

lemma reaches_migrated_iff:
  assumes "ss_translate (connection None ss) = Some m" "\<And>x. map_of m (Some x) = None"
  shows "reaches_migrated ss \<longleftrightarrow> (\<exists>x \<in> {SHIPMENT_SCHEMA, CUSTOMS_SCHEMA}. map_of m None = Some x)"
  unfolding reaches_migrated_def translated_session_tables [OF assms] migrated_tables
  by (auto simp: SHIPMENT_SCHEMA_def CUSTOMS_SCHEMA_def FILES_SCHEMA_def)

text \<open>
  C35. A request that schedules a message binds its session first and then finds every mapped
  table where the migrations made it; without the binding, or with a binding that comes after
  a statement, the outbox has no schema. The worker of a module works on the tables that the
  requests of the module write if, and only if, the configured schema of the module is the
  constant of its package: the configuration changes the worker alone.
\<close>

theorem worker_follows_configured_schema:
  assumes f: "get_session_factory reading rejects (process_run calls new_process) = (Inr f, p)"
    and b: "get_module (build_module_registry s) name = Inr binding"
  shows "(\<forall>schema \<in> {SHIPMENT_SCHEMA, CUSTOMS_SCHEMA}. reaches_migrated (scheduling_session schema f))
    \<and> resolved_schema (open_session f) None = None
    \<and> resolved_schema (bind_module_schema schema (connection None (open_session f))) None = None
    \<and> resolved_schema (worker_session s n binding) None = Some (mb_schema binding)
    \<and> (session_tables (worker_session s n binding) = session_tables (scheduling_session schema f) \<longleftrightarrow>
         mb_schema binding = schema)
    \<and> (reaches_migrated (worker_session s n binding) \<longleftrightarrow>
         (if name = ''shipment'' then shipment_schema s else customs_schema s) \<in> {SHIPMENT_SCHEMA, CUSTOMS_SCHEMA})"
proof -
  have "en_translate (sf_engine f) = []"
    using factory_bound_inv [OF f] by (auto simp: engine_of_settings_def)
  then have plain: "ss_translate (connection None (open_session f)) = Some []"
    by (simp add: connection_def open_session_def)
  have bound: "ss_translate (connection None (scheduling_session x f)) = Some [(None, x)]" for x
    by (simp add: scheduling_session_def bind_module_schema_def connection_def open_session_def)
  have worker: "ss_translate (connection None (worker_session s n binding)) = Some [(None, mb_schema binding)]"
    by (simp add: worker_session_def open_session_def module_session_factory_def create_module_engine_def connection_def)
  have late: "connection None (bind_module_schema schema (connection None (open_session f))) = connection None (open_session f)"
    by (simp add: bind_module_schema_def connection_def open_session_def)
  have name: "mb_schema binding = (if name = ''shipment'' then shipment_schema s else customs_schema s)"
    using b by (auto simp: build_module_registry_get split: if_splits)
  have same: "session_tables (worker_session s n binding) = session_tables (scheduling_session schema f) \<longleftrightarrow>
      mb_schema binding = schema"
    by (simp add: session_tables_def metadata_tables_def resolved_schema_def bound worker)
  show ?thesis
    using reaches_migrated_iff [OF bound] reaches_migrated_iff [OF worker] same
    by (simp add: resolved_schema_def plain late worker name)
qed

theorem worker_follows_configured_schema_witness:
  "\<exists>f p binding. get_session_factory (Inr default_settings) (\<lambda>_. None) (process_run [] new_process) = (Inr f, p)
     \<and> get_module (build_module_registry (default_settings\<lparr>shipment_schema := ''freight''\<rparr>)) ''shipment'' = Inr binding
     \<and> reaches_migrated (scheduling_session SHIPMENT_SCHEMA f)
     \<and> \<not> reaches_migrated (worker_session (default_settings\<lparr>shipment_schema := ''freight''\<rparr>) 0 binding)"
proof -
  let ?s = "default_settings\<lparr>shipment_schema := ''freight''\<rparr>"
  obtain binding where b: "get_module (build_module_registry ?s) ''shipment'' = Inr binding"
    by (simp add: build_module_registry_get)
  let ?g = "get_session_factory (Inr default_settings) (\<lambda>_. None) (process_run [] new_process)"
  have "\<not> isl (fst ?g)" by code_simp
  then obtain f p where g: "?g = (Inr f, p)" by (cases ?g; cases "fst ?g") auto
  show ?thesis
    using worker_follows_configured_schema [OF g b, of SHIPMENT_SCHEMA 0] g b
    by (auto simp: SHIPMENT_SCHEMA_def CUSTOMS_SCHEMA_def)
qed

end
