(* ===== verification/Spec2Isabelle.thy ===== *)
theory Spec2Isabelle
  imports Py_Prelude Py_Value App_Errors Http_Problem Persistence Settings Shipment_Values Shipment_Aggregate
    Bus_Messages Bus_Outbox Module_Db Bus_Inbox Bus_Topology Bus_Broker Bus_Consumer Bus_Cli Shipment_Slices
    Shipment_Storage Clearance_Case Customs_Slices Customs_Storage Storage_Location Stored_File File_Storage
    Files_Storage Upload_File Composition Sql_Schema Migrations Declared_Tables Table_Refinement System
    System_Safety System_Liveness Sessions
begin

text \<open>
  Verification of the trade logistics service (\<open>kevinnaguirre9/trade-logistics-management\<close>),
  a modular monolith in Python. Three modules with schemas of their own, Shipment, Customs
  Clearance and Files, serve an HTTP interface; a shared message bus (transactional outbox,
  relay, RabbitMQ topology, consumer, inbox) carries integration messages between them.

  \<^bold>\<open>How the parts interact.\<close> A request runs in one transaction (\<open>get_session\<close>): its handler
  loads an aggregate through a repository, calls one operation of the aggregate, persists the
  aggregate and schedules the message that the operation announced in the outbox of the same
  schema. The worker command \<open>dispatch-messages\<close> publishes pending outbox rows; the command
  \<open>handle-messages\<close> consumes a queue, dispatches each message to the subscribers of a module
  with an inbox row per subscriber, and moves what keeps failing through the retry queue to the
  error queue. Uploads write bytes to a disk before they record the file.

  \<^bold>\<open>Foundations.\<close>
  \<^item> \<open>Py_Prelude\<close>: results \<open>exc + 'a\<close>, their sequencing \<open>bindE\<close> and \<open>mapE\<close>, strings
    (\<open>strip\<close>, \<open>lower\<close>, \<open>split\<close>), UUIDs as 128-bit words with parsing and printing, dicts as
    association lists. \<open>Py_Value\<close>: the dynamic values a validator may receive, IEEE floats,
    decimals.
  \<^item> \<open>App_Errors\<close>: the exceptions, a constructor per error class of the source, other
    exceptions by class name. \<open>Http_Problem\<close>: problem documents, exception handlers, links
    (\<open>shared/http\<close>).
  \<^item> \<open>Persistence\<close>: \<open>get_session\<close> as \<open>request_scope\<close>; the locales \<open>repository\<close>,
    \<open>row_store\<close> and \<open>mapped_store\<close> with their interpretation on tables as lists of rows under
    declared constraints. \<open>Settings\<close>: the settings record with its defaults.

  \<^bold>\<open>Shipment\<close> (\<open>modules/shipment\<close>). \<open>Shipment_Values\<close>: identifier, waybill, manifest and
  route with their validators. \<open>Shipment_Aggregate\<close>: \<open>create\<close>, \<open>assign_route\<close>,
  \<open>finalize_manifest\<close>, the invariant, and the histories of a shipment. \<open>Shipment_Slices\<close>:
  commands, handlers, controllers, links. \<open>Shipment_Storage\<close>: the mapping, the constraints of
  the table, the repository, the waybill sequence, and the requests over them.

  \<^bold>\<open>Customs Clearance\<close> (\<open>modules/customs_clearance\<close>). \<open>Money\<close>: amounts on decimal
  arithmetic. \<open>Clearance_Case\<close>: documents, the aggregate, its invariant, histories and audit
  trail. \<open>Customs_Slices\<close>: the two HTTP slices and the message-driven slice.
  \<open>Customs_Storage\<close>: both tables, the repository, the requests, and one case per message.

  \<^bold>\<open>Files\<close> (\<open>modules/files\<close>). \<open>Storage_Location\<close>, \<open>Stored_File\<close>: location, references
  and aggregate. \<open>File_Storage\<close>: disks and the fsspec adapter over the locale
  \<open>fsspec_backend\<close>. \<open>Files_Storage\<close>: tables and repository. \<open>Upload_File\<close>: the slice, its
  compensation, races and orphans.

  \<^bold>\<open>Message bus\<close> (\<open>modules/shared/message_bus\<close>). \<open>Bus_Messages\<close>: message classes,
  bodies, destinations, envelope, subscribers. \<open>Bus_Outbox\<close>: rows, scheduling, the relay over
  the locale \<open>publisher\<close>. \<open>Module_Db\<close>: the schema of a module, the inbox repository, the
  locale \<open>unit_of_work\<close>. \<open>Bus_Inbox\<close>: attempts, immediate retries, dispatch.
  \<open>Bus_Topology\<close>, \<open>Bus_Broker\<close>: topology, connection, publishing, retry and dead letter,
  over the locale \<open>amqp_channel\<close>. \<open>Bus_Consumer\<close>: deliveries and recovery. \<open>Bus_Cli\<close>: the
  worker commands.

  \<^bold>\<open>Composition.\<close> \<open>Composition\<close>: \<open>main.py\<close> and \<open>worker.py\<close>. \<open>Sessions\<close>: the engines,
  session factories and schema bindings of both processes, with the invariant that a factory
  is bound to the one engine that is open, and which tables a session reaches. This theory:
  a finalized manifest on its way to Customs.

  \<^bold>\<open>Database schema.\<close> \<open>Sql_Schema\<close>: columns, constraints and statements, and what a table
  accepts. \<open>Migrations\<close>: the six revisions and \<open>alembic/env.py\<close>; every order of the branches
  gives one catalog, and the downgrades undo it. \<open>Declared_Tables\<close>: the tables of the shared
  metadata against the migrated ones, autogeneration and offline scripts.
  \<open>Table_Refinement\<close>: the checks of the storage theories agree with the migrated tables.

  \<^bold>\<open>The whole system.\<close> \<open>System\<close>: a world holds both schemas, the waybill sequence and the
  broker; a step is one HTTP request, relay run or delivery with any failure, or a change of
  the broker that publishes nothing, in any order, and any accepted message may be delivered
  any number of times. Its lemmas show that each step keeps the invariant. \<open>System_Safety\<close>:
  every finalized shipment is announced once, no shipment has two cases, a concrete run, and
  what happens when two requests overlap: a step is atomic, and \<open>late_finalize_request\<close> is the
  request that works on what it read before another one committed. \<open>System_Liveness\<close>: from every
  reachable world a run of the relay and a delivery lead to the case of a finalized shipment.

  \<^bold>\<open>What is relied on.\<close> Code outside the repository is a parameter: how numeric columns
  store a float (\<open>numeric\<close>, \<open>fits\<close>), what JSONB keeps (\<open>jsonb\<close>), the JSON parser and printer
  (\<open>loads\<close>, \<open>dumps\<close>), the digest (\<open>hexdigest\<close>), the file systems (\<open>fsspec_backend\<close>), the
  AMQP client (\<open>amqp_channel\<close>: a call that returns was accepted once), the validation of the
  framework, the identifiers that \<open>uuid4\<close> draws and the clock, and whether a commit fails.
  Where a property needs a law of one of them it is a hypothesis, and its witness gives an
  instance. Loops are structural or bounded by the list they run over; nothing uses fuel.

  \<^bold>\<open>Not modelled.\<close> The texts of errors and logs; what a pool or a connection does; the
  framework's routing and parsing; reading the environment; Alembic's selection of revisions;
  the class mappings as such (the rows they read and write are modelled); task cancellation;
  characters beyond ASCII (a string is a list of 8-bit characters); exceptions raised while a
  connection is closed; the re-exports of the packages.
\<close>

section \<open>From a finalized manifest to a clearance case\<close>

text \<open>
  C8. A finalized manifest reaches Customs: when the HTTP request succeeds, the row it left in
  the outbox is published to the configured exchange, and the worker of the Customs module,
  given that message, acknowledges it and opens exactly one case, for that shipment, with its
  inbox row in the same transaction; the same message once more opens nothing.
\<close>

theorem finalized_manifest_opens_case:
  assumes request: "finalize_manifest_request numeric fits (lifespan_destinations st) fresh now commit sid cmd db
      = (Inr resp, db')"
    and json: "json_transports dumps loads (ob_body (last (md_outbox db')))"
    and binding: "get_module (build_module_registry st) ''customs_clearance'' = Inr b"
    and schema: "distinct (map inbox_key (md_inbox cdb))" "documents_distinct (md_store cdb)"
    and new: "ob_message_id (last (md_outbox db')) \<notin> ib_message_id ` set (md_inbox cdb)"
      "CaseId (draw 0) \<notin> fst ` set (md_store cdb)"
    and delivery: "dl_message d = row_message dumps (last (md_outbox db'))"
    and handled: "handle_delivery amqp failure_text loads (customs_run cases_persist draw) (\<lambda>_ _. None)
      (mb_handlers b) retries 0 d (c, cdb) = (res, (c', cdb'), t', ks)"
  shows "row_parcel dumps (last (md_outbox db')) = Publish (rabbitmq_primary_exchange st)
        SHIPMENT_MANIFEST_FINALIZED_ROUTING_KEY (dl_message d)
    \<and> (\<exists>i s. mk_shipment_id (PStr sid) = Inr i \<and> postgres_find_by_id i (md_store db) = Inr (Some s)
        \<and> md_store cdb' = md_store cdb @ [(CaseId (draw 0), opened_row (draw 0) (str_shipment_id (sh_id s)))])
    \<and> md_inbox cdb' = processed_inbox (last (md_outbox db')) cdb
    \<and> perform amqp (Ack (dl_tag d)) c = (res, c')
    \<and> (\<forall>c1 res2 c2 cdb2 t2 ks2. handle_delivery amqp failure_text loads (customs_run cases_persist draw) (\<lambda>_ _. None)
        (mb_handlers b) retries t' d (c1, cdb') = (res2, (c2, cdb2), t2, ks2) \<longrightarrow> cdb2 = cdb' \<and> ks2 = [])"
proof -
  have h: "finalize_manifest_endpoint (\<lambda>i db. postgres_find_by_id i (md_store db))
       (\<lambda>s. on_store (postgres_persist numeric fits s)) (schedule (lifespan_destinations st) fresh now) commit
       sid cmd db = (Inr resp, db')"
    using request by (simp add: finalize_manifest_request_def)
  obtain i s m r where i: "mk_shipment_id (PStr sid) = Inr i" "postgres_find_by_id i (md_store db) = Inr (Some s)"
    and m: "wf_manifest m" and out: "md_outbox db' = md_outbox db @ [r]"
    and ann: "announces (lifespan_destinations st) (finalized_event s m) r"
  proof (rule shipment_db.finalize_endpoint_success [OF h], goal_cases)
    case (1 i s m r)
    then show ?case using mk_cargo_manifest_wf by blast
  qed
  have last: "last (md_outbox db') = r" by (simp add: out)
  have b: "mb_handlers b = build_message_handlers" using binding by (auto simp: build_module_registry_get)
  have fresh_key: "(ob_message_id r, ''OpenClearanceCaseMessageHandler'') \<notin> inbox_key ` set (md_inbox cdb)"
    using new(1) by (auto simp: last inbox_key_def)
  note o = opens_case_of_row [where fresh = draw, OF announces_row [OF ann] m json [unfolded last] schema fresh_key new(2) refl
      delivery [unfolded last] handled [unfolded b]]
  have to: "ob_exchange r = rabbitmq_primary_exchange st" "ob_routing_key r = SHIPMENT_MANIFEST_FINALIZED_ROUTING_KEY"
    and ty: "ob_message_type r = SHIPMENT_MANIFEST_FINALIZED" "ob_headers r = []"
    using ann lifespan_destinations_of(1) [of st]
    by (auto simp: announces_def finalized_event_def ShipmentManifestFinalized_def init_message_class_def
        SHIPMENT_MANIFEST_FINALIZED_def)
  have again: "cdb2 = cdb' \<and> ks2 = []"
    if second: "handle_delivery amqp failure_text loads (customs_run cases_persist draw) (\<lambda>_ _. None)
        (mb_handlers b) retries t' d (c1, cdb') = (res2, (c2, cdb2), t2, ks2)" for c1 res2 c2 cdb2 t2 ks2
  proof -
    let ?env = "\<lparr>env_message_id = ob_message_id r, env_message_type = ob_message_type r, env_body = ob_body r,
         env_headers = ob_headers r\<rparr>"
    have sub: "ob_message_type r \<in> set (subscribed_types build_message_handlers)" "ob_message_type r \<noteq> []"
      using subscribed_customs_type by (simp_all add: ty(1))
    have proc: "should_process (bc_topology c1) build_message_handlers (dl_message d) = Inr True"
      unfolding delivery last by (rule row_message_processed [OF ty(2) sub])
    have env: "envelope_of loads (dl_message d) = Inr ?env"
      unfolding delivery last by (rule row_message_envelope [OF json [unfolded last]])
    have keys: "map inbox_key (md_inbox cdb') = map inbox_key (md_inbox cdb)
        @ [(ob_message_id r, ''OpenClearanceCaseMessageHandler'')]"
      using o(1) by (simp add: processed_inbox_def inbox_key_def)
    have dist: "distinct (map inbox_key (md_inbox cdb'))" unfolding keys using schema(1) fresh_key by simp
    have done_all: "\<forall>h \<in> set (handlers_for build_message_handlers (env_message_type ?env)).
        (env_message_id ?env, handler_name h) \<in> set (map inbox_key (md_inbox cdb'))"
      unfolding keys by (auto simp: handlers_for_build OpenClearanceCaseMessageHandler_def init_handler_class_def)
    have idle: "x = Inr () \<and> cdb2 = cdb' \<and> ks2 = []"
      if "dispatch (customs_run cases_persist draw) (\<lambda>_ _. None) build_message_handlers retries t' ?env cdb'
        = (x, cdb2, t2, ks2)" for x
      using customs_handlers.dispatch_inbox(1,5) [OF that dist] done_all by simp
    show ?thesis
      using second [unfolded b]
    proof (cases rule: handle_delivery_cases)
      case handled
      then show ?thesis using env idle by auto
    next
      case failed
      then show ?thesis using env idle by auto
    qed (use proc env in simp_all)
  qed
  show ?thesis using o i to again by (auto simp: last row_parcel_def delivery)
qed

theorem finalized_manifest_opens_case_witness:
  "\<exists>resp db' res c' cdb' t' ks loads.
     finalize_manifest_request (\<lambda>x. x) (\<lambda>_. True) (lifespan_destinations default_settings) 1 0 (\<lambda>_. None)
       (str_shipment_id (ShipmentId 7)) sample_finalize draft_db = (Inr resp, db')
     \<and> handle_delivery scripted_amqp (\<lambda>_. ([], [], [])) loads (customs_run cases_persist of_nat) (\<lambda>_ _. None)
         build_message_handlers 3 0 \<lparr>dl_tag = 1, dl_message = row_message (\<lambda>_. Inr [1]) (last (md_outbox db'))\<rparr>
         (open_connection, empty_customs_db) = (res, (c', cdb'), t', ks)
     \<and> length (md_store cdb') = 1"
proof -
  let ?r = "finalize_manifest_request (\<lambda>x. x) (\<lambda>_. True) (lifespan_destinations default_settings) 1 0 (\<lambda>_. None)
       (str_shipment_id (ShipmentId 7)) sample_finalize draft_db"
  have "isl (fst ?r) = False" by code_simp
  then obtain resp db' where r: "?r = (Inr resp, db')" by (cases ?r; cases "fst ?r") auto
  let ?row = "last (md_outbox db')"
  let ?loads = "\<lambda>bytes :: 8 word list. Inr (PDict (map (\<lambda>(k, v). (PStr k, v)) (ob_body ?row))) :: json_error + pyval"
  let ?d = "\<lparr>dl_tag = 1, dl_message = row_message (\<lambda>_. Inr [1]) ?row\<rparr>"
  have json: "json_transports (\<lambda>_. Inr [1]) ?loads (ob_body ?row)" by (simp add: json_transports_def)
  let ?b = "\<lparr>mb_name = ''customs_clearance'', mb_schema = customs_schema default_settings,
    mb_handlers = build_message_handlers\<rparr>"
  have b: "get_module (build_module_registry default_settings) ''customs_clearance'' = Inr ?b"
    by (simp add: build_module_registry_get)
  have e: "distinct (map inbox_key (md_inbox empty_customs_db))" "documents_distinct (md_store empty_customs_db)"
    "ob_message_id ?row \<notin> ib_message_id ` set (md_inbox empty_customs_db)"
    "CaseId (of_nat 0) \<notin> fst ` set (md_store empty_customs_db)"
    by (simp_all add: empty_customs_db_def documents_distinct_def)
  obtain res c' cdb' t' ks where h: "handle_delivery scripted_amqp (\<lambda>_. ([], [], [])) ?loads
      (customs_run cases_persist of_nat) (\<lambda>_ _. None) build_message_handlers 3 0 ?d
      (open_connection, empty_customs_db) = (res, (c', cdb'), t', ks)"
    by (metis prod.exhaust)
  have h': "handle_delivery scripted_amqp (\<lambda>_. ([], [], [])) ?loads
      (customs_run cases_persist of_nat) (\<lambda>_ _. None) (mb_handlers ?b) 3 0 ?d
      (open_connection, empty_customs_db) = (res, (c', cdb'), t', ks)"
    using h by simp
  have d: "dl_message ?d = row_message (\<lambda>_. Inr [1]) ?row" by simp
  have "\<exists>row. md_store cdb' = md_store empty_customs_db @ [row]"
    using finalized_manifest_opens_case [where draw = of_nat and cdb = empty_customs_db and d = ?d and retries = 3
        and dumps = "\<lambda>_. Inr [1]", OF r json b e d h'] by auto
  then have "length (md_store cdb') = 1" by (auto simp: empty_customs_db_def)
  with r h show ?thesis by blast
qed

end
